theory Spec2Isabelle
  imports Main "HOL-Library.Word" "HOL-Library.Signed_Division"
begin

unbundle bit_operations_syntax

section \<open>Machine types and the code buffer\<close>

text \<open>
  The embedding follows \<^verbatim>\<open>gum/arch-arm/gumthumbwriter.c\<close>. Integer types keep their
  C widths: \<^verbatim>\<open>guint16\<close> is a 16-bit word, \<^verbatim>\<open>guint\<close>, \<^verbatim>\<open>guint32\<close> and the
  \<^verbatim>\<open>int\<close> of promoted arithmetic are 32-bit words, \<^verbatim>\<open>GumAddress\<close> (\<^verbatim>\<open>guint64\<close>),
  \<^verbatim>\<open>gsize\<close> and \<^verbatim>\<open>gssize\<close> are 64-bit words (an LP64 host; \<^verbatim>\<open>gssize\<close> is read
  through \<open>sint\<close>). An expression that C evaluates in a wide type and then passes
  as \<^verbatim>\<open>guint16\<close> is evaluated in the wide type here and truncated by \<open>ucast\<close> at the
  same place.

  Pointers into the caller's buffer (\<^verbatim>\<open>guint16 *\<close>, \<^verbatim>\<open>guint32 *\<close>, \<^verbatim>\<open>gpointer\<close>) are
  byte addresses of type \<open>nat\<close>: pointer arithmetic that leaves the address space is
  undefined in C, so addresses do not wrap. \<^verbatim>\<open>GUM_ADDRESS (p)\<close> is \<open>of_nat p\<close>. The
  buffer is a byte-addressed store; the host is little-endian, so that
  \<^verbatim>\<open>GUINT16_TO_LE\<close> and \<^verbatim>\<open>GUINT16_FROM_LE\<close> are the identity and a \<^verbatim>\<open>guint32\<close> slot is
  four bytes, lowest first.
\<close>

type_synonym guint8 = "8 word"
type_synonym guint16 = "16 word"
type_synonym guint = "32 word"
type_synonym guint32 = "32 word"
type_synonym gsize = "64 word"
type_synonym gssize = "64 word"
type_synonym GumAddress = "64 word"
type_synonym memory = "nat \<Rightarrow> guint8"

definition read_u16 :: "memory \<Rightarrow> nat \<Rightarrow> guint16" where
  "read_u16 m a = ucast (m a) OR push_bit 8 (ucast (m (a + 1)))"

definition write_u16 :: "memory \<Rightarrow> nat \<Rightarrow> guint16 \<Rightarrow> memory" where
  "write_u16 m a v = m(a := ucast v, a + 1 := ucast (drop_bit 8 v))"

definition read_u32 :: "memory \<Rightarrow> nat \<Rightarrow> guint32" where
  "read_u32 m a =
     ucast (m a) OR push_bit 8 (ucast (m (a + 1))) OR
     push_bit 16 (ucast (m (a + 2))) OR push_bit 24 (ucast (m (a + 3)))"

definition write_u32 :: "memory \<Rightarrow> nat \<Rightarrow> guint32 \<Rightarrow> memory" where
  "write_u32 m a v =
     m(a := ucast v, a + 1 := ucast (drop_bit 8 v),
       a + 2 := ucast (drop_bit 16 v), a + 3 := ucast (drop_bit 24 v))"

text \<open>\<^verbatim>\<open>gum_memcpy (dst, data, n)\<close> with \<open>n = length data\<close>.\<close>

fun gum_memcpy :: "memory \<Rightarrow> nat \<Rightarrow> guint8 list \<Rightarrow> memory" where
  "gum_memcpy m dst [] = m"
| "gum_memcpy m dst (b # bs) = gum_memcpy (m(dst := b)) (dst + 1) bs"

section \<open>Registers\<close>

text \<open>
  Modelled from the spec: the enumeration \<^verbatim>\<open>arm_reg\<close> comes from a header that is not
  part of the sources at hand. It is restricted to the sixteen core registers the
  spec names, R0 to R12, SP, LR and PC.
\<close>

datatype arm_reg =
    ARM_REG_R0 | ARM_REG_R1 | ARM_REG_R2 | ARM_REG_R3
  | ARM_REG_R4 | ARM_REG_R5 | ARM_REG_R6 | ARM_REG_R7
  | ARM_REG_R8 | ARM_REG_R9 | ARM_REG_R10 | ARM_REG_R11 | ARM_REG_R12
  | ARM_REG_SP | ARM_REG_LR | ARM_REG_PC

text \<open>
  Modelled from the spec: \<^verbatim>\<open>GumArmMetaReg\<close> (\<^verbatim>\<open>gumarmreg.h\<close>, not part of the
  sources at hand) is an enumeration whose values the writer compares with \<^verbatim>\<open><=\<close>
  and subtracts from indices. It is the enumerator's number here, with the meta
  classes the spec lists: R0..R7 are 0..7, R8 is 8, SP is 13, LR is 14 and PC is 15.
\<close>

type_synonym GumArmMetaReg = nat

definition GUM_ARM_MREG_R0 :: GumArmMetaReg where "GUM_ARM_MREG_R0 = 0"
definition GUM_ARM_MREG_R7 :: GumArmMetaReg where "GUM_ARM_MREG_R7 = 7"
definition GUM_ARM_MREG_R8 :: GumArmMetaReg where "GUM_ARM_MREG_R8 = 8"
definition GUM_ARM_MREG_SP :: GumArmMetaReg where "GUM_ARM_MREG_SP = 13"
definition GUM_ARM_MREG_LR :: GumArmMetaReg where "GUM_ARM_MREG_LR = 14"
definition GUM_ARM_MREG_PC :: GumArmMetaReg where "GUM_ARM_MREG_PC = 15"

record GumArmRegInfo =
  meta :: GumArmMetaReg
  index :: guint

fun arm_reg_number :: "arm_reg \<Rightarrow> nat" where
  "arm_reg_number ARM_REG_R0 = 0"
| "arm_reg_number ARM_REG_R1 = 1"
| "arm_reg_number ARM_REG_R2 = 2"
| "arm_reg_number ARM_REG_R3 = 3"
| "arm_reg_number ARM_REG_R4 = 4"
| "arm_reg_number ARM_REG_R5 = 5"
| "arm_reg_number ARM_REG_R6 = 6"
| "arm_reg_number ARM_REG_R7 = 7"
| "arm_reg_number ARM_REG_R8 = 8"
| "arm_reg_number ARM_REG_R9 = 9"
| "arm_reg_number ARM_REG_R10 = 10"
| "arm_reg_number ARM_REG_R11 = 11"
| "arm_reg_number ARM_REG_R12 = 12"
| "arm_reg_number ARM_REG_SP = 13"
| "arm_reg_number ARM_REG_LR = 14"
| "arm_reg_number ARM_REG_PC = 15"

text \<open>
  Modelled from the spec: \<^verbatim>\<open>gum_arm_reg_describe\<close> (\<^verbatim>\<open>gumarmreg.c\<close>) and the values of
  \<^verbatim>\<open>GumArmMetaReg\<close> (\<^verbatim>\<open>gumarmreg.h\<close>) are not part of the sources at hand. The spec
  gives the helper as the map from a symbolic register to its index 0..15 and its
  meta class R0..R7, R8..R12, SP, LR, PC: the index is the register's number and the
  meta value is the enumerator with the same number (SP = R13, LR = R14, PC = R15).
\<close>

definition gum_arm_reg_describe :: "arm_reg \<Rightarrow> GumArmRegInfo" where
  "gum_arm_reg_describe reg =
     \<lparr> meta = arm_reg_number reg, index = of_nat (arm_reg_number reg) \<rparr>"

text \<open>\<^verbatim>\<open>ARM_REG_R0 + arg_index\<close>; the writer uses it for \<open>arg_index < 4\<close> only.\<close>

fun arm_reg_r0_plus :: "nat \<Rightarrow> arm_reg" where
  "arm_reg_r0_plus arg_index =
     (if arg_index = 0 then ARM_REG_R0
      else if arg_index = 1 then ARM_REG_R1
      else if arg_index = 2 then ARM_REG_R2
      else ARM_REG_R3)"

section \<open>The writer\<close>

text \<open>
  Modelled from the spec: \<^verbatim>\<open>GumOS\<close> and \<^verbatim>\<open>GumArgument\<close> are declared in a header that
  is not part of the sources at hand. The spec gives the OS tag as one of Linux,
  Android or other, and an argument as an address or a register.
\<close>

datatype GumOS = GUM_OS_LINUX | GUM_OS_ANDROID | GUM_OS_OTHER

datatype GumThumbMemoryOperation = GUM_THUMB_MEMORY_LOAD | GUM_THUMB_MEMORY_STORE

datatype GumArgument = GUM_ARG_ADDRESS GumAddress | GUM_ARG_REGISTER arm_reg

record GumThumbLabelMapping =
  lm_id :: nat
  lm_address :: GumAddress

record GumThumbLabelRef =
  lr_id :: nat
  lr_insn :: nat
  lr_pc :: GumAddress

record GumThumbLiteralRef =
  lit_val :: guint32
  lit_insn :: nat
  lit_pc :: GumAddress

text \<open>
  The three tables are arrays with a length field in C; each is the list of its
  first \<^verbatim>\<open>len\<close> entries here. \<open>heap\<close> is the memory the cursor points into, which
  the C structure does not own. Label identifiers are pointers compared for equality
  only. The reference count and the allocation of the tables
  (\<^verbatim>\<open>gum_thumb_writer_new\<close>, \<^verbatim>\<open>ref\<close>, \<^verbatim>\<open>unref\<close>, \<^verbatim>\<open>init\<close>, \<^verbatim>\<open>clear\<close>) are left out: a
  writer starts with \<^verbatim>\<open>gum_thumb_writer_reset\<close>.
\<close>

record GumThumbWriter =
  target_os :: GumOS
  base :: nat
  code :: nat
  pc :: GumAddress
  id_to_address :: "GumThumbLabelMapping list"
  label_refs :: "GumThumbLabelRef list"
  literal_refs :: "GumThumbLiteralRef list"
  heap :: memory

definition GUM_MAX_LABEL_COUNT :: nat where "GUM_MAX_LABEL_COUNT = 100"
definition GUM_MAX_LREF_COUNT :: nat where "GUM_MAX_LREF_COUNT = 3 * GUM_MAX_LABEL_COUNT"
definition GUM_MAX_LITERAL_REF_COUNT :: nat where "GUM_MAX_LITERAL_REF_COUNT = 100"

text \<open>
  \<^verbatim>\<open>gum_process_get_native_os ()\<close> is outside the writer; its result is the
  parameter \<open>native_os\<close>.
\<close>

definition gum_thumb_writer_reset :: "GumOS \<Rightarrow> GumThumbWriter \<Rightarrow> nat \<Rightarrow> GumThumbWriter" where
  "gum_thumb_writer_reset native_os writer code_address =
     writer\<lparr> target_os := native_os, base := code_address, code := code_address,
             pc := of_nat code_address,
             id_to_address := [], label_refs := [], literal_refs := [] \<rparr>"

definition gum_thumb_writer_set_target_os :: "GumThumbWriter \<Rightarrow> GumOS \<Rightarrow> GumThumbWriter" where
  "gum_thumb_writer_set_target_os self os = self\<lparr> target_os := os \<rparr>"

definition gum_thumb_writer_cur :: "GumThumbWriter \<Rightarrow> nat" where
  "gum_thumb_writer_cur self = code self"

definition gum_thumb_writer_skip :: "GumThumbWriter \<Rightarrow> guint \<Rightarrow> GumThumbWriter" where
  "gum_thumb_writer_skip self n_bytes =
     self\<lparr> code := code self + unat n_bytes, pc := pc self + ucast n_bytes \<rparr>"

definition gum_thumb_writer_put_instruction :: "GumThumbWriter \<Rightarrow> guint16 \<Rightarrow> GumThumbWriter" where
  "gum_thumb_writer_put_instruction self insn =
     self\<lparr> heap := write_u16 (heap self) (code self) insn,
           code := code self + 2, pc := pc self + 2 \<rparr>"

text \<open>\<open>data\<close> is the array of \<open>n = length data\<close> bytes.\<close>

definition gum_thumb_writer_put_bytes :: "GumThumbWriter \<Rightarrow> guint8 list \<Rightarrow> bool \<times> GumThumbWriter" where
  "gum_thumb_writer_put_bytes self data =
     (let n = length data in
      if n mod 2 \<noteq> 0 then (False, self)
      else (True, self\<lparr> heap := gum_memcpy (heap self) (code self) data,
                        code := code self + 2 * (n div 2), pc := pc self + of_nat n \<rparr>))"

subsection \<open>Labels and references\<close>

fun lookup_address_loop :: "GumThumbLabelMapping list \<Rightarrow> nat \<Rightarrow> GumAddress" where
  "lookup_address_loop [] ident = 0"
| "lookup_address_loop (m # ms) ident =
     (if lm_id m = ident then lm_address m else lookup_address_loop ms ident)"

definition gum_thumb_writer_lookup_address_for_label_id :: "GumThumbWriter \<Rightarrow> nat \<Rightarrow> GumAddress" where
  "gum_thumb_writer_lookup_address_for_label_id self ident =
     lookup_address_loop (id_to_address self) ident"

definition gum_thumb_writer_add_address_for_label_id ::
  "GumThumbWriter \<Rightarrow> nat \<Rightarrow> GumAddress \<Rightarrow> bool \<times> GumThumbWriter" where
  "gum_thumb_writer_add_address_for_label_id self ident address =
     (if length (id_to_address self) = GUM_MAX_LABEL_COUNT then (False, self)
      else (True, self\<lparr> id_to_address :=
              id_to_address self @ [\<lparr> lm_id = ident, lm_address = address \<rparr>] \<rparr>))"

definition gum_thumb_writer_put_label :: "GumThumbWriter \<Rightarrow> nat \<Rightarrow> bool \<times> GumThumbWriter" where
  "gum_thumb_writer_put_label self ident =
     (if gum_thumb_writer_lookup_address_for_label_id self ident \<noteq> 0 then (False, self)
      else gum_thumb_writer_add_address_for_label_id self ident (pc self))"

definition gum_thumb_writer_add_label_reference_here ::
  "GumThumbWriter \<Rightarrow> nat \<Rightarrow> bool \<times> GumThumbWriter" where
  "gum_thumb_writer_add_label_reference_here self ident =
     (if length (label_refs self) = GUM_MAX_LREF_COUNT then (False, self)
      else (True, self\<lparr> label_refs :=
              label_refs self @ [\<lparr> lr_id = ident, lr_insn = code self, lr_pc = pc self + 4 \<rparr>] \<rparr>))"

definition gum_thumb_writer_add_literal_reference_here ::
  "GumThumbWriter \<Rightarrow> guint32 \<Rightarrow> bool \<times> GumThumbWriter" where
  "gum_thumb_writer_add_literal_reference_here self val =
     (if length (literal_refs self) = GUM_MAX_LITERAL_REF_COUNT then (False, self)
      else (True, self\<lparr> literal_refs :=
              literal_refs self @ [\<lparr> lit_val = val, lit_insn = code self, lit_pc = pc self + 4 \<rparr>] \<rparr>))"

subsection \<open>Branches\<close>

definition gum_thumb_writer_put_bx_reg :: "GumThumbWriter \<Rightarrow> arm_reg \<Rightarrow> GumThumbWriter" where
  "gum_thumb_writer_put_bx_reg self reg =
     (let ri = gum_arm_reg_describe reg in
      gum_thumb_writer_put_instruction self (ucast (0x4700 OR push_bit 3 (index ri))))"

definition gum_thumb_writer_put_blx_reg :: "GumThumbWriter \<Rightarrow> arm_reg \<Rightarrow> GumThumbWriter" where
  "gum_thumb_writer_put_blx_reg self reg =
     (let ri = gum_arm_reg_describe reg in
      gum_thumb_writer_put_instruction self (ucast (0x4780 OR push_bit 3 (index ri))))"

text \<open>
  Modelled from the spec: the mask macros of \<^verbatim>\<open>gumdefs.h\<close> are not part of the sources
  at hand. The spec reads them as the bits 0..4, 0..7, 0..9 and 0..10 of a value.
\<close>

definition GUM_INT5_MASK :: guint32 where "GUM_INT5_MASK = 0x1f"
definition GUM_INT8_MASK :: guint32 where "GUM_INT8_MASK = 0xff"
definition GUM_INT10_MASK :: guint32 where "GUM_INT10_MASK = 0x3ff"
definition GUM_INT11_MASK :: guint32 where "GUM_INT11_MASK = 0x7ff"

text \<open>
  \<^verbatim>\<open>gum_thumb_writer_put_branch_imm\<close> in two parts: the value of \<^verbatim>\<open>distance.i\<close>, and
  the packing of \<^verbatim>\<open>distance.u\<close> into the two halfwords. The \<^verbatim>\<open>gint32\<close> casts keep the
  low 32 bits, the subtraction is taken modulo \<open>2 ^ 32\<close> and read as signed, and
  \<^verbatim>\<open>/ 2\<close> truncates towards zero (\<open>sdiv\<close>).
\<close>

definition branch_imm_distance :: "GumAddress \<Rightarrow> GumAddress \<Rightarrow> guint32" where
  "branch_imm_distance target cur_pc =
     word_of_int (sint ((ucast (target AND NOT 1) :: 32 word) - ucast (cur_pc + 4)) sdiv 2)"

definition put_branch_imm_distance :: "GumThumbWriter \<Rightarrow> guint32 \<Rightarrow> bool \<Rightarrow> bool \<Rightarrow> GumThumbWriter" where
  "put_branch_imm_distance self distance link thumb =
     (let s = (ucast (drop_bit 31 distance AND 1) :: guint16);
          j1 = (ucast (NOT (drop_bit 22 distance XOR ucast s) AND 1) :: guint16);
          j2 = (ucast (NOT (drop_bit 21 distance XOR ucast s) AND 1) :: guint16);
          imm10 = (ucast (drop_bit 11 distance AND GUM_INT10_MASK) :: guint16);
          imm11 = (ucast (distance AND GUM_INT11_MASK) :: guint16);
          self1 = gum_thumb_writer_put_instruction self
                    (ucast (0xf000 OR push_bit 10 (ucast s) OR ucast imm10 :: 32 word))
      in gum_thumb_writer_put_instruction self1
           (ucast (0x8000 OR push_bit 14 (of_bool link) OR push_bit 13 (ucast j1) OR
                   push_bit 12 (of_bool thumb) OR push_bit 11 (ucast j2) OR ucast imm11 :: 32 word)))"

definition gum_thumb_writer_put_branch_imm ::
  "GumThumbWriter \<Rightarrow> GumAddress \<Rightarrow> bool \<Rightarrow> bool \<Rightarrow> GumThumbWriter" where
  "gum_thumb_writer_put_branch_imm self target link thumb =
     put_branch_imm_distance self (branch_imm_distance target (pc self)) link thumb"

definition gum_thumb_writer_put_b_imm :: "GumThumbWriter \<Rightarrow> GumAddress \<Rightarrow> GumThumbWriter" where
  "gum_thumb_writer_put_b_imm self target = gum_thumb_writer_put_branch_imm self target False True"

definition gum_thumb_writer_put_bl_imm :: "GumThumbWriter \<Rightarrow> GumAddress \<Rightarrow> GumThumbWriter" where
  "gum_thumb_writer_put_bl_imm self target = gum_thumb_writer_put_branch_imm self target True True"

definition gum_thumb_writer_put_blx_imm :: "GumThumbWriter \<Rightarrow> GumAddress \<Rightarrow> GumThumbWriter" where
  "gum_thumb_writer_put_blx_imm self target = gum_thumb_writer_put_branch_imm self target True False"

definition gum_thumb_writer_put_cmp_reg_imm :: "GumThumbWriter \<Rightarrow> arm_reg \<Rightarrow> guint8 \<Rightarrow> GumThumbWriter" where
  "gum_thumb_writer_put_cmp_reg_imm self reg imm_value =
     (let ri = gum_arm_reg_describe reg in
      gum_thumb_writer_put_instruction self
        (ucast (0x2800 OR push_bit 8 (index ri) OR ucast imm_value)))"

definition gum_thumb_writer_put_b_label :: "GumThumbWriter \<Rightarrow> nat \<Rightarrow> bool \<times> GumThumbWriter" where
  "gum_thumb_writer_put_b_label self label_id =
     (let (ok, self1) = gum_thumb_writer_add_label_reference_here self label_id in
      if \<not> ok then (False, self1)
      else (True, gum_thumb_writer_put_instruction self1 0xe000))"

text \<open>
  Modelled from the spec: \<^verbatim>\<open>arm_cc\<close> comes from a header that is not part of the
  sources at hand. \<open>cc\<close> is the number of the enumerator; the spec gives the condition
  codes as 1..14 with EQ as 1, and NE is the next one.
\<close>

definition ARM_CC_EQ :: guint where "ARM_CC_EQ = 1"
definition ARM_CC_NE :: guint where "ARM_CC_NE = 2"

definition gum_thumb_writer_put_b_cond_label ::
  "GumThumbWriter \<Rightarrow> guint \<Rightarrow> nat \<Rightarrow> bool \<times> GumThumbWriter" where
  "gum_thumb_writer_put_b_cond_label self cc label_id =
     (let (ok, self1) = gum_thumb_writer_add_label_reference_here self label_id in
      if \<not> ok then (False, self1)
      else (True, gum_thumb_writer_put_instruction self1
                    (ucast (0xd000 OR push_bit 8 (cc - 1)))))"

definition gum_thumb_writer_put_beq_label :: "GumThumbWriter \<Rightarrow> nat \<Rightarrow> bool \<times> GumThumbWriter" where
  "gum_thumb_writer_put_beq_label self label_id =
     gum_thumb_writer_put_b_cond_label self ARM_CC_EQ label_id"

definition gum_thumb_writer_put_bne_label :: "GumThumbWriter \<Rightarrow> nat \<Rightarrow> bool \<times> GumThumbWriter" where
  "gum_thumb_writer_put_bne_label self label_id =
     gum_thumb_writer_put_b_cond_label self ARM_CC_NE label_id"

definition gum_thumb_writer_put_cbz_reg_label ::
  "GumThumbWriter \<Rightarrow> arm_reg \<Rightarrow> nat \<Rightarrow> bool \<times> GumThumbWriter" where
  "gum_thumb_writer_put_cbz_reg_label self reg label_id =
     (let ri = gum_arm_reg_describe reg;
          (ok, self1) = gum_thumb_writer_add_label_reference_here self label_id in
      if \<not> ok then (False, self1)
      else (True, gum_thumb_writer_put_instruction self1 (ucast (0xb100 OR index ri))))"

definition gum_thumb_writer_put_cbnz_reg_label ::
  "GumThumbWriter \<Rightarrow> arm_reg \<Rightarrow> nat \<Rightarrow> bool \<times> GumThumbWriter" where
  "gum_thumb_writer_put_cbnz_reg_label self reg label_id =
     (let ri = gum_arm_reg_describe reg;
          (ok, self1) = gum_thumb_writer_add_label_reference_here self label_id in
      if \<not> ok then (False, self1)
      else (True, gum_thumb_writer_put_instruction self1 (ucast (0xb900 OR index ri))))"

subsection \<open>Push and pop\<close>

text \<open>
  The three loops of \<^verbatim>\<open>gum_thumb_writer_put_push_or_pop_regs\<close>. The first one fills
  \<^verbatim>\<open>items\<close> with the description of each register, which is
  \<open>map gum_arm_reg_describe regs\<close>, and computes \<^verbatim>\<open>need_wide_instruction\<close>.
\<close>

fun need_wide_instruction_loop :: "GumArmMetaReg \<Rightarrow> GumArmRegInfo list \<Rightarrow> bool \<Rightarrow> bool" where
  "need_wide_instruction_loop special_reg [] need_wide_instruction = need_wide_instruction"
| "need_wide_instruction_loop special_reg (ri # items) need_wide_instruction =
     (let is_low_reg = (meta ri \<ge> GUM_ARM_MREG_R0 \<and> meta ri \<le> GUM_ARM_MREG_R7) in
      need_wide_instruction_loop special_reg items
        (if \<not> is_low_reg \<and> meta ri \<noteq> special_reg then True else need_wide_instruction))"

fun wide_mask_loop :: "GumArmRegInfo list \<Rightarrow> guint16 \<Rightarrow> guint16" where
  "wide_mask_loop [] mask_acc = mask_acc"
| "wide_mask_loop (ri # items) mask_acc =
     wide_mask_loop items (mask_acc OR ucast (push_bit (unat (index ri)) (1 :: 32 word)))"

fun narrow_insn_loop :: "GumArmMetaReg \<Rightarrow> GumArmRegInfo list \<Rightarrow> guint16 \<Rightarrow> guint16" where
  "narrow_insn_loop special_reg [] insn = insn"
| "narrow_insn_loop special_reg (ri # items) insn =
     narrow_insn_loop special_reg items
       (if meta ri = special_reg then insn OR 0x0100
        else insn OR ucast (push_bit (unat (index ri)) (1 :: 32 word)))"

text \<open>\<open>regs\<close> is the array of \<open>n_regs = length regs\<close> registers.\<close>

definition gum_thumb_writer_put_push_or_pop_regs ::
  "GumThumbWriter \<Rightarrow> guint16 \<Rightarrow> guint16 \<Rightarrow> GumArmMetaReg \<Rightarrow> arm_reg list \<Rightarrow> bool \<times> GumThumbWriter" where
  "gum_thumb_writer_put_push_or_pop_regs self narrow_opcode wide_opcode special_reg regs =
     (if length regs = 0 then (False, self)
      else
        let items = map gum_arm_reg_describe regs;
            need_wide_instruction = need_wide_instruction_loop special_reg items False
        in if need_wide_instruction then
             (let self1 = gum_thumb_writer_put_instruction self wide_opcode in
              (True, gum_thumb_writer_put_instruction self1 (wide_mask_loop items 0)))
           else
             (True, gum_thumb_writer_put_instruction self
                      (narrow_insn_loop special_reg items narrow_opcode)))"

definition gum_thumb_writer_put_push_regs_array :: "GumThumbWriter \<Rightarrow> arm_reg list \<Rightarrow> bool \<times> GumThumbWriter" where
  "gum_thumb_writer_put_push_regs_array self regs =
     gum_thumb_writer_put_push_or_pop_regs self 0xb400 0xe92d GUM_ARM_MREG_LR regs"

definition gum_thumb_writer_put_pop_regs_array :: "GumThumbWriter \<Rightarrow> arm_reg list \<Rightarrow> bool \<times> GumThumbWriter" where
  "gum_thumb_writer_put_pop_regs_array self regs =
     gum_thumb_writer_put_push_or_pop_regs self 0xbc00 0xe8bd GUM_ARM_MREG_PC regs"

text \<open>
  The variadic forms copy \<^verbatim>\<open>first_reg\<close> and the \<open>n_regs - 1\<close> further arguments into an
  array; \<open>n_regs = 0\<close> is excluded by their assertion.
\<close>

definition gum_thumb_writer_put_push_regs ::
  "GumThumbWriter \<Rightarrow> arm_reg \<Rightarrow> arm_reg list \<Rightarrow> bool \<times> GumThumbWriter" where
  "gum_thumb_writer_put_push_regs self first_reg more_regs =
     gum_thumb_writer_put_push_or_pop_regs self 0xb400 0xe92d GUM_ARM_MREG_LR (first_reg # more_regs)"

definition gum_thumb_writer_put_pop_regs ::
  "GumThumbWriter \<Rightarrow> arm_reg \<Rightarrow> arm_reg list \<Rightarrow> bool \<times> GumThumbWriter" where
  "gum_thumb_writer_put_pop_regs self first_reg more_regs =
     gum_thumb_writer_put_push_or_pop_regs self 0xbc00 0xe8bd GUM_ARM_MREG_PC (first_reg # more_regs)"

subsection \<open>Loads, stores and moves\<close>

definition gum_thumb_writer_put_ldr_reg_u32 ::
  "GumThumbWriter \<Rightarrow> arm_reg \<Rightarrow> guint32 \<Rightarrow> bool \<times> GumThumbWriter" where
  "gum_thumb_writer_put_ldr_reg_u32 self reg val =
     (let ri = gum_arm_reg_describe reg;
          (ok, self1) = gum_thumb_writer_add_literal_reference_here self val in
      if \<not> ok then (False, self1)
      else if meta ri \<le> GUM_ARM_MREG_R7 then
        (True, gum_thumb_writer_put_instruction self1 (ucast (0x4800 OR push_bit 8 (index ri))))
      else
        (let add = True;
             self2 = gum_thumb_writer_put_instruction self1
                       (ucast (0xf85f OR push_bit 7 (of_bool add) :: 32 word))
         in (True, gum_thumb_writer_put_instruction self2 (ucast (push_bit 12 (index ri))))))"

definition gum_thumb_writer_put_ldr_reg_address ::
  "GumThumbWriter \<Rightarrow> arm_reg \<Rightarrow> GumAddress \<Rightarrow> bool \<times> GumThumbWriter" where
  "gum_thumb_writer_put_ldr_reg_address self reg address =
     gum_thumb_writer_put_ldr_reg_u32 self reg (ucast address)"

definition gum_thumb_writer_put_transfer_reg_reg_offset ::
  "GumThumbWriter \<Rightarrow> GumThumbMemoryOperation \<Rightarrow> arm_reg \<Rightarrow> arm_reg \<Rightarrow> gsize \<Rightarrow> bool \<times> GumThumbWriter" where
  "gum_thumb_writer_put_transfer_reg_reg_offset self operation left_reg right_reg right_offset =
     (let lr = gum_arm_reg_describe left_reg;
          rr = gum_arm_reg_describe right_reg in
      if meta lr \<le> GUM_ARM_MREG_R7 \<and>
         (meta rr \<le> GUM_ARM_MREG_R7 \<or> meta rr = GUM_ARM_MREG_SP) \<and>
         ((meta rr = GUM_ARM_MREG_SP \<and> right_offset \<le> 1020) \<or>
          (meta rr \<noteq> GUM_ARM_MREG_SP \<and> right_offset \<le> 124)) \<and>
         right_offset mod 4 = 0
      then
        (let insn0 = (if meta rr = GUM_ARM_MREG_SP
                      then (ucast (0x9000 OR ucast (push_bit 8 (index lr)) OR right_offset div 4) :: guint16)
                      else ucast (0x6000 OR push_bit 6 (right_offset div 4) OR
                                  ucast (push_bit 3 (index rr)) OR ucast (index lr)));
             insn = (if operation = GUM_THUMB_MEMORY_LOAD then insn0 OR 0x0800 else insn0)
         in (True, gum_thumb_writer_put_instruction self insn))
      else if right_offset > 4095 then (False, self)
      else
        (let self1 = gum_thumb_writer_put_instruction self
                       (ucast (0xf8c0 OR
                               (if operation = GUM_THUMB_MEMORY_LOAD then 0x0010 else 0x0000) OR
                               index rr))
         in (True, gum_thumb_writer_put_instruction self1
                     (ucast (ucast (push_bit 12 (index lr)) OR right_offset)))))"

definition gum_thumb_writer_put_ldr_reg_reg_offset ::
  "GumThumbWriter \<Rightarrow> arm_reg \<Rightarrow> arm_reg \<Rightarrow> gsize \<Rightarrow> bool \<times> GumThumbWriter" where
  "gum_thumb_writer_put_ldr_reg_reg_offset self dst_reg src_reg src_offset =
     gum_thumb_writer_put_transfer_reg_reg_offset self GUM_THUMB_MEMORY_LOAD dst_reg src_reg src_offset"

definition gum_thumb_writer_put_ldr_reg_reg :: "GumThumbWriter \<Rightarrow> arm_reg \<Rightarrow> arm_reg \<Rightarrow> GumThumbWriter" where
  "gum_thumb_writer_put_ldr_reg_reg self dst_reg src_reg =
     snd (gum_thumb_writer_put_ldr_reg_reg_offset self dst_reg src_reg 0)"

definition gum_thumb_writer_put_str_reg_reg_offset ::
  "GumThumbWriter \<Rightarrow> arm_reg \<Rightarrow> arm_reg \<Rightarrow> gsize \<Rightarrow> bool \<times> GumThumbWriter" where
  "gum_thumb_writer_put_str_reg_reg_offset self src_reg dst_reg dst_offset =
     gum_thumb_writer_put_transfer_reg_reg_offset self GUM_THUMB_MEMORY_STORE src_reg dst_reg dst_offset"

definition gum_thumb_writer_put_str_reg_reg :: "GumThumbWriter \<Rightarrow> arm_reg \<Rightarrow> arm_reg \<Rightarrow> GumThumbWriter" where
  "gum_thumb_writer_put_str_reg_reg self src_reg dst_reg =
     snd (gum_thumb_writer_put_str_reg_reg_offset self src_reg dst_reg 0)"

definition gum_thumb_writer_put_mov_reg_reg :: "GumThumbWriter \<Rightarrow> arm_reg \<Rightarrow> arm_reg \<Rightarrow> GumThumbWriter" where
  "gum_thumb_writer_put_mov_reg_reg self dst_reg src_reg =
     (let dst = gum_arm_reg_describe dst_reg;
          src = gum_arm_reg_describe src_reg;
          insn =
            (if meta dst \<le> GUM_ARM_MREG_R7 \<and> meta src \<le> GUM_ARM_MREG_R7
             then (ucast (0x1c00 OR push_bit 3 (index src) OR index dst) :: guint16)
             else
               (let (dst_is_high, dst_index) =
                      (if meta dst > GUM_ARM_MREG_R7
                       then (1 :: guint16, index dst - of_nat GUM_ARM_MREG_R8)
                       else (0, index dst))
                in ucast (0x4600 OR push_bit 7 (ucast dst_is_high) OR
                          push_bit 3 (index src) OR dst_index)))
      in gum_thumb_writer_put_instruction self insn)"

definition gum_thumb_writer_put_mov_reg_u8 :: "GumThumbWriter \<Rightarrow> arm_reg \<Rightarrow> guint8 \<Rightarrow> GumThumbWriter" where
  "gum_thumb_writer_put_mov_reg_u8 self dst_reg imm_value =
     (let dst = gum_arm_reg_describe dst_reg in
      gum_thumb_writer_put_instruction self
        (ucast (0x2000 OR push_bit 8 (index dst) OR ucast imm_value)))"

subsection \<open>Addition and subtraction\<close>

text \<open>
  On \<^verbatim>\<open>gssize\<close>: the macro \<^verbatim>\<open>ABS\<close>, C's division (truncating) and the test
  \<^verbatim>\<open>x % 4 != 0\<close>.
\<close>

definition gssize_abs :: "gssize \<Rightarrow> gssize" where
  "gssize_abs a = (if sint a < 0 then - a else a)"

definition gssize_div :: "gssize \<Rightarrow> int \<Rightarrow> gssize" where
  "gssize_div a b = word_of_int (sint a sdiv b)"

definition gssize_rem :: "gssize \<Rightarrow> int \<Rightarrow> int" where
  "gssize_rem a b = sint a smod b"

definition gum_thumb_writer_put_add_reg_imm ::
  "GumThumbWriter \<Rightarrow> arm_reg \<Rightarrow> gssize \<Rightarrow> bool \<times> GumThumbWriter" where
  "gum_thumb_writer_put_add_reg_imm self dst_reg imm_value =
     (let dst = gum_arm_reg_describe dst_reg in
      if meta dst = GUM_ARM_MREG_SP then
        (if gssize_rem imm_value 4 \<noteq> 0 then (False, self)
         else
           (let sign_mask = (if sint imm_value < 0 then 0x0080 else 0x0000 :: guint16);
                insn = (ucast (0xb000 OR ucast sign_mask OR
                               gssize_abs (gssize_div imm_value 4)) :: guint16)
            in (True, gum_thumb_writer_put_instruction self insn)))
      else
        (let sign_mask = (if sint imm_value < 0 then 0x0800 else 0x0000 :: guint16);
             insn = (ucast (0x3000 OR ucast sign_mask OR ucast (push_bit 8 (index dst)) OR
                            gssize_abs imm_value) :: guint16)
         in (True, gum_thumb_writer_put_instruction self insn)))"

definition gum_thumb_writer_put_add_reg_reg_reg ::
  "GumThumbWriter \<Rightarrow> arm_reg \<Rightarrow> arm_reg \<Rightarrow> arm_reg \<Rightarrow> GumThumbWriter" where
  "gum_thumb_writer_put_add_reg_reg_reg self dst_reg left_reg right_reg =
     (let dst = gum_arm_reg_describe dst_reg;
          left = gum_arm_reg_describe left_reg;
          right = gum_arm_reg_describe right_reg;
          insn =
            (if meta left = meta dst then
               (let insn1 = (0x4400 :: guint16);
                    insn2 = (if meta dst \<le> GUM_ARM_MREG_R7
                             then insn1 OR ucast (index dst)
                             else insn1 OR ucast (0x0080 OR (index dst - of_nat GUM_ARM_MREG_R8)))
                in insn2 OR ucast (push_bit 3 (index right)))
             else ucast (0x1800 OR push_bit 6 (index right) OR push_bit 3 (index left) OR index dst))
      in gum_thumb_writer_put_instruction self insn)"

definition gum_thumb_writer_put_add_reg_reg :: "GumThumbWriter \<Rightarrow> arm_reg \<Rightarrow> arm_reg \<Rightarrow> GumThumbWriter" where
  "gum_thumb_writer_put_add_reg_reg self dst_reg src_reg =
     gum_thumb_writer_put_add_reg_reg_reg self dst_reg dst_reg src_reg"

definition gum_thumb_writer_put_add_reg_reg_imm ::
  "GumThumbWriter \<Rightarrow> arm_reg \<Rightarrow> arm_reg \<Rightarrow> gssize \<Rightarrow> bool \<times> GumThumbWriter" where
  "gum_thumb_writer_put_add_reg_reg_imm self dst_reg left_reg right_value =
     (let dst = gum_arm_reg_describe dst_reg;
          left = gum_arm_reg_describe left_reg in
      if meta left = meta dst then gum_thumb_writer_put_add_reg_imm self dst_reg right_value
      else if meta left = GUM_ARM_MREG_SP \<or> meta left = GUM_ARM_MREG_PC then
        (if sint right_value < 0 \<or> gssize_rem right_value 4 \<noteq> 0 then (False, self)
         else
           (let base_mask = (if meta left = GUM_ARM_MREG_SP then 0x0800 else 0x0000 :: guint16);
                insn = (ucast (0xa000 OR ucast base_mask OR ucast (push_bit 8 (index dst)) OR
                               gssize_div right_value 4) :: guint16)
            in (True, gum_thumb_writer_put_instruction self insn)))
      else
        (if sint (gssize_abs right_value) > 7 then (False, self)
         else
           (let sign_mask = (if sint right_value < 0 then 0x0200 else 0x0000 :: guint16);
                insn = (ucast (0x1c00 OR ucast sign_mask OR push_bit 6 (gssize_abs right_value) OR
                               ucast (push_bit 3 (index left)) OR ucast (index dst)) :: guint16)
            in (True, gum_thumb_writer_put_instruction self insn))))"

definition gum_thumb_writer_put_sub_reg_imm ::
  "GumThumbWriter \<Rightarrow> arm_reg \<Rightarrow> gssize \<Rightarrow> bool \<times> GumThumbWriter" where
  "gum_thumb_writer_put_sub_reg_imm self dst_reg imm_value =
     gum_thumb_writer_put_add_reg_imm self dst_reg (- imm_value)"

definition gum_thumb_writer_put_sub_reg_reg_reg ::
  "GumThumbWriter \<Rightarrow> arm_reg \<Rightarrow> arm_reg \<Rightarrow> arm_reg \<Rightarrow> GumThumbWriter" where
  "gum_thumb_writer_put_sub_reg_reg_reg self dst_reg left_reg right_reg =
     (let dst = gum_arm_reg_describe dst_reg;
          left = gum_arm_reg_describe left_reg;
          right = gum_arm_reg_describe right_reg;
          insn = (ucast (0x1a00 OR push_bit 6 (index right) OR push_bit 3 (index left) OR
                         index dst) :: guint16)
      in gum_thumb_writer_put_instruction self insn)"

definition gum_thumb_writer_put_sub_reg_reg :: "GumThumbWriter \<Rightarrow> arm_reg \<Rightarrow> arm_reg \<Rightarrow> GumThumbWriter" where
  "gum_thumb_writer_put_sub_reg_reg self dst_reg src_reg =
     gum_thumb_writer_put_sub_reg_reg_reg self dst_reg dst_reg src_reg"

definition gum_thumb_writer_put_sub_reg_reg_imm ::
  "GumThumbWriter \<Rightarrow> arm_reg \<Rightarrow> arm_reg \<Rightarrow> gssize \<Rightarrow> bool \<times> GumThumbWriter" where
  "gum_thumb_writer_put_sub_reg_reg_imm self dst_reg left_reg right_value =
     gum_thumb_writer_put_add_reg_reg_imm self dst_reg left_reg (- right_value)"

subsection \<open>Nop and breakpoints\<close>

definition gum_thumb_writer_put_nop :: "GumThumbWriter \<Rightarrow> GumThumbWriter" where
  "gum_thumb_writer_put_nop self = gum_thumb_writer_put_instruction self 0x46c0"

definition gum_thumb_writer_put_bkpt_imm :: "GumThumbWriter \<Rightarrow> guint8 \<Rightarrow> GumThumbWriter" where
  "gum_thumb_writer_put_bkpt_imm self imm =
     gum_thumb_writer_put_instruction self (ucast (0xbe00 OR ucast imm :: 32 word))"

definition gum_thumb_writer_put_breakpoint :: "GumThumbWriter \<Rightarrow> GumThumbWriter" where
  "gum_thumb_writer_put_breakpoint self =
     (case target_os self of
        GUM_OS_LINUX \<Rightarrow> gum_thumb_writer_put_instruction self 0xde01
      | GUM_OS_ANDROID \<Rightarrow> gum_thumb_writer_put_instruction self 0xde01
      | GUM_OS_OTHER \<Rightarrow>
          gum_thumb_writer_put_bx_reg (gum_thumb_writer_put_bkpt_imm self 0) ARM_REG_LR)"

subsection \<open>Calls with arguments\<close>

text \<open>
  One iteration of the loop of \<^verbatim>\<open>gum_thumb_writer_put_argument_list_setup\<close>, and the
  loop itself, which runs \<^verbatim>\<open>arg_index\<close> from \<open>n_args - 1\<close> down to 0. The results of the
  fallible operations are dropped, as in the source.
\<close>

definition put_argument_setup :: "GumThumbWriter \<Rightarrow> GumArgument \<Rightarrow> nat \<Rightarrow> GumThumbWriter" where
  "put_argument_setup self arg arg_index =
     (let r = arm_reg_r0_plus arg_index in
      if arg_index < 4 then
        (case arg of
           GUM_ARG_ADDRESS address \<Rightarrow> snd (gum_thumb_writer_put_ldr_reg_address self r address)
         | GUM_ARG_REGISTER reg \<Rightarrow>
             if reg \<noteq> r then gum_thumb_writer_put_mov_reg_reg self r reg else self)
      else
        (case arg of
           GUM_ARG_ADDRESS address \<Rightarrow>
             snd (gum_thumb_writer_put_push_regs
                    (snd (gum_thumb_writer_put_ldr_reg_address self ARM_REG_R0 address))
                    ARM_REG_R0 [])
         | GUM_ARG_REGISTER reg \<Rightarrow> snd (gum_thumb_writer_put_push_regs self reg [])))"

fun argument_list_setup_loop :: "GumThumbWriter \<Rightarrow> GumArgument list \<Rightarrow> nat \<Rightarrow> GumThumbWriter" where
  "argument_list_setup_loop self args 0 = self"
| "argument_list_setup_loop self args (Suc arg_index) =
     argument_list_setup_loop (put_argument_setup self (args ! arg_index) arg_index) args arg_index"

text \<open>\<open>args\<close> is the array of \<open>n_args = length args\<close> arguments.\<close>

definition gum_thumb_writer_put_argument_list_setup :: "GumThumbWriter \<Rightarrow> GumArgument list \<Rightarrow> GumThumbWriter" where
  "gum_thumb_writer_put_argument_list_setup self args =
     argument_list_setup_loop self args (length args)"

definition gum_thumb_writer_put_argument_list_teardown :: "GumThumbWriter \<Rightarrow> nat \<Rightarrow> GumThumbWriter" where
  "gum_thumb_writer_put_argument_list_teardown self n_args = self"

definition gum_thumb_writer_put_call_address_with_arguments_array ::
  "GumThumbWriter \<Rightarrow> GumAddress \<Rightarrow> GumArgument list \<Rightarrow> GumThumbWriter" where
  "gum_thumb_writer_put_call_address_with_arguments_array self func args =
     (let self1 = gum_thumb_writer_put_argument_list_setup self args;
          self2 = snd (gum_thumb_writer_put_ldr_reg_address self1 ARM_REG_LR func);
          self3 = gum_thumb_writer_put_blx_reg self2 ARM_REG_LR
      in gum_thumb_writer_put_argument_list_teardown self3 (length args))"

definition gum_thumb_writer_put_call_reg_with_arguments_array ::
  "GumThumbWriter \<Rightarrow> arm_reg \<Rightarrow> GumArgument list \<Rightarrow> GumThumbWriter" where
  "gum_thumb_writer_put_call_reg_with_arguments_array self reg args =
     (let self1 = gum_thumb_writer_put_argument_list_setup self args;
          self2 = gum_thumb_writer_put_blx_reg self1 reg
      in gum_thumb_writer_put_argument_list_teardown self2 (length args))"

section \<open>Flush\<close>

text \<open>
  Modelled from the spec: the range macros of \<^verbatim>\<open>gumdefs.h\<close> are not part of the
  sources at hand. The spec reads them as "fits in signed 8 bits", "signed 11 bits"
  and "unsigned 7 bits" of the signed distance.
\<close>

definition GUM_IS_WITHIN_INT8_RANGE :: "gssize \<Rightarrow> bool" where
  "GUM_IS_WITHIN_INT8_RANGE i = (- 128 \<le> sint i \<and> sint i \<le> 127)"

definition GUM_IS_WITHIN_INT11_RANGE :: "gssize \<Rightarrow> bool" where
  "GUM_IS_WITHIN_INT11_RANGE i = (- 1024 \<le> sint i \<and> sint i \<le> 1023)"

definition GUM_IS_WITHIN_UINT7_RANGE :: "gssize \<Rightarrow> bool" where
  "GUM_IS_WITHIN_UINT7_RANGE i = (0 \<le> sint i \<and> sint i \<le> 127)"

definition gum_instruction_is_t1_load :: "guint16 \<Rightarrow> bool" where
  "gum_instruction_is_t1_load instruction = (instruction AND 0xf800 = 0x4800)"

subsection \<open>Label references\<close>

text \<open>
  \<^verbatim>\<open>distance = ((gint32) target_address - (gint32) r->pc) / 2\<close>: the casts keep the low
  32 bits, the difference is taken modulo \<open>2 ^ 32\<close> and read as signed, the division
  truncates towards zero, and the result is widened to \<^verbatim>\<open>gssize\<close>.
\<close>

definition label_ref_distance :: "GumAddress \<Rightarrow> GumAddress \<Rightarrow> gssize" where
  "label_ref_distance target_address ref_pc =
     word_of_int (sint ((ucast target_address :: 32 word) - ucast ref_pc) sdiv 2)"

text \<open>
  The choice of the displacement field by the opcode bits of the halfword read at
  \<^verbatim>\<open>r->insn\<close>; \<open>None\<close> is \<^verbatim>\<open>goto error\<close>.
\<close>

definition patch_label_insn :: "guint16 \<Rightarrow> gssize \<Rightarrow> guint16 option" where
  "patch_label_insn insn distance =
     (if insn AND 0xf000 = 0xd000 then
        (if \<not> GUM_IS_WITHIN_INT8_RANGE distance then None
         else Some (insn OR ucast (distance AND ucast GUM_INT8_MASK)))
      else if insn AND 0xf800 = 0xe000 then
        (if \<not> GUM_IS_WITHIN_INT11_RANGE distance then None
         else Some (insn OR ucast (distance AND ucast GUM_INT11_MASK)))
      else
        (if \<not> GUM_IS_WITHIN_UINT7_RANGE distance then None
         else
           (let i = (ucast (signed_drop_bit 5 distance AND 1) :: guint16);
                imm5 = (ucast (distance AND ucast GUM_INT5_MASK) :: guint16)
            in Some (insn OR ucast (push_bit 9 (ucast i :: 32 word) OR push_bit 3 (ucast imm5))))))"

text \<open>
  The loop over \<^verbatim>\<open>label_refs\<close>. The result is \<open>False\<close> with the memory as patched so
  far when a reference jumps to \<^verbatim>\<open>error\<close>.
\<close>

fun label_refs_loop :: "GumThumbWriter \<Rightarrow> GumThumbLabelRef list \<Rightarrow> memory \<Rightarrow> bool \<times> memory" where
  "label_refs_loop self [] m = (True, m)"
| "label_refs_loop self (r # rs) m =
     (let target_address = gum_thumb_writer_lookup_address_for_label_id self (lr_id r) in
      if target_address = 0 then (False, m)
      else
        (case patch_label_insn (read_u16 m (lr_insn r))
                (label_ref_distance target_address (lr_pc r)) of
           None \<Rightarrow> (False, m)
         | Some insn \<Rightarrow> label_refs_loop self rs (write_u16 m (lr_insn r) insn)))"

subsection \<open>Literal pool\<close>

fun need_aligned_slots_loop :: "memory \<Rightarrow> GumThumbLiteralRef list \<Rightarrow> bool \<Rightarrow> bool" where
  "need_aligned_slots_loop m [] need_aligned_slots = need_aligned_slots"
| "need_aligned_slots_loop m (r # rs) need_aligned_slots =
     need_aligned_slots_loop m rs
       (if gum_instruction_is_t1_load (read_u16 m (lit_insn r)) then True
        else need_aligned_slots)"

text \<open>
  The pool is the run of 32-bit slots from \<^verbatim>\<open>first_slot\<close> up to \<^verbatim>\<open>last_slot\<close>.
  \<^verbatim>\<open>last_slot\<close> only moves by \<^verbatim>\<open>last_slot++\<close>, so it is kept as the number of
  slots \<open>n_slots\<close>: \<^verbatim>\<open>last_slot\<close> is the address \<open>first_slot + 4 * n_slots\<close>.
  \<open>find_slot m slot k val\<close> is the scan
  \<^verbatim>\<open>for (; slot != last_slot; slot++) if (*slot == r->val) break;\<close>
  with \<open>k\<close> slots left before \<^verbatim>\<open>last_slot\<close>; it returns how many slots the scan
  has passed when it stops, which is \<open>k\<close> when it stops at \<^verbatim>\<open>last_slot\<close>.
\<close>

fun find_slot :: "memory \<Rightarrow> nat \<Rightarrow> nat \<Rightarrow> guint32 \<Rightarrow> nat" where
  "find_slot m slot 0 val = 0"
| "find_slot m slot (Suc k) val =
     (if read_u32 m slot = val then 0 else Suc (find_slot m (slot + 4) k val))"

definition literal_ref_step ::
  "nat \<Rightarrow> GumThumbLiteralRef \<Rightarrow> nat \<times> GumThumbWriter \<Rightarrow> nat \<times> GumThumbWriter" where
  "literal_ref_step first_slot r st =
     (let (n_slots, self) = st;
          insn = read_u16 (heap self) (lit_insn r);
          slot_index = find_slot (heap self) first_slot n_slots (lit_val r);
          (n_slots1, self1) =
            (if slot_index = n_slots
             then (n_slots + 1,
                   self\<lparr> heap := write_u32 (heap self) (first_slot + 4 * slot_index) (lit_val r),
                         code := code self + 4, pc := pc self + 4 \<rparr>)
             else (n_slots, self));
          slot_pc = pc self1 - of_nat (4 * n_slots1) + of_nat (4 * slot_index);
          distance_in_bytes = slot_pc - (lit_pc r AND NOT 3)
      in if gum_instruction_is_t1_load insn then
           (n_slots1,
            self1\<lparr> heap := write_u16 (heap self1) (lit_insn r)
                              (ucast (ucast insn OR distance_in_bytes div 4)) \<rparr>)
         else
           (n_slots1,
            self1\<lparr> heap := write_u16 (heap self1) (lit_insn r + 2)
                              (ucast (ucast (read_u16 (heap self1) (lit_insn r + 2)) OR
                                      distance_in_bytes)) \<rparr>))"

fun literal_refs_loop ::
  "nat \<Rightarrow> GumThumbLiteralRef list \<Rightarrow> nat \<times> GumThumbWriter \<Rightarrow> nat \<times> GumThumbWriter" where
  "literal_refs_loop first_slot [] st = st"
| "literal_refs_loop first_slot (r # rs) st =
     literal_refs_loop first_slot rs (literal_ref_step first_slot r st)"

text \<open>
  The second block of \<^verbatim>\<open>gum_thumb_writer_flush\<close>, entered when
  \<^verbatim>\<open>literal_refs_len > 0\<close>.
\<close>

definition flush_literal_refs :: "GumThumbWriter \<Rightarrow> GumThumbWriter" where
  "flush_literal_refs self =
     (let need_aligned_slots = need_aligned_slots_loop (heap self) (literal_refs self) False;
          self1 = (if need_aligned_slots \<and> pc self AND 3 \<noteq> 0
                   then gum_thumb_writer_put_nop self else self);
          first_slot = code self1;
          (n_slots, self2) = literal_refs_loop first_slot (literal_refs self1) (0, self1)
      in self2\<lparr> literal_refs := [] \<rparr>)"

definition gum_thumb_writer_flush :: "GumThumbWriter \<Rightarrow> bool \<times> GumThumbWriter" where
  "gum_thumb_writer_flush self =
     (let (ok, m) = (if length (label_refs self) > 0
                     then label_refs_loop self (label_refs self) (heap self)
                     else (True, heap self))
      in if \<not> ok then (False, self\<lparr> heap := m, label_refs := [], literal_refs := [] \<rparr>)
         else
           (let self1 = (if length (label_refs self) > 0
                         then self\<lparr> heap := m, label_refs := [] \<rparr> else self)
            in if length (literal_refs self1) > 0 then (True, flush_literal_refs self1)
               else (True, self1)))"

section \<open>Traces of writer operations\<close>

text \<open>
  The operations a caller can apply to a writer after \<^verbatim>\<open>gum_thumb_writer_reset\<close>, and
  their effect on the writer. The variadic forms of the calls and of push and pop
  build the array that the array forms take, so the array forms stand for both.
  A trace drops the boolean results.
\<close>

datatype writer_op =
    Op_set_target_os GumOS
  | Op_skip guint
  | Op_flush
  | Op_put_label nat
  | Op_put_call_address_with_arguments GumAddress "GumArgument list"
  | Op_put_call_reg_with_arguments arm_reg "GumArgument list"
  | Op_put_b_imm GumAddress
  | Op_put_bx_reg arm_reg
  | Op_put_blx_reg arm_reg
  | Op_put_bl_imm GumAddress
  | Op_put_blx_imm GumAddress
  | Op_put_cmp_reg_imm arm_reg guint8
  | Op_put_b_label nat
  | Op_put_beq_label nat
  | Op_put_bne_label nat
  | Op_put_b_cond_label guint nat
  | Op_put_cbz_reg_label arm_reg nat
  | Op_put_cbnz_reg_label arm_reg nat
  | Op_put_push_regs "arm_reg list"
  | Op_put_pop_regs "arm_reg list"
  | Op_put_ldr_reg_address arm_reg GumAddress
  | Op_put_ldr_reg_u32 arm_reg guint32
  | Op_put_ldr_reg_reg arm_reg arm_reg
  | Op_put_ldr_reg_reg_offset arm_reg arm_reg gsize
  | Op_put_str_reg_reg arm_reg arm_reg
  | Op_put_str_reg_reg_offset arm_reg arm_reg gsize
  | Op_put_mov_reg_reg arm_reg arm_reg
  | Op_put_mov_reg_u8 arm_reg guint8
  | Op_put_add_reg_imm arm_reg gssize
  | Op_put_add_reg_reg arm_reg arm_reg
  | Op_put_add_reg_reg_reg arm_reg arm_reg arm_reg
  | Op_put_add_reg_reg_imm arm_reg arm_reg gssize
  | Op_put_sub_reg_imm arm_reg gssize
  | Op_put_sub_reg_reg arm_reg arm_reg
  | Op_put_sub_reg_reg_reg arm_reg arm_reg arm_reg
  | Op_put_sub_reg_reg_imm arm_reg arm_reg gssize
  | Op_put_nop
  | Op_put_bkpt_imm guint8
  | Op_put_breakpoint
  | Op_put_instruction guint16
  | Op_put_bytes "guint8 list"

primrec apply_op :: "writer_op \<Rightarrow> GumThumbWriter \<Rightarrow> GumThumbWriter" where
  "apply_op (Op_set_target_os os) w = gum_thumb_writer_set_target_os w os"
| "apply_op (Op_skip n_bytes) w = gum_thumb_writer_skip w n_bytes"
| "apply_op Op_flush w = snd (gum_thumb_writer_flush w)"
| "apply_op (Op_put_label ident) w = snd (gum_thumb_writer_put_label w ident)"
| "apply_op (Op_put_call_address_with_arguments func args) w =
     gum_thumb_writer_put_call_address_with_arguments_array w func args"
| "apply_op (Op_put_call_reg_with_arguments reg args) w =
     gum_thumb_writer_put_call_reg_with_arguments_array w reg args"
| "apply_op (Op_put_b_imm target) w = gum_thumb_writer_put_b_imm w target"
| "apply_op (Op_put_bx_reg reg) w = gum_thumb_writer_put_bx_reg w reg"
| "apply_op (Op_put_blx_reg reg) w = gum_thumb_writer_put_blx_reg w reg"
| "apply_op (Op_put_bl_imm target) w = gum_thumb_writer_put_bl_imm w target"
| "apply_op (Op_put_blx_imm target) w = gum_thumb_writer_put_blx_imm w target"
| "apply_op (Op_put_cmp_reg_imm reg imm_value) w = gum_thumb_writer_put_cmp_reg_imm w reg imm_value"
| "apply_op (Op_put_b_label label_id) w = snd (gum_thumb_writer_put_b_label w label_id)"
| "apply_op (Op_put_beq_label label_id) w = snd (gum_thumb_writer_put_beq_label w label_id)"
| "apply_op (Op_put_bne_label label_id) w = snd (gum_thumb_writer_put_bne_label w label_id)"
| "apply_op (Op_put_b_cond_label cc label_id) w = snd (gum_thumb_writer_put_b_cond_label w cc label_id)"
| "apply_op (Op_put_cbz_reg_label reg label_id) w = snd (gum_thumb_writer_put_cbz_reg_label w reg label_id)"
| "apply_op (Op_put_cbnz_reg_label reg label_id) w = snd (gum_thumb_writer_put_cbnz_reg_label w reg label_id)"
| "apply_op (Op_put_push_regs regs) w = snd (gum_thumb_writer_put_push_regs_array w regs)"
| "apply_op (Op_put_pop_regs regs) w = snd (gum_thumb_writer_put_pop_regs_array w regs)"
| "apply_op (Op_put_ldr_reg_address reg address) w = snd (gum_thumb_writer_put_ldr_reg_address w reg address)"
| "apply_op (Op_put_ldr_reg_u32 reg val) w = snd (gum_thumb_writer_put_ldr_reg_u32 w reg val)"
| "apply_op (Op_put_ldr_reg_reg dst_reg src_reg) w = gum_thumb_writer_put_ldr_reg_reg w dst_reg src_reg"
| "apply_op (Op_put_ldr_reg_reg_offset dst_reg src_reg src_offset) w =
     snd (gum_thumb_writer_put_ldr_reg_reg_offset w dst_reg src_reg src_offset)"
| "apply_op (Op_put_str_reg_reg src_reg dst_reg) w = gum_thumb_writer_put_str_reg_reg w src_reg dst_reg"
| "apply_op (Op_put_str_reg_reg_offset src_reg dst_reg dst_offset) w =
     snd (gum_thumb_writer_put_str_reg_reg_offset w src_reg dst_reg dst_offset)"
| "apply_op (Op_put_mov_reg_reg dst_reg src_reg) w = gum_thumb_writer_put_mov_reg_reg w dst_reg src_reg"
| "apply_op (Op_put_mov_reg_u8 dst_reg imm_value) w = gum_thumb_writer_put_mov_reg_u8 w dst_reg imm_value"
| "apply_op (Op_put_add_reg_imm dst_reg imm_value) w = snd (gum_thumb_writer_put_add_reg_imm w dst_reg imm_value)"
| "apply_op (Op_put_add_reg_reg dst_reg src_reg) w = gum_thumb_writer_put_add_reg_reg w dst_reg src_reg"
| "apply_op (Op_put_add_reg_reg_reg dst_reg left_reg right_reg) w =
     gum_thumb_writer_put_add_reg_reg_reg w dst_reg left_reg right_reg"
| "apply_op (Op_put_add_reg_reg_imm dst_reg left_reg right_value) w =
     snd (gum_thumb_writer_put_add_reg_reg_imm w dst_reg left_reg right_value)"
| "apply_op (Op_put_sub_reg_imm dst_reg imm_value) w = snd (gum_thumb_writer_put_sub_reg_imm w dst_reg imm_value)"
| "apply_op (Op_put_sub_reg_reg dst_reg src_reg) w = gum_thumb_writer_put_sub_reg_reg w dst_reg src_reg"
| "apply_op (Op_put_sub_reg_reg_reg dst_reg left_reg right_reg) w =
     gum_thumb_writer_put_sub_reg_reg_reg w dst_reg left_reg right_reg"
| "apply_op (Op_put_sub_reg_reg_imm dst_reg left_reg right_value) w =
     snd (gum_thumb_writer_put_sub_reg_reg_imm w dst_reg left_reg right_value)"
| "apply_op Op_put_nop w = gum_thumb_writer_put_nop w"
| "apply_op (Op_put_bkpt_imm imm) w = gum_thumb_writer_put_bkpt_imm w imm"
| "apply_op Op_put_breakpoint w = gum_thumb_writer_put_breakpoint w"
| "apply_op (Op_put_instruction insn) w = gum_thumb_writer_put_instruction w insn"
| "apply_op (Op_put_bytes data) w = snd (gum_thumb_writer_put_bytes w data)"

fun apply_ops :: "writer_op list \<Rightarrow> GumThumbWriter \<Rightarrow> GumThumbWriter" where
  "apply_ops [] w = w"
| "apply_ops (op # ops) w = apply_ops ops (apply_op op w)"

text \<open>
  \<open>advances w w'\<close>: from \<open>w\<close> to \<open>w'\<close> the base is kept and the cursor and the program
  counter have moved forward by the same number of bytes.
\<close>

definition advances :: "GumThumbWriter \<Rightarrow> GumThumbWriter \<Rightarrow> bool" where
  "advances w w' =
     (base w' = base w \<and> code w \<le> code w' \<and> pc w' = pc w + of_nat (code w' - code w))"

section \<open>Notions of the specification\<close>

text \<open>The low registers R0 to R7.\<close>

definition is_low_reg :: "arm_reg \<Rightarrow> bool" where
  "is_low_reg reg =
     (reg \<in> {ARM_REG_R0, ARM_REG_R1, ARM_REG_R2, ARM_REG_R3,
              ARM_REG_R4, ARM_REG_R5, ARM_REG_R6, ARM_REG_R7})"

text \<open>
  A skip of an even number of bytes keeps the cursor on a halfword boundary; every
  other operation is taken as it is. \<open>even_step w w'\<close>: from \<open>w\<close> to \<open>w'\<close> the cursor has
  moved forward by an even number of bytes.
\<close>

definition skip_is_even :: "writer_op \<Rightarrow> bool" where
  "skip_is_even op = (case op of Op_skip n_bytes \<Rightarrow> even (unat n_bytes) | _ \<Rightarrow> True)"

definition even_step :: "GumThumbWriter \<Rightarrow> GumThumbWriter \<Rightarrow> bool" where
  "even_step w w' = (code w \<le> code w' \<and> even (code w' - code w))"

text \<open>
  The displacement of an immediate branch as the specification words it: bit 0 of
  the target is cleared for BLX only (\<open>thumb = False\<close>), and \<open>b\<close> and \<open>bl\<close> take the
  target as it is.
\<close>

definition spec_branch_imm_distance :: "GumAddress \<Rightarrow> GumAddress \<Rightarrow> bool \<Rightarrow> guint32" where
  "spec_branch_imm_distance target cur_pc thumb =
     word_of_int
       (sint ((ucast (if thumb then target else target AND NOT 1) :: 32 word) - ucast (cur_pc + 4))
        sdiv 2)"

text \<open>A writer over zeroed memory, to be reset to an address.\<close>

definition blank_writer :: GumThumbWriter where
  "blank_writer =
     \<lparr> target_os = GUM_OS_OTHER, base = 0, code = 0, pc = 0, id_to_address = [],
       label_refs = [], literal_refs = [], heap = (\<lambda>_. 0) \<rparr>"

text \<open>
  What emitting halfwords means, in words of the memory alone: the halfwords are stored
  little-endian from the cursor on, the cursor moves two bytes per halfword and the
  program counter with it, and nothing else changes.
\<close>

fun store_halfwords :: "memory \<Rightarrow> nat \<Rightarrow> guint16 list \<Rightarrow> memory" where
  "store_halfwords m a [] = m"
| "store_halfwords m a (h # hs) =
     store_halfwords (m(a := ucast h, a + 1 := ucast (drop_bit 8 h))) (a + 2) hs"

definition halfwords_emitted :: "GumThumbWriter \<Rightarrow> guint16 list \<Rightarrow> GumThumbWriter" where
  "halfwords_emitted self hs =
     self\<lparr> heap := store_halfwords (heap self) (code self) hs,
           code := code self + 2 * length hs,
           pc := pc self + of_nat (2 * length hs) \<rparr>"

text \<open>
  Memory transfers as the specification words them: when the narrow form is chosen,
  the narrow halfword (SP base \<open>0x9000 | (dst << 8) | (off / 4)\<close>, low base
  \<open>0x6000 | ((off / 4) << 6) | (base << 3) | dst\<close>, bit 11 set for a load), and the two
  halfwords of the wide form.
\<close>

definition spec_transfer_is_narrow :: "arm_reg \<Rightarrow> arm_reg \<Rightarrow> gsize \<Rightarrow> bool" where
  "spec_transfer_is_narrow dst base_reg off =
     (is_low_reg dst \<and> (is_low_reg base_reg \<or> base_reg = ARM_REG_SP) \<and> off mod 4 = 0 \<and>
      (if base_reg = ARM_REG_SP then off \<le> 1020 else off \<le> 124))"

definition spec_transfer_narrow ::
  "GumThumbMemoryOperation \<Rightarrow> arm_reg \<Rightarrow> arm_reg \<Rightarrow> gsize \<Rightarrow> guint16" where
  "spec_transfer_narrow operation dst base_reg off =
     (if base_reg = ARM_REG_SP
      then ucast (0x9000 OR ucast (push_bit 8 (of_nat (arm_reg_number dst) :: 32 word)) OR off div 4)
      else ucast (0x6000 OR push_bit 6 (off div 4) OR
                  ucast (push_bit 3 (of_nat (arm_reg_number base_reg) :: 32 word)) OR
                  ucast (of_nat (arm_reg_number dst) :: 32 word)))
     OR (if operation = GUM_THUMB_MEMORY_LOAD then 0x0800 else 0)"

definition spec_transfer_wide ::
  "GumThumbMemoryOperation \<Rightarrow> arm_reg \<Rightarrow> arm_reg \<Rightarrow> gsize \<Rightarrow> guint16 \<times> guint16" where
  "spec_transfer_wide operation dst base_reg off =
     (ucast (0xf8c0 OR (if operation = GUM_THUMB_MEMORY_LOAD then 0x10 else 0) OR
             (of_nat (arm_reg_number base_reg) :: 32 word)),
      ucast (ucast (push_bit 12 (of_nat (arm_reg_number dst) :: 32 word)) OR off))"

text \<open>
  Register sets as the specification words them. The wide mask has bit \<open>i\<close> set when
  the register with index \<open>i\<close> is in the set. The narrow halfword is the opcode with
  bit 8 set when the special register is in the set and bit \<open>i\<close> set when the low
  register with index \<open>i\<close> is.
\<close>

definition spec_regs_wide_mask :: "arm_reg list \<Rightarrow> guint16" where
  "spec_regs_wide_mask regs =
     horner_sum of_bool 2 (map (\<lambda>i. \<exists>r\<in>set regs. arm_reg_number r = i) [0..<16])"

definition spec_regs_narrow_insn :: "guint16 \<Rightarrow> arm_reg \<Rightarrow> arm_reg list \<Rightarrow> guint16" where
  "spec_regs_narrow_insn narrow_opcode special_reg regs =
     narrow_opcode OR
     horner_sum of_bool 2
       (map (\<lambda>i. if i = 8 then special_reg \<in> set regs
                 else \<exists>r\<in>set regs. is_low_reg r \<and> arm_reg_number r = i) [0..<16])"

text \<open>
  Two example states at address \<open>0x1000\<close>. The first has a label 2 at \<open>0x1000\<close>, a
  branch to label 2, a branch to the undefined label 1 and a literal load. The second
  has two literal loads of the same value and a \<open>bx lr\<close>.
\<close>

definition example_unresolved_writer :: GumThumbWriter where
  "example_unresolved_writer =
     snd (gum_thumb_writer_put_ldr_reg_u32
       (snd (gum_thumb_writer_put_b_label
         (snd (gum_thumb_writer_put_b_label
           (snd (gum_thumb_writer_put_label
             (gum_thumb_writer_reset GUM_OS_LINUX blank_writer 0x1000) 2)) 2)) 1))
       ARM_REG_R0 0xDEADBEEF)"

definition example_literal_writer :: GumThumbWriter where
  "example_literal_writer =
     gum_thumb_writer_put_bx_reg
       (snd (gum_thumb_writer_put_ldr_reg_u32
         (snd (gum_thumb_writer_put_ldr_reg_u32
           (gum_thumb_writer_reset GUM_OS_LINUX blank_writer 0x1000)
           ARM_REG_R0 0xDEADBEEF))
         ARM_REG_R1 0xDEADBEEF))
       ARM_REG_LR"

text \<open>
  The distinct values of a list in the order of their first occurrence, and the
  index of a value in such a list (the length of the list when it is absent).
\<close>

definition first_occurrences :: "'a list \<Rightarrow> 'a list" where
  "first_occurrences vs = rev (remdups (rev vs))"

definition slot_index_of :: "guint32 list \<Rightarrow> guint32 \<Rightarrow> nat" where
  "slot_index_of ds v = length (takeWhile (\<lambda>x. x \<noteq> v) ds)"

text \<open>
  The bytes of a literal load that flush reads or patches: the one halfword of a T1
  load, the two halfwords of any other instruction. \<open>literal_refs_separate m limit rs\<close>
  says that the loads of \<open>rs\<close> lie below \<open>limit\<close> and do not overlap one another.
\<close>

definition literal_insn_size :: "memory \<Rightarrow> GumThumbLiteralRef \<Rightarrow> nat" where
  "literal_insn_size m r =
     (if gum_instruction_is_t1_load (read_u16 m (lit_insn r)) then 2 else 4)"

definition literal_disjoint :: "memory \<Rightarrow> GumThumbLiteralRef \<Rightarrow> GumThumbLiteralRef \<Rightarrow> bool" where
  "literal_disjoint m r r' =
     (lit_insn r + literal_insn_size m r \<le> lit_insn r' \<or>
      lit_insn r' + literal_insn_size m r' \<le> lit_insn r)"

fun literal_refs_separate :: "memory \<Rightarrow> nat \<Rightarrow> GumThumbLiteralRef list \<Rightarrow> bool" where
  "literal_refs_separate m limit [] = True"
| "literal_refs_separate m limit (r # rs) =
     (lit_insn r + literal_insn_size m r \<le> limit \<and>
      (\<forall>r'\<in>set rs. literal_disjoint m r r') \<and>
      literal_refs_separate m limit rs)"

text \<open>
  \<open>literal_patched m0 m' pool_pc ds r\<close>: in \<open>m'\<close> the load of \<open>r\<close> is the load of \<open>m0\<close>
  with the distance from its aligned pc to the slot of its value or-ed in, the slots
  being \<open>ds\<close> from \<open>pool_pc\<close> on: divided by 4 into the T1 halfword, or as it is into
  the second halfword otherwise.
\<close>

definition literal_patched ::
  "memory \<Rightarrow> memory \<Rightarrow> GumAddress \<Rightarrow> guint32 list \<Rightarrow> GumThumbLiteralRef \<Rightarrow> bool" where
  "literal_patched m0 m' pool_pc ds r =
     (let distance_in_bytes =
            pool_pc + of_nat (4 * slot_index_of ds (lit_val r)) - (lit_pc r AND NOT 3)
      in if gum_instruction_is_t1_load (read_u16 m0 (lit_insn r))
         then read_u16 m' (lit_insn r) =
                ucast (ucast (read_u16 m0 (lit_insn r)) OR distance_in_bytes div 4)
         else read_u16 m' (lit_insn r) = read_u16 m0 (lit_insn r) \<and>
              read_u16 m' (lit_insn r + 2) =
                ucast (ucast (read_u16 m0 (lit_insn r + 2)) OR distance_in_bytes))"

text \<open>
  \<open>pool_holds m first_slot ds\<close>: the slots from \<open>first_slot\<close> on hold the values \<open>ds\<close>.
  \<open>pool_built\<close> collects what the pool loop establishes from a state \<open>s\<close> whose pool
  is \<open>ds\<close>, over the references \<open>rs\<close>, ending with the pool \<open>ds_f\<close>.
\<close>

definition pool_holds :: "memory \<Rightarrow> nat \<Rightarrow> guint32 list \<Rightarrow> bool" where
  "pool_holds m first_slot ds = (\<forall>j<length ds. read_u32 m (first_slot + 4 * j) = ds ! j)"

definition pool_built ::
  "nat \<Rightarrow> GumThumbWriter \<Rightarrow> guint32 list \<Rightarrow> GumThumbLiteralRef list \<Rightarrow> guint32 list \<Rightarrow>
   nat \<times> GumThumbWriter \<Rightarrow> bool" where
  "pool_built first_slot s ds rs ds_f res =
     (fst res = length ds_f \<and>
      code (snd res) = code s + 4 * (length ds_f - length ds) \<and>
      pc (snd res) = pc s + of_nat (4 * (length ds_f - length ds)) \<and>
      pool_holds (heap (snd res)) first_slot ds_f \<and>
      (\<forall>r\<in>set rs. literal_patched (heap s) (heap (snd res))
                       (pc s - of_nat (4 * length ds)) ds_f r) \<and>
      (\<forall>a. a < first_slot + 4 * length ds \<longrightarrow>
           (\<forall>r\<in>set rs. a < lit_insn r \<or> lit_insn r + literal_insn_size (heap s) r \<le> a) \<longrightarrow>
           heap (snd res) a = heap s a))"

text \<open>
  The writer when the literal block of a successful flush is entered (label references
  resolved), and the writer when \<^verbatim>\<open>first_slot\<close> is taken (alignment nop emitted if
  needed).
\<close>

definition literal_block_entry :: "GumThumbWriter \<Rightarrow> GumThumbWriter" where
  "literal_block_entry self =
     self\<lparr> heap := snd (label_refs_loop self (label_refs self) (heap self)), label_refs := [] \<rparr>"

definition literal_pool_entry :: "GumThumbWriter \<Rightarrow> GumThumbWriter" where
  "literal_pool_entry self =
     (let e = literal_block_entry self
      in if need_aligned_slots_loop (heap e) (literal_refs e) False \<and> pc e AND 3 \<noteq> 0
         then gum_thumb_writer_put_nop e else e)"

text \<open>
  An example state with three literal loads: two T1 loads of the same value around a
  T2 load of another value, then \<open>bx lr\<close>.
\<close>

definition example_pool_writer :: GumThumbWriter where
  "example_pool_writer =
     gum_thumb_writer_put_bx_reg
       (snd (gum_thumb_writer_put_ldr_reg_u32
         (snd (gum_thumb_writer_put_ldr_reg_u32
           (snd (gum_thumb_writer_put_ldr_reg_u32
             (gum_thumb_writer_reset GUM_OS_LINUX blank_writer 0x1000)
             ARM_REG_R0 0x11111111))
           ARM_REG_R8 0x22222222))
         ARM_REG_R1 0x11111111))
       ARM_REG_LR"

text \<open>
  \<open>refs_in_place w\<close>: the literal loads recorded in \<open>w\<close> lie below the cursor and do not
  overlap one another, and the instruction of every label reference lies below the
  cursor and outside every literal load.
\<close>

definition refs_in_place :: "GumThumbWriter \<Rightarrow> bool" where
  "refs_in_place w =
     (literal_refs_separate (heap w) (code w) (literal_refs w) \<and>
      (\<forall>l\<in>set (label_refs w).
          lr_insn l + 2 \<le> code w \<and>
          (\<forall>r\<in>set (literal_refs w).
              lr_insn l + 2 \<le> lit_insn r \<or>
              lit_insn r + literal_insn_size (heap w) r \<le> lr_insn l)))"

section \<open>Properties\<close>

subsection \<open>Helper lemmas: memory\<close>

lemma byte_cat16: "ucast (ucast v :: 8 word) OR push_bit 8 (ucast (ucast (drop_bit 8 v) :: 8 word)) = (v :: 16 word)"
  by (rule bit_word_eqI) (auto simp add: bit_simps)

lemma byte_cat32:
  "ucast (ucast v :: 8 word) OR push_bit 8 (ucast (ucast (drop_bit 8 v) :: 8 word)) OR
   push_bit 16 (ucast (ucast (drop_bit 16 v) :: 8 word)) OR
   push_bit 24 (ucast (ucast (drop_bit 24 v) :: 8 word)) = (v :: 32 word)"
  (is "?lhs = v")
proof (rule bit_word_eqI)
  fix n assume "n < LENGTH(32)"
  then consider "n < 8" | "8 \<le> n \<and> n < 16" | "16 \<le> n \<and> n < 24" | "24 \<le> n \<and> n < 32"
    by fastforce
  then show "bit ?lhs n = bit v n"
    by cases (auto simp add: bit_simps)
qed

lemma read_u16_write_u16_same: "read_u16 (write_u16 m a v) a = v"
  by (simp add: read_u16_def write_u16_def byte_cat16)

lemma read_u32_write_u32_same: "read_u32 (write_u32 m a v) a = v"
  by (simp add: read_u32_def write_u32_def byte_cat32)

lemma write_u16_frame: "b < a \<or> a + 2 \<le> b \<Longrightarrow> write_u16 m a v b = m b"
  by (auto simp add: write_u16_def)

lemma write_u32_frame: "b < a \<or> a + 4 \<le> b \<Longrightarrow> write_u32 m a v b = m b"
  by (auto simp add: write_u32_def)

lemma read_u16_cong: "m' a = m a \<Longrightarrow> m' (a + 1) = m (a + 1) \<Longrightarrow> read_u16 m' a = read_u16 m a"
  by (simp add: read_u16_def)

lemma read_u32_cong:
  "m' a = m a \<Longrightarrow> m' (a + 1) = m (a + 1) \<Longrightarrow> m' (a + 2) = m (a + 2) \<Longrightarrow> m' (a + 3) = m (a + 3) \<Longrightarrow>
   read_u32 m' a = read_u32 m a"
  by (simp add: read_u32_def)

lemma read_u32_write_u16_other:
  "b + 4 \<le> a \<or> a + 2 \<le> b \<Longrightarrow> read_u32 (write_u16 m a v) b = read_u32 m b"
  by (auto simp add: read_u32_def write_u16_def)

lemma read_u32_write_u32_other:
  "b + 4 \<le> a \<or> a + 4 \<le> b \<Longrightarrow> read_u32 (write_u32 m a v) b = read_u32 m b"
  by (auto simp add: read_u32_def write_u32_def)

lemma read_u16_write_u16_other:
  "b + 2 \<le> a \<or> a + 2 \<le> b \<Longrightarrow> read_u16 (write_u16 m a v) b = read_u16 m b"
  by (auto simp add: read_u16_def write_u16_def)

lemma read_u16_write_u32_other:
  "b + 2 \<le> a \<or> a + 4 \<le> b \<Longrightarrow> read_u16 (write_u32 m a v) b = read_u16 m b"
  by (auto simp add: read_u16_def write_u32_def)

text \<open>Emitted halfwords are read back at the old cursor.\<close>

lemma put_instruction_emitted:
  "gum_thumb_writer_put_instruction self insn = halfwords_emitted self [insn]"
  by (simp add: gum_thumb_writer_put_instruction_def halfwords_emitted_def write_u16_def)

lemma emitted_twice:
  "halfwords_emitted (halfwords_emitted self [a]) [b] = halfwords_emitted self [a, b]"
  by (simp add: halfwords_emitted_def)

lemma read_emitted1:
  "read_u16 (heap (halfwords_emitted self [a])) (code self) = a"
  using read_u16_write_u16_same [of "heap self" "code self" a]
  by (simp add: halfwords_emitted_def write_u16_def)

lemma read_emitted2:
  "read_u16 (heap (halfwords_emitted self [a, b])) (code self) = a \<and>
   read_u16 (heap (halfwords_emitted self [a, b])) (code self + 2) = b"
proof -
  have eq: "heap (halfwords_emitted self [a, b]) =
            write_u16 (write_u16 (heap self) (code self) a) (code self + 2) b"
    by (simp add: halfwords_emitted_def write_u16_def)
  show ?thesis
    unfolding eq by (simp add: read_u16_write_u16_same read_u16_write_u16_other)
qed

lemma emitted_obs1:
  "code (halfwords_emitted self [a]) = code self + 2 \<and>
   pc (halfwords_emitted self [a]) = pc self + 2 \<and>
   read_u16 (heap (halfwords_emitted self [a])) (code self) = a"
  using read_emitted1 [of self a] by (simp add: halfwords_emitted_def)

lemma emitted_obs2:
  "code (halfwords_emitted self [a, b]) = code self + 4 \<and>
   pc (halfwords_emitted self [a, b]) = pc self + 4 \<and>
   read_u16 (heap (halfwords_emitted self [a, b])) (code self) = a \<and>
   read_u16 (heap (halfwords_emitted self [a, b])) (code self + 2) = b"
  using read_emitted2 [of self a b] by (simp add: halfwords_emitted_def)

subsection \<open>Helper lemmas: labels\<close>

lemma lookup_absent: "ident \<notin> lm_id ` set ms \<Longrightarrow> lookup_address_loop ms ident = 0"
  by (induction ms) auto

lemma label_refs_loop_unresolved:
  "\<exists>r\<in>set rs. gum_thumb_writer_lookup_address_for_label_id self (lr_id r) = 0 \<Longrightarrow>
   \<not> fst (label_refs_loop self rs m)"
  by (induction rs arbitrary: m) (auto simp add: Let_def split: option.splits)

lemma label_refs_loop_stops:
  "gum_thumb_writer_lookup_address_for_label_id self (lr_id r) = 0 \<Longrightarrow>
   label_refs_loop self (pre @ r # post) m = (False, snd (label_refs_loop self pre m))"
  by (induction pre arbitrary: m) (auto simp add: Let_def split: option.splits)

lemma write_u16_other: "a \<noteq> b \<Longrightarrow> a \<noteq> b + 1 \<Longrightarrow> write_u16 m b v a = m a"
  by (simp add: write_u16_def)

lemma label_refs_loop_frame:
  "a \<notin> (\<Union>r\<in>set rs. {lr_insn r, lr_insn r + 1}) \<Longrightarrow> snd (label_refs_loop self rs m) a = m a"
  by (induction rs arbitrary: m) (auto simp add: Let_def write_u16_other split: option.splits)

lemma flush_unresolved:
  assumes "\<exists>r\<in>set (label_refs self). gum_thumb_writer_lookup_address_for_label_id self (lr_id r) = 0"
  shows "\<not> fst (gum_thumb_writer_flush self)"
proof -
  from assms have ne: "label_refs self \<noteq> []" by auto
  from label_refs_loop_unresolved[OF assms]
  have "\<not> fst (label_refs_loop self (label_refs self) (heap self))" .
  with ne show ?thesis
    by (simp add: gum_thumb_writer_flush_def split_beta)
qed

lemma xor_one_and_not_one: "(target XOR 1) AND - 2 = target AND (- 2 :: 64 word)"
proof -
  have "(target XOR 1) AND NOT 1 = target AND NOT (1 :: 64 word)"
    by (rule bit_word_eqI) (auto simp add: bit_simps)
  then show ?thesis by simp
qed

subsection \<open>Immediate branches\<close>

text \<open>
  C1, as the code has it. Each of \<^verbatim>\<open>gum_thumb_writer_put_b_imm\<close>,
  \<^verbatim>\<open>gum_thumb_writer_put_bl_imm\<close> and \<^verbatim>\<open>gum_thumb_writer_put_blx_imm\<close> packs the
  displacement \<open>((gint32) (target & ~1) - (gint32) (pc + 4)) / 2\<close>: bit 0 of the target
  is cleared for every variant, not for BLX alone, so a target and the same target
  with bit 0 flipped give the same two halfwords.
\<close>

theorem branch_imm_clears_bit0_in_every_variant:
  "gum_thumb_writer_put_b_imm self target =
     put_branch_imm_distance self
       (word_of_int (sint ((ucast (target AND NOT 1) :: 32 word) - ucast (pc self + 4)) sdiv 2))
       False True
   \<and> gum_thumb_writer_put_bl_imm self target =
     put_branch_imm_distance self
       (word_of_int (sint ((ucast (target AND NOT 1) :: 32 word) - ucast (pc self + 4)) sdiv 2))
       True True
   \<and> gum_thumb_writer_put_blx_imm self target =
     put_branch_imm_distance self
       (word_of_int (sint ((ucast (target AND NOT 1) :: 32 word) - ucast (pc self + 4)) sdiv 2))
       True False
   \<and> gum_thumb_writer_put_b_imm self (target XOR 1) = gum_thumb_writer_put_b_imm self target
   \<and> gum_thumb_writer_put_bl_imm self (target XOR 1) = gum_thumb_writer_put_bl_imm self target
   \<and> gum_thumb_writer_put_blx_imm self (target XOR 1) = gum_thumb_writer_put_blx_imm self target"
  by (simp add: gum_thumb_writer_put_b_imm_def gum_thumb_writer_put_bl_imm_def
      gum_thumb_writer_put_blx_imm_def gum_thumb_writer_put_branch_imm_def
      branch_imm_distance_def xor_one_and_not_one)

text \<open>
  C1 as stated fails for \<^verbatim>\<open>gum_thumb_writer_put_b_imm\<close> at \<open>pc = 0x1000\<close> with the odd
  backward target \<open>0xFFD\<close>: the code packs the displacement \<open>-4\<close> (second halfword
  \<open>0xBFFC\<close>), while the unmodified target would give \<open>-7 / 2 = -3\<close> (second halfword
  \<open>0xBFFD\<close>).
\<close>

theorem b_imm_odd_target_counterexample:
  "branch_imm_distance 0xFFD 0x1000 = - 4 \<and>
   spec_branch_imm_distance 0xFFD 0x1000 True = - 3 \<and>
   pc (gum_thumb_writer_reset GUM_OS_LINUX blank_writer 0x1000) = 0x1000 \<and>
   read_u16 (heap (gum_thumb_writer_put_b_imm
                     (gum_thumb_writer_reset GUM_OS_LINUX blank_writer 0x1000) 0xFFD)) 0x1002
     = 0xBFFC \<and>
   read_u16 (heap (put_branch_imm_distance
                     (gum_thumb_writer_reset GUM_OS_LINUX blank_writer 0x1000)
                     (spec_branch_imm_distance 0xFFD 0x1000 True) False True)) 0x1002
     = 0xBFFD"
  by code_simp

subsection \<open>Compare-and-branch references\<close>

text \<open>
  C2, evaluated where the code departs from it. A \<open>cbz r0\<close> at \<open>0x1000\<close> (reference pc
  \<open>0x1004\<close>) with its label defined 128 bytes further, at \<open>0x1084\<close>: the halfword
  distance 64 passes \<^verbatim>\<open>GUM_IS_WITHIN_UINT7_RANGE\<close>, flush succeeds, and only bits
  0..5 of the distance are encoded, so the instruction keeps a zero offset field
  (\<open>0xB100\<close>).
\<close>

theorem cbz_forward_128_bytes_accepted:
  "(let w = snd (gum_thumb_writer_put_label
                   (gum_thumb_writer_skip
                      (snd (gum_thumb_writer_put_cbz_reg_label
                              (gum_thumb_writer_reset GUM_OS_LINUX blank_writer 0x1000)
                              ARM_REG_R0 5))
                      130)
                   5);
        r = gum_thumb_writer_flush w
    in label_refs w = [\<lparr> lr_id = 5, lr_insn = 0x1000, lr_pc = 0x1004 \<rparr>] \<and>
       id_to_address w = [\<lparr> lm_id = 5, lm_address = 0x1084 \<rparr>] \<and>
       read_u16 (heap w) 0x1000 = 0xb100 \<and>
       fst r \<and> read_u16 (heap (snd r)) 0x1000 = 0xb100)"
  by code_simp

subsection \<open>Addition of an immediate\<close>

text \<open>
  C3, evaluated where the code departs from it. For the destination R0 and the
  immediate 256, whose magnitude does not fit in 8 bits,
  \<^verbatim>\<open>gum_thumb_writer_put_add_reg_imm\<close> returns success and emits \<open>0x3100\<close>, and
  \<^verbatim>\<open>gum_thumb_writer_put_sub_reg_imm\<close> returns success and emits \<open>0x3900\<close>: bit 8 of
  the magnitude runs into the register field.
\<close>

theorem add_reg_imm_256_not_rejected:
  "gum_thumb_writer_put_add_reg_imm self ARM_REG_R0 256 =
     (True, gum_thumb_writer_put_instruction self 0x3100) \<and>
   gum_thumb_writer_put_sub_reg_imm self ARM_REG_R0 256 =
     (True, gum_thumb_writer_put_instruction self 0x3900)"
  by (simp add: gum_thumb_writer_put_add_reg_imm_def gum_thumb_writer_put_sub_reg_imm_def
      gum_arm_reg_describe_def GUM_ARM_MREG_SP_def gssize_abs_def)

subsection \<open>A label at address zero\<close>

text \<open>
  C10. The lookup answers 0 both for an identifier without a definition and for one
  defined at address 0. After a reset to address 0, \<^verbatim>\<open>gum_thumb_writer_put_label\<close>
  succeeds and records the pair \<open>(ident, 0)\<close>; the lookup of \<open>ident\<close> still answers 0, so
  a second \<^verbatim>\<open>gum_thumb_writer_put_label\<close> of the same identifier succeeds as well and
  the table holds the identifier twice; and whenever the lookup of \<open>ident\<close> answers 0,
  a flush with a reference to \<open>ident\<close> fails.
\<close>

theorem label_at_address_zero_is_unresolved:
  "gum_thumb_writer_lookup_address_for_label_id (gum_thumb_writer_reset native_os w 0) ident = 0 \<and>
   (let w0 = gum_thumb_writer_reset native_os w 0;
        (ok1, w1) = gum_thumb_writer_put_label w0 ident;
        (ok2, w2) = gum_thumb_writer_put_label w1 ident
    in ok1 \<and> id_to_address w1 = [\<lparr> lm_id = ident, lm_address = 0 \<rparr>] \<and>
       gum_thumb_writer_lookup_address_for_label_id w1 ident = 0 \<and>
       ok2 \<and>
       id_to_address w2 =
         [\<lparr> lm_id = ident, lm_address = 0 \<rparr>, \<lparr> lm_id = ident, lm_address = 0 \<rparr>] \<and>
       gum_thumb_writer_lookup_address_for_label_id w2 ident = 0) \<and>
   (\<forall>w'. gum_thumb_writer_lookup_address_for_label_id w' ident = 0 \<longrightarrow>
         (\<exists>r\<in>set (label_refs w'). lr_id r = ident) \<longrightarrow>
         \<not> fst (gum_thumb_writer_flush w'))"
proof -
  have fails: "\<not> fst (gum_thumb_writer_flush w')"
    if tbl: "gum_thumb_writer_lookup_address_for_label_id w' ident = 0"
      and ref: "\<exists>r\<in>set (label_refs w'). lr_id r = ident" for w'
  proof (rule flush_unresolved)
    from ref obtain r where "r \<in> set (label_refs w')" "lr_id r = ident" by blast
    with tbl show "\<exists>r\<in>set (label_refs w').
        gum_thumb_writer_lookup_address_for_label_id w' (lr_id r) = 0"
      by auto
  qed
  have tables:
    "gum_thumb_writer_lookup_address_for_label_id (gum_thumb_writer_reset native_os w 0) ident = 0 \<and>
     (let w0 = gum_thumb_writer_reset native_os w 0;
          (ok1, w1) = gum_thumb_writer_put_label w0 ident;
          (ok2, w2) = gum_thumb_writer_put_label w1 ident
      in ok1 \<and> id_to_address w1 = [\<lparr> lm_id = ident, lm_address = 0 \<rparr>] \<and>
         gum_thumb_writer_lookup_address_for_label_id w1 ident = 0 \<and>
         ok2 \<and>
         id_to_address w2 =
           [\<lparr> lm_id = ident, lm_address = 0 \<rparr>, \<lparr> lm_id = ident, lm_address = 0 \<rparr>] \<and>
         gum_thumb_writer_lookup_address_for_label_id w2 ident = 0)"
    by (simp add: gum_thumb_writer_reset_def gum_thumb_writer_put_label_def
        gum_thumb_writer_lookup_address_for_label_id_def
        gum_thumb_writer_add_address_for_label_id_def GUM_MAX_LABEL_COUNT_def)
  from tables fails show ?thesis by blast
qed

text \<open>
  An instance of C10: reset to 0, define label 7, branch to label 7. The lookup of 7
  answers 0, the reference is recorded, and the flush fails.
\<close>

theorem label_at_address_zero_is_unresolved_witness:
  "(let w' = snd (gum_thumb_writer_put_b_label
                    (snd (gum_thumb_writer_put_label
                            (gum_thumb_writer_reset GUM_OS_LINUX blank_writer 0) 7)) 7)
    in gum_thumb_writer_lookup_address_for_label_id w' 7 = 0 \<and>
       (\<exists>r\<in>set (label_refs w'). lr_id r = 7) \<and> \<not> fst (gum_thumb_writer_flush w'))"
proof -
  define w' where
    "w' = snd (gum_thumb_writer_put_b_label
                 (snd (gum_thumb_writer_put_label
                         (gum_thumb_writer_reset GUM_OS_LINUX blank_writer 0) 7)) 7)"
  have a: "gum_thumb_writer_lookup_address_for_label_id w' 7 = 0"
    unfolding w'_def by code_simp
  have b: "\<exists>r\<in>set (label_refs w'). lr_id r = 7"
    unfolding w'_def by code_simp
  from label_at_address_zero_is_unresolved [of GUM_OS_LINUX blank_writer 7] a b
  have "\<not> fst (gum_thumb_writer_flush w')"
    by blast
  with a b show ?thesis unfolding w'_def Let_def by blast
qed

subsection \<open>Helper lemmas: registers\<close>

lemma meta_low: "meta (gum_arm_reg_describe r) \<le> GUM_ARM_MREG_R7 \<longleftrightarrow> is_low_reg r"
  by (cases r) (simp_all add: gum_arm_reg_describe_def GUM_ARM_MREG_R7_def is_low_reg_def)

lemma meta_sp: "meta (gum_arm_reg_describe r) = GUM_ARM_MREG_SP \<longleftrightarrow> r = ARM_REG_SP"
  by (cases r) (simp_all add: gum_arm_reg_describe_def GUM_ARM_MREG_SP_def)

lemma meta_lr: "meta (gum_arm_reg_describe r) = GUM_ARM_MREG_LR \<longleftrightarrow> r = ARM_REG_LR"
  by (cases r) (simp_all add: gum_arm_reg_describe_def GUM_ARM_MREG_LR_def)

lemma meta_pc: "meta (gum_arm_reg_describe r) = GUM_ARM_MREG_PC \<longleftrightarrow> r = ARM_REG_PC"
  by (cases r) (simp_all add: gum_arm_reg_describe_def GUM_ARM_MREG_PC_def)

lemma number_low: "arm_reg_number r \<le> GUM_ARM_MREG_R7 \<longleftrightarrow> is_low_reg r"
  by (cases r) (simp_all add: GUM_ARM_MREG_R7_def is_low_reg_def)

lemma index_describe: "index (gum_arm_reg_describe r) = of_nat (arm_reg_number r)"
  by (simp add: gum_arm_reg_describe_def)

lemma sp_not_low: "\<not> is_low_reg ARM_REG_SP"
  by (simp add: is_low_reg_def)

lemma transfer_cases:
  "gum_thumb_writer_put_transfer_reg_reg_offset self operation dst base_reg off =
     (if spec_transfer_is_narrow dst base_reg off
      then (True, gum_thumb_writer_put_instruction self (spec_transfer_narrow operation dst base_reg off))
      else if off > 4095 then (False, self)
      else (True, gum_thumb_writer_put_instruction
                    (gum_thumb_writer_put_instruction self (fst (spec_transfer_wide operation dst base_reg off)))
                    (snd (spec_transfer_wide operation dst base_reg off))))"
  unfolding gum_thumb_writer_put_transfer_reg_reg_offset_def Let_def meta_low meta_sp index_describe
    spec_transfer_is_narrow_def spec_transfer_narrow_def spec_transfer_wide_def
  using sp_not_low by (auto simp add: not_le)


lemma arm_reg_number_less: "arm_reg_number r < 16"
  by (cases r) simp_all

lemma unat_index_describe: "unat (index (gum_arm_reg_describe r)) = arm_reg_number r"
proof -
  have "arm_reg_number r < 2 ^ 32"
    using arm_reg_number_less [of r] by simp
  then show ?thesis
    by (simp add: gum_arm_reg_describe_def unat_of_nat)
qed

lemma meta_describe: "meta (gum_arm_reg_describe r) = arm_reg_number r"
  by (simp add: gum_arm_reg_describe_def)

lemma low_reg_number: "is_low_reg r \<longleftrightarrow> arm_reg_number r < 8"
  by (cases r) (simp_all add: is_low_reg_def)

lemma bit_one_shifted: "bit (ucast (2 ^ n :: 32 word) :: 16 word) i \<longleftrightarrow> i = n \<and> n < 16"
proof -
  have "bit (ucast (push_bit n (1 :: 32 word)) :: 16 word) i \<longleftrightarrow> i = n \<and> n < 16"
    by (auto simp add: bit_simps)
  then show ?thesis by simp
qed

lemma need_wide_instruction_loop_iff:
  "need_wide_instruction_loop special items b \<longleftrightarrow>
     b \<or> (\<exists>ri\<in>set items. \<not> meta ri \<le> GUM_ARM_MREG_R7 \<and> meta ri \<noteq> special)"
  by (induction items arbitrary: b) (auto simp add: GUM_ARM_MREG_R0_def Let_def)

lemma bit_wide_mask_loop:
  "bit (wide_mask_loop items acc) i \<longleftrightarrow>
     bit acc i \<or> (i < 16 \<and> (\<exists>ri\<in>set items. unat (index ri) = i))"
  by (induction items arbitrary: acc) (auto simp add: bit_or_iff bit_one_shifted)

lemma bit_narrow_insn_loop:
  "bit (narrow_insn_loop special items acc) i \<longleftrightarrow>
     bit acc i \<or> (i = 8 \<and> (\<exists>ri\<in>set items. meta ri = special)) \<or>
     (i < 16 \<and> (\<exists>ri\<in>set items. meta ri \<noteq> special \<and> unat (index ri) = i))"
proof (induction items arbitrary: acc)
  case Nil
  then show ?case by simp
next
  case (Cons ri items)
  have "bit ((2::int) ^ 8) i \<longleftrightarrow> i = 8"
    by (simp only: bit_exp_iff) auto
  then have b8: "bit (256 :: int) i \<longleftrightarrow> i = 8" by simp
  show ?case
    by (auto simp add: Cons.IH bit_or_iff b8 bit_one_shifted simp del: bit_numeral_iff)
qed

lemma push_or_pop_regs_cases:
  assumes sp: "special = arm_reg_number special_reg" "\<not> is_low_reg special_reg"
  shows "gum_thumb_writer_put_push_or_pop_regs self narrow_opcode wide_opcode special regs =
     (if regs = [] then (False, self)
      else if \<forall>r\<in>set regs. is_low_reg r \<or> r = special_reg
      then (True, gum_thumb_writer_put_instruction self
                    (narrow_insn_loop special (map gum_arm_reg_describe regs) narrow_opcode))
      else (True, gum_thumb_writer_put_instruction
                    (gum_thumb_writer_put_instruction self wide_opcode)
                    (wide_mask_loop (map gum_arm_reg_describe regs) 0)))"
proof -
  have inj: "arm_reg_number a = arm_reg_number b \<longleftrightarrow> a = b" for a b
    by (cases a; cases b) simp_all
  have "need_wide_instruction_loop special (map gum_arm_reg_describe regs) False \<longleftrightarrow>
        \<not> (\<forall>r\<in>set regs. is_low_reg r \<or> r = special_reg)"
    by (auto simp add: need_wide_instruction_loop_iff number_low meta_describe sp inj)
  then show ?thesis
    by (auto simp add: gum_thumb_writer_put_push_or_pop_regs_def Let_def)
qed

lemma narrow_bits:
  assumes sp: "special = arm_reg_number special_reg" "\<not> is_low_reg special_reg"
    and all: "\<forall>r\<in>set regs. is_low_reg r \<or> r = special_reg"
    and i: "i < 16"
  shows "bit (narrow_insn_loop special (map gum_arm_reg_describe regs) narrow_opcode) i \<longleftrightarrow>
         bit narrow_opcode i \<or> (i = 8 \<and> special_reg \<in> set regs) \<or>
         (\<exists>r\<in>set regs. is_low_reg r \<and> arm_reg_number r = i)"
proof -
  have inj: "arm_reg_number a = arm_reg_number b \<longleftrightarrow> a = b" for a b
    by (cases a; cases b) simp_all
  show ?thesis
    using all sp(2) i
    by (auto simp add: bit_narrow_insn_loop meta_describe unat_index_describe sp(1) inj)
qed

lemma wide_bits:
  assumes i: "i < 16"
  shows "bit (wide_mask_loop (map gum_arm_reg_describe regs) 0) i \<longleftrightarrow>
         (\<exists>r\<in>set regs. arm_reg_number r = i)"
  using i by (auto simp add: bit_wide_mask_loop unat_index_describe)


lemma wide_mask_loop_spec:
  "wide_mask_loop (map gum_arm_reg_describe regs) 0 = spec_regs_wide_mask regs"
proof (rule bit_word_eqI)
  fix i assume "i < LENGTH(16)"
  then have i: "i < 16" by simp
  then show "bit (wide_mask_loop (map gum_arm_reg_describe regs) 0) i \<longleftrightarrow>
             bit (spec_regs_wide_mask regs) i"
    by (simp add: wide_bits spec_regs_wide_mask_def bit_horner_sum_bit_word_iff)
qed

lemma narrow_insn_loop_spec:
  assumes sp: "special = arm_reg_number special_reg" "\<not> is_low_reg special_reg"
    and all: "\<forall>r\<in>set regs. is_low_reg r \<or> r = special_reg"
  shows "narrow_insn_loop special (map gum_arm_reg_describe regs) narrow_opcode =
         spec_regs_narrow_insn narrow_opcode special_reg regs"
proof (rule bit_word_eqI)
  fix i assume "i < LENGTH(16)"
  then have i: "i < 16" by simp
  have low8: "arm_reg_number r \<noteq> 8" if "is_low_reg r" for r
    using that by (simp add: low_reg_number)
  from i show "bit (narrow_insn_loop special (map gum_arm_reg_describe regs) narrow_opcode) i \<longleftrightarrow>
             bit (spec_regs_narrow_insn narrow_opcode special_reg regs) i"
    by (auto simp add: narrow_bits [OF sp all i] spec_regs_narrow_insn_def bit_or_iff
        bit_horner_sum_bit_word_iff low8)
qed

subsection \<open>Memory transfers\<close>

text \<open>
  C6. \<^verbatim>\<open>gum_thumb_writer_put_ldr_reg_reg_offset\<close> and
  \<^verbatim>\<open>gum_thumb_writer_put_str_reg_reg_offset\<close> emit the one narrow halfword exactly when
  the destination is low, the base is low or SP, the offset is a multiple of 4 and the
  offset is at most 1020 for an SP base or at most 124 for a low base. In every other
  case they fail and leave the writer as it was when the offset exceeds 4095, and emit
  the two halfwords of the wide form otherwise. Emitting is stated on the memory: the
  narrow halfword is read back at the old cursor and the cursor and the program counter
  are two bytes further; the two wide halfwords are read back at the old cursor and two
  bytes after it, and the cursor and the program counter are four bytes further; the
  rest of the writer is as before.
\<close>

theorem transfer_narrow_wide_or_fail:
  "(let (ok, w') = gum_thumb_writer_put_ldr_reg_reg_offset self dst_reg base_reg off
    in if spec_transfer_is_narrow dst_reg base_reg off
       then ok \<and>
            w' = halfwords_emitted self
                   [spec_transfer_narrow GUM_THUMB_MEMORY_LOAD dst_reg base_reg off] \<and>
            code w' = code self + 2 \<and> pc w' = pc self + 2 \<and>
            read_u16 (heap w') (code self) =
              spec_transfer_narrow GUM_THUMB_MEMORY_LOAD dst_reg base_reg off
       else if off > 4095 then \<not> ok \<and> w' = self
       else ok \<and>
            w' = halfwords_emitted self
                   [fst (spec_transfer_wide GUM_THUMB_MEMORY_LOAD dst_reg base_reg off),
                    snd (spec_transfer_wide GUM_THUMB_MEMORY_LOAD dst_reg base_reg off)] \<and>
            code w' = code self + 4 \<and> pc w' = pc self + 4 \<and>
            read_u16 (heap w') (code self) =
              fst (spec_transfer_wide GUM_THUMB_MEMORY_LOAD dst_reg base_reg off) \<and>
            read_u16 (heap w') (code self + 2) =
              snd (spec_transfer_wide GUM_THUMB_MEMORY_LOAD dst_reg base_reg off)) \<and>
   (let (ok, w') = gum_thumb_writer_put_str_reg_reg_offset self dst_reg base_reg off
    in if spec_transfer_is_narrow dst_reg base_reg off
       then ok \<and>
            w' = halfwords_emitted self
                   [spec_transfer_narrow GUM_THUMB_MEMORY_STORE dst_reg base_reg off] \<and>
            code w' = code self + 2 \<and> pc w' = pc self + 2 \<and>
            read_u16 (heap w') (code self) =
              spec_transfer_narrow GUM_THUMB_MEMORY_STORE dst_reg base_reg off
       else if off > 4095 then \<not> ok \<and> w' = self
       else ok \<and>
            w' = halfwords_emitted self
                   [fst (spec_transfer_wide GUM_THUMB_MEMORY_STORE dst_reg base_reg off),
                    snd (spec_transfer_wide GUM_THUMB_MEMORY_STORE dst_reg base_reg off)] \<and>
            code w' = code self + 4 \<and> pc w' = pc self + 4 \<and>
            read_u16 (heap w') (code self) =
              fst (spec_transfer_wide GUM_THUMB_MEMORY_STORE dst_reg base_reg off) \<and>
            read_u16 (heap w') (code self + 2) =
              snd (spec_transfer_wide GUM_THUMB_MEMORY_STORE dst_reg base_reg off))"
proof -
  have sel: "code (halfwords_emitted self hs) = code self + 2 * length hs"
    "pc (halfwords_emitted self hs) = pc self + of_nat (2 * length hs)" for hs
    by (simp_all add: halfwords_emitted_def)
  show ?thesis
    unfolding gum_thumb_writer_put_ldr_reg_reg_offset_def
      gum_thumb_writer_put_str_reg_reg_offset_def transfer_cases
      put_instruction_emitted emitted_twice
    using read_emitted1 [of self] read_emitted2 [of self]
    by (simp add: sel)
qed

text \<open>
  Instances of C6 on a writer at address 0: the narrow bounds 1020 (SP base) and 124
  (low base), an offset beyond the narrow bound, an offset that is not a multiple of 4,
  a high destination, and the offset 4096, with the halfwords read back from the memory.
\<close>

theorem transfer_narrow_wide_or_fail_witness:
  "(let (ok, w') = gum_thumb_writer_put_ldr_reg_reg_offset blank_writer ARM_REG_R1 ARM_REG_SP 1020
    in ok \<and> code w' = 2 \<and> read_u16 (heap w') 0 = 0x99ff) \<and>
   (let (ok, w') = gum_thumb_writer_put_str_reg_reg_offset blank_writer ARM_REG_R1 ARM_REG_R2 124
    in ok \<and> code w' = 2 \<and> read_u16 (heap w') 0 = 0x67d1) \<and>
   (let (ok, w') = gum_thumb_writer_put_ldr_reg_reg_offset blank_writer ARM_REG_R1 ARM_REG_R2 128
    in ok \<and> code w' = 4 \<and> read_u16 (heap w') 0 = 0xf8d2 \<and> read_u16 (heap w') 2 = 0x1080) \<and>
   (let (ok, w') = gum_thumb_writer_put_ldr_reg_reg_offset blank_writer ARM_REG_R1 ARM_REG_R2 6
    in ok \<and> code w' = 4 \<and> read_u16 (heap w') 0 = 0xf8d2 \<and> read_u16 (heap w') 2 = 0x1006) \<and>
   (let (ok, w') = gum_thumb_writer_put_str_reg_reg_offset blank_writer ARM_REG_R8 ARM_REG_SP 4
    in ok \<and> code w' = 4 \<and> read_u16 (heap w') 0 = 0xf8cd \<and> read_u16 (heap w') 2 = 0x8004) \<and>
   (let (ok, w') = gum_thumb_writer_put_str_reg_reg_offset blank_writer ARM_REG_R1 ARM_REG_R2 4096
    in \<not> ok \<and> w' = blank_writer)"
proof -
  have c0: "code blank_writer = 0" by (simp add: blank_writer_def)
  show ?thesis
    using transfer_narrow_wide_or_fail [of blank_writer ARM_REG_R1 ARM_REG_SP 1020]
      transfer_narrow_wide_or_fail [of blank_writer ARM_REG_R1 ARM_REG_R2 124]
      transfer_narrow_wide_or_fail [of blank_writer ARM_REG_R1 ARM_REG_R2 128]
      transfer_narrow_wide_or_fail [of blank_writer ARM_REG_R1 ARM_REG_R2 6]
      transfer_narrow_wide_or_fail [of blank_writer ARM_REG_R8 ARM_REG_SP 4]
      transfer_narrow_wide_or_fail [of blank_writer ARM_REG_R1 ARM_REG_R2 4096]
    by (simp add: spec_transfer_is_narrow_def spec_transfer_narrow_def spec_transfer_wide_def
        is_low_reg_def c0 split_beta halfwords_emitted_def blank_writer_def read_u16_def)
qed

subsection \<open>Push and pop\<close>

text \<open>
  C7. For a non-empty register array, \<^verbatim>\<open>gum_thumb_writer_put_push_regs_array\<close>
  (special register LR) and \<^verbatim>\<open>gum_thumb_writer_put_pop_regs_array\<close> (special register
  PC) emit the one narrow halfword, with one bit per low register and bit 8 for the
  special register, if and only if every register is low or the special register;
  otherwise they emit the wide opcode and then the mask with one bit per register
  index. For the empty array they fail and leave the writer as it was. Emitting is
  stated on the memory: the narrow halfword is read back at the old cursor and the
  cursor and the program counter are two bytes further; the wide opcode is read back
  at the old cursor and the mask two bytes after it, and the cursor and the program
  counter are four bytes further; the rest of the writer is as before.
\<close>

theorem push_pop_narrow_iff_low_or_special:
  "(let (ok, w') = gum_thumb_writer_put_push_regs_array self regs
    in if regs = [] then \<not> ok \<and> w' = self
       else if \<forall>r\<in>set regs. is_low_reg r \<or> r = ARM_REG_LR
       then ok \<and> w' = halfwords_emitted self [spec_regs_narrow_insn 0xb400 ARM_REG_LR regs] \<and>
            code w' = code self + 2 \<and> pc w' = pc self + 2 \<and>
            read_u16 (heap w') (code self) = spec_regs_narrow_insn 0xb400 ARM_REG_LR regs
       else ok \<and> w' = halfwords_emitted self [0xe92d, spec_regs_wide_mask regs] \<and>
            code w' = code self + 4 \<and> pc w' = pc self + 4 \<and>
            read_u16 (heap w') (code self) = 0xe92d \<and>
            read_u16 (heap w') (code self + 2) = spec_regs_wide_mask regs) \<and>
   (let (ok, w') = gum_thumb_writer_put_pop_regs_array self regs
    in if regs = [] then \<not> ok \<and> w' = self
       else if \<forall>r\<in>set regs. is_low_reg r \<or> r = ARM_REG_PC
       then ok \<and> w' = halfwords_emitted self [spec_regs_narrow_insn 0xbc00 ARM_REG_PC regs] \<and>
            code w' = code self + 2 \<and> pc w' = pc self + 2 \<and>
            read_u16 (heap w') (code self) = spec_regs_narrow_insn 0xbc00 ARM_REG_PC regs
       else ok \<and> w' = halfwords_emitted self [0xe8bd, spec_regs_wide_mask regs] \<and>
            code w' = code self + 4 \<and> pc w' = pc self + 4 \<and>
            read_u16 (heap w') (code self) = 0xe8bd \<and>
            read_u16 (heap w') (code self + 2) = spec_regs_wide_mask regs)"
proof -
  have lr: "GUM_ARM_MREG_LR = arm_reg_number ARM_REG_LR" "\<not> is_low_reg ARM_REG_LR"
    by (simp_all add: GUM_ARM_MREG_LR_def is_low_reg_def)
  have pc: "GUM_ARM_MREG_PC = arm_reg_number ARM_REG_PC" "\<not> is_low_reg ARM_REG_PC"
    by (simp_all add: GUM_ARM_MREG_PC_def is_low_reg_def)
  have gen: "gum_thumb_writer_put_push_or_pop_regs self narrow_opcode wide_opcode special regs =
     (if regs = [] then (False, self)
      else if \<forall>r\<in>set regs. is_low_reg r \<or> r = special_reg
      then (True, halfwords_emitted self [spec_regs_narrow_insn narrow_opcode special_reg regs])
      else (True, halfwords_emitted self [wide_opcode, spec_regs_wide_mask regs]))"
    if sp: "special = arm_reg_number special_reg" "\<not> is_low_reg special_reg"
    for narrow_opcode wide_opcode special special_reg
  proof (cases "\<forall>r\<in>set regs. is_low_reg r \<or> r = special_reg")
    case True
    then show ?thesis
      by (simp add: push_or_pop_regs_cases [OF sp] narrow_insn_loop_spec [OF sp True]
          put_instruction_emitted)
  next
    case False
    then have eq: "(\<forall>r\<in>set regs. is_low_reg r \<or> r = special_reg) = False" by simp
    show ?thesis
      unfolding push_or_pop_regs_cases [OF sp] wide_mask_loop_spec
        put_instruction_emitted emitted_twice
      by (simp only: eq if_False)
  qed
  have obs: "(let (ok, w') = gum_thumb_writer_put_push_or_pop_regs self narrow_opcode wide_opcode
                  special regs
     in if regs = [] then \<not> ok \<and> w' = self
       else if \<forall>r\<in>set regs. is_low_reg r \<or> r = special_reg
       then ok \<and>
            w' = halfwords_emitted self [spec_regs_narrow_insn narrow_opcode special_reg regs] \<and>
            code w' = code self + 2 \<and> pc w' = pc self + 2 \<and>
            read_u16 (heap w') (code self) = spec_regs_narrow_insn narrow_opcode special_reg regs
       else ok \<and> w' = halfwords_emitted self [wide_opcode, spec_regs_wide_mask regs] \<and>
            code w' = code self + 4 \<and> pc w' = pc self + 4 \<and>
            read_u16 (heap w') (code self) = wide_opcode \<and>
            read_u16 (heap w') (code self + 2) = spec_regs_wide_mask regs)"
    if sp: "special = arm_reg_number special_reg" "\<not> is_low_reg special_reg"
    for narrow_opcode wide_opcode special special_reg
  proof (cases "regs = []")
    case True
    then show ?thesis unfolding gen [OF sp] by simp
  next
    case ne: False
    show ?thesis
    proof (cases "\<forall>r\<in>set regs. is_low_reg r \<or> r = special_reg")
      case True
      then have eq: "(\<forall>r\<in>set regs. is_low_reg r \<or> r = special_reg) = True" by simp
      show ?thesis
        unfolding gen [OF sp] eq
        using ne emitted_obs1 [of self "spec_regs_narrow_insn narrow_opcode special_reg regs"]
        by simp
    next
      case False
      then have eq: "(\<forall>r\<in>set regs. is_low_reg r \<or> r = special_reg) = False" by simp
      show ?thesis
        unfolding gen [OF sp] eq
        using ne emitted_obs2 [of self wide_opcode "spec_regs_wide_mask regs"]
        by simp
    qed
  qed
  show ?thesis
    unfolding gum_thumb_writer_put_push_regs_array_def gum_thumb_writer_put_pop_regs_array_def
    using obs [OF lr, of "0xb400" "0xe92d"] obs [OF pc, of "0xbc00" "0xe8bd"]
    by blast
qed

text \<open>
  Instances of C7 on a writer at address 0: \<open>push {r4, r5, lr}\<close> and
  \<open>pop {r4, r5, pc}\<close> are narrow, \<open>push {r4, r8}\<close> and \<open>pop {r4, lr}\<close> are wide, and the
  empty array fails, with the halfwords read back from the memory.
\<close>

theorem push_pop_narrow_iff_low_or_special_witness:
  "(let (ok, w') = gum_thumb_writer_put_push_regs_array blank_writer [ARM_REG_R4, ARM_REG_R5, ARM_REG_LR]
    in ok \<and> code w' = 2 \<and> read_u16 (heap w') 0 = 0xb530) \<and>
   (let (ok, w') = gum_thumb_writer_put_pop_regs_array blank_writer [ARM_REG_R4, ARM_REG_R5, ARM_REG_PC]
    in ok \<and> code w' = 2 \<and> read_u16 (heap w') 0 = 0xbd30) \<and>
   (let (ok, w') = gum_thumb_writer_put_push_regs_array blank_writer [ARM_REG_R4, ARM_REG_R8]
    in ok \<and> code w' = 4 \<and> read_u16 (heap w') 0 = 0xe92d \<and> read_u16 (heap w') 2 = 0x0110) \<and>
   (let (ok, w') = gum_thumb_writer_put_pop_regs_array blank_writer [ARM_REG_R4, ARM_REG_LR]
    in ok \<and> code w' = 4 \<and> read_u16 (heap w') 0 = 0xe8bd \<and> read_u16 (heap w') 2 = 0x4010) \<and>
   (let (ok, w') = gum_thumb_writer_put_push_regs_array blank_writer []
    in \<not> ok \<and> w' = blank_writer)"
proof -
  have a: "spec_regs_narrow_insn 0xb400 ARM_REG_LR [ARM_REG_R4, ARM_REG_R5, ARM_REG_LR] = 0xb530"
    by code_simp
  have b: "spec_regs_narrow_insn 0xbc00 ARM_REG_PC [ARM_REG_R4, ARM_REG_R5, ARM_REG_PC] = 0xbd30"
    by code_simp
  have c: "spec_regs_wide_mask [ARM_REG_R4, ARM_REG_R8] = 0x0110"
    by code_simp
  have d: "spec_regs_wide_mask [ARM_REG_R4, ARM_REG_LR] = 0x4010"
    by code_simp
  have c0: "code blank_writer = 0" by (simp add: blank_writer_def)
  show ?thesis
    using push_pop_narrow_iff_low_or_special [of blank_writer "[ARM_REG_R4, ARM_REG_R5, ARM_REG_LR]"]
      push_pop_narrow_iff_low_or_special [of blank_writer "[ARM_REG_R4, ARM_REG_R5, ARM_REG_PC]"]
      push_pop_narrow_iff_low_or_special [of blank_writer "[ARM_REG_R4, ARM_REG_R8]"]
      push_pop_narrow_iff_low_or_special [of blank_writer "[ARM_REG_R4, ARM_REG_LR]"]
      push_pop_narrow_iff_low_or_special [of blank_writer "[]"]
    by (simp add: a b c d is_low_reg_def c0 split_beta halfwords_emitted_def blank_writer_def
        read_u16_def)
qed

subsection \<open>Helper lemmas: flush\<close>

lemma need_aligned_slots_loop_iff:
  "need_aligned_slots_loop m rs b \<longleftrightarrow>
     b \<or> (\<exists>r\<in>set rs. gum_instruction_is_t1_load (read_u16 m (lit_insn r)))"
  by (induction rs arbitrary: b) auto

lemma flush_success_state:
  assumes ok: "fst (gum_thumb_writer_flush self)"
  shows "gum_thumb_writer_flush self =
     (let self1 = self\<lparr> heap := snd (label_refs_loop self (label_refs self) (heap self)),
                        label_refs := [] \<rparr>
      in (True, if literal_refs self = [] then self1 else flush_literal_refs self1))"
proof (cases "label_refs self = []")
  case True
  then have same: "self\<lparr> label_refs := [] \<rparr> = self"
    by (cases self) simp
  from True show ?thesis
    by (simp add: gum_thumb_writer_flush_def Let_def same)
next
  case False
  with ok have "fst (label_refs_loop self (label_refs self) (heap self))"
    by (simp add: gum_thumb_writer_flush_def Let_def split_beta split: if_splits)
  with False show ?thesis
    by (simp add: gum_thumb_writer_flush_def Let_def split_beta)
qed

lemma flush_without_label_refs_succeeds:
  "label_refs self = [] \<Longrightarrow> fst (gum_thumb_writer_flush self)"
  by (simp add: gum_thumb_writer_flush_def Let_def)

lemmas eval_defs = blank_writer_def gum_thumb_writer_reset_def
      gum_thumb_writer_put_bx_reg_def gum_thumb_writer_put_ldr_reg_u32_def
      gum_thumb_writer_add_literal_reference_here_def GUM_MAX_LITERAL_REF_COUNT_def
      gum_thumb_writer_add_label_reference_here_def GUM_MAX_LREF_COUNT_def
      gum_thumb_writer_put_label_def gum_thumb_writer_add_address_for_label_id_def
      gum_thumb_writer_lookup_address_for_label_id_def GUM_MAX_LABEL_COUNT_def
      gum_thumb_writer_put_b_label_def
      gum_thumb_writer_put_instruction_def gum_arm_reg_describe_def GUM_ARM_MREG_R7_def
      gum_instruction_is_t1_load_def read_u16_def write_u16_def Let_def

subsection \<open>Unresolved labels\<close>

text \<open>
  C4. When some label reference of the writer names an identifier that has no
  definition in the label table, \<^verbatim>\<open>gum_thumb_writer_flush\<close> returns failure; afterwards
  the label-reference table and the literal-reference table are empty, while the base,
  the cursor, the program counter, the label table and the target OS are as before,
  and every byte of memory outside the instructions of the references that precede the
  undefined one is unchanged: nothing is rolled back and no literal pool is written.
\<close>

theorem flush_unresolved_label_clears_tables:
  assumes refs: "label_refs self = pre @ r # post"
    and undefined_id: "lr_id r \<notin> lm_id ` set (id_to_address self)"
  shows "gum_thumb_writer_flush self =
           (False, self\<lparr> heap := snd (label_refs_loop self pre (heap self)),
                         label_refs := [], literal_refs := [] \<rparr>) \<and>
         (let self' = snd (gum_thumb_writer_flush self)
          in \<not> fst (gum_thumb_writer_flush self) \<and>
             label_refs self' = [] \<and> literal_refs self' = [] \<and>
             base self' = base self \<and> code self' = code self \<and> pc self' = pc self \<and>
             id_to_address self' = id_to_address self \<and> target_os self' = target_os self \<and>
             (\<forall>a. a \<notin> (\<Union>r'\<in>set pre. {lr_insn r', lr_insn r' + 1}) \<longrightarrow>
                  heap self' a = heap self a))"
proof -
  from undefined_id have zero: "gum_thumb_writer_lookup_address_for_label_id self (lr_id r) = 0"
    by (simp add: gum_thumb_writer_lookup_address_for_label_id_def lookup_absent)
  have loop: "label_refs_loop self (label_refs self) (heap self) =
                (False, snd (label_refs_loop self pre (heap self)))"
    unfolding refs by (rule label_refs_loop_stops [OF zero])
  have flush: "gum_thumb_writer_flush self =
           (False, self\<lparr> heap := snd (label_refs_loop self pre (heap self)),
                         label_refs := [], literal_refs := [] \<rparr>)"
    using refs loop by (simp add: gum_thumb_writer_flush_def)
  show ?thesis
    unfolding flush by (simp add: label_refs_loop_frame)
qed

text \<open>
  An instance of C4: a branch to the defined label 2, then a branch to the undefined
  label 1, then a literal load. The flush fails, both tables are empty, the cursor stays
  at \<open>0x1006\<close>, and the second branch and the load keep their zero fields.
\<close>

theorem flush_unresolved_label_clears_tables_witness:
  "label_refs example_unresolved_writer =
     [\<lparr> lr_id = 2, lr_insn = 0x1000, lr_pc = 0x1004 \<rparr>] @
     \<lparr> lr_id = 1, lr_insn = 0x1002, lr_pc = 0x1006 \<rparr> # [] \<and>
   1 \<notin> lm_id ` set (id_to_address example_unresolved_writer) \<and>
   literal_refs example_unresolved_writer \<noteq> [] \<and>
   \<not> fst (gum_thumb_writer_flush example_unresolved_writer) \<and>
   label_refs (snd (gum_thumb_writer_flush example_unresolved_writer)) = [] \<and>
   literal_refs (snd (gum_thumb_writer_flush example_unresolved_writer)) = [] \<and>
   code (snd (gum_thumb_writer_flush example_unresolved_writer)) = 0x1006 \<and>
   pc (snd (gum_thumb_writer_flush example_unresolved_writer)) = 0x1006 \<and>
   read_u16 (heap (snd (gum_thumb_writer_flush example_unresolved_writer))) 0x1002 = 0xe000 \<and>
   read_u16 (heap (snd (gum_thumb_writer_flush example_unresolved_writer))) 0x1004 = 0x4800"
proof -
  let ?w = example_unresolved_writer
  have refs: "label_refs ?w =
     [\<lparr> lr_id = 2, lr_insn = 0x1000, lr_pc = 0x1004 \<rparr>] @
     \<lparr> lr_id = 1, lr_insn = 0x1002, lr_pc = 0x1006 \<rparr> # []"
    by (simp add: example_unresolved_writer_def eval_defs)
  have undef: "lr_id \<lparr> lr_id = 1, lr_insn = 0x1002, lr_pc = 0x1006 \<rparr> \<notin> lm_id ` set (id_to_address ?w)"
    by (simp add: example_unresolved_writer_def eval_defs)
  have lits: "literal_refs ?w \<noteq> []"
    by (simp add: example_unresolved_writer_def eval_defs)
  have st: "code ?w = 0x1006" "pc ?w = 0x1006"
    "read_u16 (heap ?w) 0x1002 = 0xe000" "read_u16 (heap ?w) 0x1004 = 0x4800"
    by (simp_all add: example_unresolved_writer_def eval_defs)
  note t = flush_unresolved_label_clears_tables [OF refs undef]
  from t have all: "\<forall>a. a \<notin> (\<Union>r'\<in>set [\<lparr> lr_id = 2, lr_insn = 0x1000, lr_pc = 0x1004 \<rparr>].
                              {lr_insn r', lr_insn r' + 1}) \<longrightarrow>
                    heap (snd (gum_thumb_writer_flush ?w)) a = heap ?w a"
    unfolding Let_def by blast
  from t have basics: "\<not> fst (gum_thumb_writer_flush ?w)"
    "label_refs (snd (gum_thumb_writer_flush ?w)) = []"
    "literal_refs (snd (gum_thumb_writer_flush ?w)) = []"
    "code (snd (gum_thumb_writer_flush ?w)) = code ?w"
    "pc (snd (gum_thumb_writer_flush ?w)) = pc ?w"
    unfolding Let_def by blast+
  have frame: "heap (snd (gum_thumb_writer_flush ?w)) a = heap ?w a"
    if "a \<noteq> 0x1000" "a \<noteq> 0x1001" for a
    using all that by simp
  have "read_u16 (heap (snd (gum_thumb_writer_flush ?w))) 0x1002 = 0xe000"
       "read_u16 (heap (snd (gum_thumb_writer_flush ?w))) 0x1004 = 0x4800"
    using st(3,4) by (simp_all add: read_u16_def frame)
  with basics refs undef lits st(1,2) show ?thesis
    by simp
qed

subsection \<open>The alignment nop\<close>

text \<open>
  C8, as the code has it. At a flush with a non-empty literal-reference table, the
  literal block is entered only when the label references have been resolved. In a
  successful flush, let \<open>self1\<close> be the writer when the literal block is entered. The
  pool loop starts from \<open>self1\<close> with the one halfword \<open>0x46C0\<close> emitted at the cursor if
  and only if some literal reference's first halfword is a T1 load
  (\<open>(h & 0xF800) = 0x4800\<close>) and the program counter is not 4-byte aligned; in every
  other case it starts from \<open>self1\<close> itself, with no halfword emitted. In a failed flush
  neither a nop nor a pool is emitted, whatever the literal references and the
  program counter are: the cursor and the program counter stay, and the memory is the
  one the label loop has left.
\<close>

theorem flush_alignment_nop_iff:
  assumes lits: "literal_refs self \<noteq> []"
  shows "if fst (gum_thumb_writer_flush self)
         then (let self1 = self\<lparr> heap := snd (label_refs_loop self (label_refs self) (heap self)),
                           label_refs := [] \<rparr>;
              aligned = ((\<exists>r\<in>set (literal_refs self).
                             gum_instruction_is_t1_load (read_u16 (heap self1) (lit_insn r))) \<and>
                         pc self AND 3 \<noteq> 0);
              self2 = (if aligned then gum_thumb_writer_put_instruction self1 0x46c0 else self1)
          in code self2 = code self + (if aligned then 2 else 0) \<and>
             (if aligned then read_u16 (heap self2) (code self) = 0x46c0 else heap self2 = heap self1) \<and>
             snd (gum_thumb_writer_flush self) =
               (snd (literal_refs_loop (code self2) (literal_refs self) (0, self2)))
                 \<lparr> literal_refs := [] \<rparr>)
         else snd (gum_thumb_writer_flush self) =
                self\<lparr> heap := snd (label_refs_loop self (label_refs self) (heap self)),
                      label_refs := [], literal_refs := [] \<rparr> \<and>
              code (snd (gum_thumb_writer_flush self)) = code self \<and>
              pc (snd (gum_thumb_writer_flush self)) = pc self"
proof (cases "fst (gum_thumb_writer_flush self)")
  case ok: True
  define self1 where "self1 = self\<lparr> heap := snd (label_refs_loop self (label_refs self) (heap self)),
                           label_refs := [] \<rparr>"
  have fl: "snd (gum_thumb_writer_flush self) = flush_literal_refs self1"
    using lits by (simp add: flush_success_state [OF ok] Let_def self1_def)
  have sel: "literal_refs self1 = literal_refs self" "pc self1 = pc self" "code self1 = code self"
    by (simp_all add: self1_def)
  have "(let self1 = self\<lparr> heap := snd (label_refs_loop self (label_refs self) (heap self)),
                           label_refs := [] \<rparr>;
              aligned = ((\<exists>r\<in>set (literal_refs self).
                             gum_instruction_is_t1_load (read_u16 (heap self1) (lit_insn r))) \<and>
                         pc self AND 3 \<noteq> 0);
              self2 = (if aligned then gum_thumb_writer_put_instruction self1 0x46c0 else self1)
          in code self2 = code self + (if aligned then 2 else 0) \<and>
             (if aligned then read_u16 (heap self2) (code self) = 0x46c0 else heap self2 = heap self1) \<and>
             snd (gum_thumb_writer_flush self) =
               (snd (literal_refs_loop (code self2) (literal_refs self) (0, self2)))
                 \<lparr> literal_refs := [] \<rparr>)"
    unfolding fl self1_def [symmetric] Let_def
    by (auto simp add: flush_literal_refs_def Let_def split_beta need_aligned_slots_loop_iff sel
        gum_thumb_writer_put_nop_def gum_thumb_writer_put_instruction_def read_u16_def write_u16_def)
  then show ?thesis
    by (simp only: ok if_True)
next
  case False
  then have "snd (gum_thumb_writer_flush self) =
                self\<lparr> heap := snd (label_refs_loop self (label_refs self) (heap self)),
                      label_refs := [], literal_refs := [] \<rparr>"
    by (simp add: gum_thumb_writer_flush_def Let_def split_beta split: if_splits)
  with False show ?thesis by simp
qed

text \<open>
  An instance of C8: two T1 loads and a \<open>bx lr\<close> from \<open>0x1000\<close> leave the program counter
  at \<open>0x1006\<close>, so the nop is emitted and the pool starts at \<open>0x1008\<close>.
\<close>

theorem flush_alignment_nop_iff_witness:
  "fst (gum_thumb_writer_flush example_literal_writer) \<and>
   literal_refs example_literal_writer \<noteq> [] \<and>
   label_refs example_literal_writer = [] \<and>
   gum_instruction_is_t1_load (read_u16 (heap example_literal_writer) 0x1000) \<and>
   pc example_literal_writer AND 3 = 2 \<and>
   code example_literal_writer = 0x1006 \<and>
   snd (gum_thumb_writer_flush example_literal_writer) =
     (snd (literal_refs_loop 0x1008 (literal_refs example_literal_writer)
             (0, gum_thumb_writer_put_instruction
                   (example_literal_writer\<lparr> label_refs := [] \<rparr>) 0x46c0)))
       \<lparr> literal_refs := [] \<rparr>"
proof -
  let ?w = example_literal_writer
  have st: "label_refs ?w = []" "pc ?w AND 3 = 2" "code ?w = 0x1006"
    "gum_instruction_is_t1_load (read_u16 (heap ?w) 0x1000)"
    "lit_insn (hd (literal_refs ?w)) = 0x1000"
    by (simp_all add: example_literal_writer_def eval_defs)
  have lits: "literal_refs ?w \<noteq> []"
    by (simp add: example_literal_writer_def eval_defs)
  have ok: "fst (gum_thumb_writer_flush ?w)"
    by (rule flush_without_label_refs_succeeds [OF st(1)])
  have al: "\<exists>r\<in>set (literal_refs ?w). gum_instruction_is_t1_load (read_u16 (heap ?w) (lit_insn r))"
    using lits st(4,5) by (cases "literal_refs ?w") auto
  from flush_alignment_nop_iff [OF lits] ok lits st al show ?thesis
    by (simp add: Let_def gum_thumb_writer_put_instruction_def)
qed

text \<open>
  C8 as stated fails when the flush fails: after a branch to the defined label 2, a
  branch to the undefined label 1 and a T1 literal load from \<open>0x1000\<close>, the
  literal-reference table is not empty, its reference at \<open>0x1004\<close> is a T1 load and the
  program counter \<open>0x1006\<close> is not 4-byte aligned, yet the flush returns failure and emits
  no nop: the cursor stays at \<open>0x1006\<close> and the halfword there stays zero.
\<close>

theorem failed_flush_emits_no_nop_counterexample:
  "map lit_insn (literal_refs example_unresolved_writer) = [0x1004] \<and>
   gum_instruction_is_t1_load (read_u16 (heap example_unresolved_writer) 0x1004) \<and>
   pc example_unresolved_writer AND 3 = 2 \<and>
   code example_unresolved_writer = 0x1006 \<and>
   \<not> fst (gum_thumb_writer_flush example_unresolved_writer) \<and>
   code (snd (gum_thumb_writer_flush example_unresolved_writer)) = 0x1006 \<and>
   pc (snd (gum_thumb_writer_flush example_unresolved_writer)) = 0x1006 \<and>
   read_u16 (heap (snd (gum_thumb_writer_flush example_unresolved_writer))) 0x1006 = 0"
proof -
  let ?w = example_unresolved_writer
  let ?pre = "[\<lparr> lr_id = 2, lr_insn = 0x1000, lr_pc = 0x1004 \<rparr>]"
  let ?r = "\<lparr> lr_id = 1, lr_insn = 0x1002, lr_pc = 0x1006 \<rparr>"
  have refs: "label_refs ?w = ?pre @ ?r # []"
    by (simp add: example_unresolved_writer_def eval_defs)
  have zero: "gum_thumb_writer_lookup_address_for_label_id ?w (lr_id ?r) = 0"
    by (simp add: example_unresolved_writer_def eval_defs)
  have st: "map lit_insn (literal_refs ?w) = [0x1004]"
    "gum_instruction_is_t1_load (read_u16 (heap ?w) 0x1004)"
    "pc ?w AND 3 = 2" "code ?w = 0x1006" "pc ?w = 0x1006"
    "heap ?w 0x1006 = 0" "heap ?w 0x1007 = 0"
    by (simp_all add: example_unresolved_writer_def eval_defs)
  have loop: "label_refs_loop ?w (label_refs ?w) (heap ?w) =
                (False, snd (label_refs_loop ?w ?pre (heap ?w)))"
    unfolding refs by (rule label_refs_loop_stops [OF zero])
  have flush: "gum_thumb_writer_flush ?w =
           (False, ?w\<lparr> heap := snd (label_refs_loop ?w ?pre (heap ?w)),
                         label_refs := [], literal_refs := [] \<rparr>)"
    using refs loop by (simp add: gum_thumb_writer_flush_def)
  have frame: "snd (label_refs_loop ?w ?pre (heap ?w)) a = heap ?w a"
    if "a \<noteq> 0x1000" "a \<noteq> 0x1001" for a
    by (rule label_refs_loop_frame) (use that in simp)
  have f6: "snd (label_refs_loop ?w ?pre (heap ?w)) 0x1006 = heap ?w 0x1006"
    by (rule frame) simp_all
  have f7: "snd (label_refs_loop ?w ?pre (heap ?w)) (0x1006 + 1) = heap ?w (0x1006 + 1)"
    by (rule frame) simp_all
  have h7: "heap ?w (0x1006 + 1) = 0"
    using st(7) by simp
  have rd: "read_u16 (snd (label_refs_loop ?w ?pre (heap ?w))) 0x1006 = 0"
    unfolding read_u16_def f6 f7 h7 st(6) by simp
  show ?thesis
    unfolding flush using st rd by simp
qed

subsection \<open>Helper lemmas: the cursor and the program counter\<close>

lemma advances_refl: "advances w w"
  by (simp add: advances_def)

lemma advances_same: "base w' = base w \<Longrightarrow> code w' = code w \<Longrightarrow> pc w' = pc w \<Longrightarrow> advances w w'"
  by (simp add: advances_def)

lemma advances_trans: "advances a b \<Longrightarrow> advances b c \<Longrightarrow> advances a c"
proof -
  assume ab: "advances a b" and bc: "advances b c"
  then have le: "code a \<le> code b" "code b \<le> code c" by (simp_all add: advances_def)
  then have "code c - code a = (code b - code a) + (code c - code b)" by simp
  then have "(of_nat (code c - code a) :: 64 word) = of_nat (code b - code a) + of_nat (code c - code b)"
    by (simp only: of_nat_add)
  with ab bc le show ?thesis by (simp add: advances_def)
qed

lemma advances_put_instruction: "advances w (gum_thumb_writer_put_instruction w insn)"
  by (simp add: advances_def gum_thumb_writer_put_instruction_def)

lemma advances_put2:
  "advances w (gum_thumb_writer_put_instruction (gum_thumb_writer_put_instruction w a) b)"
  by (rule advances_trans [OF advances_put_instruction advances_put_instruction])

lemma advances_skip: "advances w (gum_thumb_writer_skip w n)"
  by (simp add: advances_def gum_thumb_writer_skip_def)

lemma advances_put_bytes: "advances w (snd (gum_thumb_writer_put_bytes w data))"
  by (auto simp add: advances_def gum_thumb_writer_put_bytes_def Let_def)

lemma advances_set_target_os: "advances w (gum_thumb_writer_set_target_os w os)"
  by (simp add: advances_def gum_thumb_writer_set_target_os_def)

lemma advances_put_label: "advances w (snd (gum_thumb_writer_put_label w ident))"
  by (simp add: advances_def gum_thumb_writer_put_label_def
      gum_thumb_writer_add_address_for_label_id_def)

lemma advances_add_label_reference:
  "advances w (snd (gum_thumb_writer_add_label_reference_here w ident))"
  by (simp add: advances_def gum_thumb_writer_add_label_reference_here_def)

lemma advances_add_literal_reference:
  "advances w (snd (gum_thumb_writer_add_literal_reference_here w val))"
  by (simp add: advances_def gum_thumb_writer_add_literal_reference_here_def)

lemma advances_bx_reg: "advances w (gum_thumb_writer_put_bx_reg w reg)"
  by (simp add: gum_thumb_writer_put_bx_reg_def Let_def advances_put_instruction)

lemma advances_blx_reg: "advances w (gum_thumb_writer_put_blx_reg w reg)"
  by (simp add: gum_thumb_writer_put_blx_reg_def Let_def advances_put_instruction)

lemma advances_branch_imm: "advances w (gum_thumb_writer_put_branch_imm w target link thumb)"
  by (simp add: gum_thumb_writer_put_branch_imm_def put_branch_imm_distance_def Let_def
      advances_put2)

lemma advances_cmp_reg_imm: "advances w (gum_thumb_writer_put_cmp_reg_imm w reg imm)"
  by (simp add: gum_thumb_writer_put_cmp_reg_imm_def Let_def advances_put_instruction)

lemma advances_after_reference:
  "advances w (gum_thumb_writer_put_instruction
                 (snd (gum_thumb_writer_add_label_reference_here w ident)) insn)"
  by (rule advances_trans [OF advances_add_label_reference advances_put_instruction])

lemma advances_b_label: "advances w (snd (gum_thumb_writer_put_b_label w label_id))"
  using advances_after_reference [of w label_id] advances_add_label_reference [of w label_id]
  by (simp add: gum_thumb_writer_put_b_label_def split_beta)

lemma advances_b_cond_label: "advances w (snd (gum_thumb_writer_put_b_cond_label w cc label_id))"
  using advances_after_reference [of w label_id] advances_add_label_reference [of w label_id]
  by (simp add: gum_thumb_writer_put_b_cond_label_def split_beta)

lemma advances_cbz: "advances w (snd (gum_thumb_writer_put_cbz_reg_label w reg label_id))"
  using advances_after_reference [of w label_id] advances_add_label_reference [of w label_id]
  by (simp add: gum_thumb_writer_put_cbz_reg_label_def split_beta Let_def)

lemma advances_cbnz: "advances w (snd (gum_thumb_writer_put_cbnz_reg_label w reg label_id))"
  using advances_after_reference [of w label_id] advances_add_label_reference [of w label_id]
  by (simp add: gum_thumb_writer_put_cbnz_reg_label_def split_beta Let_def)

lemma advances_push_or_pop:
  "advances w (snd (gum_thumb_writer_put_push_or_pop_regs w narrow_opcode wide_opcode special regs))"
  by (simp add: gum_thumb_writer_put_push_or_pop_regs_def Let_def advances_refl
      advances_put_instruction advances_put2)

lemma advances_ldr_reg_u32: "advances w (snd (gum_thumb_writer_put_ldr_reg_u32 w reg val))"
proof -
  let ?r = "snd (gum_thumb_writer_add_literal_reference_here w val)"
  have a: "advances w ?r" by (rule advances_add_literal_reference)
  have b: "advances w (gum_thumb_writer_put_instruction ?r x)" for x
    by (rule advances_trans [OF a advances_put_instruction])
  have c: "advances w (gum_thumb_writer_put_instruction (gum_thumb_writer_put_instruction ?r x) y)" for x y
    by (rule advances_trans [OF a advances_put2])
  show ?thesis
    using a b c by (simp add: gum_thumb_writer_put_ldr_reg_u32_def split_beta Let_def)
qed

lemma advances_transfer:
  "advances w (snd (gum_thumb_writer_put_transfer_reg_reg_offset w operation l r off))"
  by (simp add: gum_thumb_writer_put_transfer_reg_reg_offset_def Let_def advances_refl
      advances_put_instruction advances_put2)

lemma advances_mov_reg_reg: "advances w (gum_thumb_writer_put_mov_reg_reg w d s)"
  by (simp add: gum_thumb_writer_put_mov_reg_reg_def Let_def advances_put_instruction)

lemma advances_mov_reg_u8: "advances w (gum_thumb_writer_put_mov_reg_u8 w d i)"
  by (simp add: gum_thumb_writer_put_mov_reg_u8_def Let_def advances_put_instruction)

lemma advances_add_reg_imm: "advances w (snd (gum_thumb_writer_put_add_reg_imm w d i))"
  by (simp add: gum_thumb_writer_put_add_reg_imm_def Let_def advances_refl advances_put_instruction)

lemma advances_add_reg_reg_reg: "advances w (gum_thumb_writer_put_add_reg_reg_reg w d l r)"
  by (simp add: gum_thumb_writer_put_add_reg_reg_reg_def Let_def advances_put_instruction)

lemma advances_add_reg_reg_imm: "advances w (snd (gum_thumb_writer_put_add_reg_reg_imm w d l i))"
  by (simp add: gum_thumb_writer_put_add_reg_reg_imm_def Let_def advances_refl
      advances_put_instruction advances_add_reg_imm)

lemma advances_sub_reg_reg_reg: "advances w (gum_thumb_writer_put_sub_reg_reg_reg w d l r)"
  by (simp add: gum_thumb_writer_put_sub_reg_reg_reg_def Let_def advances_put_instruction)

lemma advances_breakpoint: "advances w (gum_thumb_writer_put_breakpoint w)"
  by (cases "target_os w")
    (simp_all add: gum_thumb_writer_put_breakpoint_def gum_thumb_writer_put_bkpt_imm_def
      gum_thumb_writer_put_bx_reg_def Let_def advances_put_instruction advances_put2)

lemma advances_argument_setup: "advances w (put_argument_setup w arg arg_index)"
proof -
  have push: "advances v (snd (gum_thumb_writer_put_push_regs v r rs))" for v r rs
    by (simp add: gum_thumb_writer_put_push_regs_def advances_push_or_pop)
  have ldr: "advances v (snd (gum_thumb_writer_put_ldr_reg_address v r a))" for v r a
    by (simp add: gum_thumb_writer_put_ldr_reg_address_def advances_ldr_reg_u32)
  show ?thesis
    by (cases arg)
      (auto simp add: put_argument_setup_def Let_def advances_refl advances_mov_reg_reg
        intro: ldr push advances_trans [OF ldr push])
qed

lemma advances_argument_loop: "advances w (argument_list_setup_loop w args n)"
proof (induction n arbitrary: w)
  case 0
  show ?case by (simp add: advances_refl)
next
  case (Suc n)
  show ?case
    using advances_trans [OF advances_argument_setup Suc.IH] by simp
qed

lemma advances_call_address:
  "advances w (gum_thumb_writer_put_call_address_with_arguments_array w func args)"
proof -
  let ?a = "gum_thumb_writer_put_argument_list_setup w args"
  let ?b = "snd (gum_thumb_writer_put_ldr_reg_address ?a ARM_REG_LR func)"
  have 1: "advances w ?a"
    by (simp add: gum_thumb_writer_put_argument_list_setup_def advances_argument_loop)
  have 2: "advances ?a ?b"
    by (simp add: gum_thumb_writer_put_ldr_reg_address_def advances_ldr_reg_u32)
  have 3: "advances ?b (gum_thumb_writer_put_blx_reg ?b ARM_REG_LR)"
    by (rule advances_blx_reg)
  from advances_trans [OF 1 advances_trans [OF 2 3]] show ?thesis
    by (simp add: gum_thumb_writer_put_call_address_with_arguments_array_def Let_def
        gum_thumb_writer_put_argument_list_teardown_def)
qed

lemma advances_call_reg:
  "advances w (gum_thumb_writer_put_call_reg_with_arguments_array w reg args)"
proof -
  let ?a = "gum_thumb_writer_put_argument_list_setup w args"
  have 1: "advances w ?a"
    by (simp add: gum_thumb_writer_put_argument_list_setup_def advances_argument_loop)
  from advances_trans [OF 1 advances_blx_reg] show ?thesis
    by (simp add: gum_thumb_writer_put_call_reg_with_arguments_array_def Let_def
        gum_thumb_writer_put_argument_list_teardown_def)
qed

lemma advances_literal_ref_step:
  "advances (snd st) (snd (literal_ref_step first_slot r st))"
  by (cases st) (simp add: literal_ref_step_def Let_def advances_def split_beta)

lemma advances_literal_refs_loop:
  "advances (snd st) (snd (literal_refs_loop first_slot rs st))"
proof (induction rs arbitrary: st)
  case Nil
  show ?case by (simp add: advances_refl)
next
  case (Cons r rs)
  show ?case
    using advances_trans [OF advances_literal_ref_step Cons.IH] by simp
qed

lemma advances_flush_literal_refs: "advances w (flush_literal_refs w)"
proof -
  let ?w1 = "if need_aligned_slots_loop (heap w) (literal_refs w) False \<and> pc w AND 3 \<noteq> 0
             then gum_thumb_writer_put_nop w else w"
  have 1: "advances w ?w1"
    by (simp add: gum_thumb_writer_put_nop_def advances_put_instruction advances_refl)
  have 2: "advances ?w1 (snd (literal_refs_loop (code ?w1) (literal_refs ?w1) (0, ?w1)))"
    using advances_literal_refs_loop [of "(0, ?w1)"] by simp
  have "advances w (snd (literal_refs_loop (code ?w1) (literal_refs ?w1) (0, ?w1)))"
    by (rule advances_trans [OF 1 2])
  then show ?thesis
    by (simp add: flush_literal_refs_def Let_def split_beta advances_def)
qed

lemma advances_flush: "advances w (snd (gum_thumb_writer_flush w))"
proof -
  have a: "advances w (flush_literal_refs (w\<lparr> heap := m, label_refs := [] \<rparr>))" for m
    by (rule advances_trans [OF _ advances_flush_literal_refs]) (simp add: advances_def)
  show ?thesis
    using a advances_flush_literal_refs [of w]
    by (auto simp add: gum_thumb_writer_flush_def Let_def split_beta advances_def)
qed

lemma advances_apply_op: "advances s (apply_op op s)"
  by (cases op)
    (simp_all add: advances_set_target_os advances_skip advances_flush advances_put_label
      advances_call_address advances_call_reg advances_branch_imm advances_bx_reg
      advances_blx_reg advances_cmp_reg_imm advances_b_label advances_b_cond_label
      advances_cbz advances_cbnz advances_push_or_pop advances_ldr_reg_u32 advances_transfer
      advances_mov_reg_reg advances_mov_reg_u8 advances_add_reg_imm advances_add_reg_reg_reg
      advances_add_reg_reg_imm advances_sub_reg_reg_reg advances_breakpoint
      advances_put_instruction advances_put_bytes
      gum_thumb_writer_put_b_imm_def gum_thumb_writer_put_bl_imm_def
      gum_thumb_writer_put_blx_imm_def gum_thumb_writer_put_beq_label_def
      gum_thumb_writer_put_bne_label_def gum_thumb_writer_put_push_regs_array_def
      gum_thumb_writer_put_pop_regs_array_def gum_thumb_writer_put_ldr_reg_address_def
      gum_thumb_writer_put_ldr_reg_reg_def gum_thumb_writer_put_ldr_reg_reg_offset_def
      gum_thumb_writer_put_str_reg_reg_def gum_thumb_writer_put_str_reg_reg_offset_def
      gum_thumb_writer_put_add_reg_reg_def gum_thumb_writer_put_sub_reg_imm_def
      gum_thumb_writer_put_sub_reg_reg_def gum_thumb_writer_put_sub_reg_reg_imm_def
      gum_thumb_writer_put_nop_def gum_thumb_writer_put_bkpt_imm_def)

lemma advances_apply_ops: "advances s (apply_ops ops s)"
proof (induction ops arbitrary: s)
  case Nil
  show ?case by (simp add: advances_refl)
next
  case (Cons op ops)
  show ?case
    using advances_trans [OF advances_apply_op Cons.IH] by simp
qed

text \<open>The same chain for steps of an even number of bytes.\<close>

lemma even_step_refl: "even_step w w"
  by (simp add: even_step_def)

lemma even_step_same: "code w' = code w \<Longrightarrow> even_step w w'"
  by (simp add: even_step_def)

lemma even_step_trans: "even_step a b \<Longrightarrow> even_step b c \<Longrightarrow> even_step a c"
proof -
  assume ab: "even_step a b" and bc: "even_step b c"
  then have le: "code a \<le> code b" "code b \<le> code c" by (simp_all add: even_step_def)
  then have "code c - code a = (code b - code a) + (code c - code b)" by simp
  with ab bc le show ?thesis by (simp add: even_step_def)
qed

lemma even_step_put_instruction: "even_step w (gum_thumb_writer_put_instruction w insn)"
  by (simp add: even_step_def gum_thumb_writer_put_instruction_def)

lemma even_step_put2:
  "even_step w (gum_thumb_writer_put_instruction (gum_thumb_writer_put_instruction w a) b)"
  by (rule even_step_trans [OF even_step_put_instruction even_step_put_instruction])

lemma even_step_skip: "even (unat n) \<Longrightarrow> even_step w (gum_thumb_writer_skip w n)"
  by (simp add: even_step_def gum_thumb_writer_skip_def)

lemma even_step_put_bytes: "even_step w (snd (gum_thumb_writer_put_bytes w data))"
  by (auto simp add: even_step_def gum_thumb_writer_put_bytes_def Let_def)

lemma even_step_set_target_os: "even_step w (gum_thumb_writer_set_target_os w os)"
  by (simp add: even_step_def gum_thumb_writer_set_target_os_def)

lemma even_step_put_label: "even_step w (snd (gum_thumb_writer_put_label w ident))"
  by (simp add: even_step_def gum_thumb_writer_put_label_def
      gum_thumb_writer_add_address_for_label_id_def)

lemma even_step_add_label_reference:
  "even_step w (snd (gum_thumb_writer_add_label_reference_here w ident))"
  by (simp add: even_step_def gum_thumb_writer_add_label_reference_here_def)

lemma even_step_add_literal_reference:
  "even_step w (snd (gum_thumb_writer_add_literal_reference_here w val))"
  by (simp add: even_step_def gum_thumb_writer_add_literal_reference_here_def)

lemma even_step_bx_reg: "even_step w (gum_thumb_writer_put_bx_reg w reg)"
  by (simp add: gum_thumb_writer_put_bx_reg_def Let_def even_step_put_instruction)

lemma even_step_blx_reg: "even_step w (gum_thumb_writer_put_blx_reg w reg)"
  by (simp add: gum_thumb_writer_put_blx_reg_def Let_def even_step_put_instruction)

lemma even_step_branch_imm: "even_step w (gum_thumb_writer_put_branch_imm w target link thumb)"
  by (simp add: gum_thumb_writer_put_branch_imm_def put_branch_imm_distance_def Let_def
      even_step_put2)

lemma even_step_cmp_reg_imm: "even_step w (gum_thumb_writer_put_cmp_reg_imm w reg imm)"
  by (simp add: gum_thumb_writer_put_cmp_reg_imm_def Let_def even_step_put_instruction)

lemma even_step_after_reference:
  "even_step w (gum_thumb_writer_put_instruction
                 (snd (gum_thumb_writer_add_label_reference_here w ident)) insn)"
  by (rule even_step_trans [OF even_step_add_label_reference even_step_put_instruction])

lemma even_step_b_label: "even_step w (snd (gum_thumb_writer_put_b_label w label_id))"
  using even_step_after_reference [of w label_id] even_step_add_label_reference [of w label_id]
  by (simp add: gum_thumb_writer_put_b_label_def split_beta)

lemma even_step_b_cond_label: "even_step w (snd (gum_thumb_writer_put_b_cond_label w cc label_id))"
  using even_step_after_reference [of w label_id] even_step_add_label_reference [of w label_id]
  by (simp add: gum_thumb_writer_put_b_cond_label_def split_beta)

lemma even_step_cbz: "even_step w (snd (gum_thumb_writer_put_cbz_reg_label w reg label_id))"
  using even_step_after_reference [of w label_id] even_step_add_label_reference [of w label_id]
  by (simp add: gum_thumb_writer_put_cbz_reg_label_def split_beta Let_def)

lemma even_step_cbnz: "even_step w (snd (gum_thumb_writer_put_cbnz_reg_label w reg label_id))"
  using even_step_after_reference [of w label_id] even_step_add_label_reference [of w label_id]
  by (simp add: gum_thumb_writer_put_cbnz_reg_label_def split_beta Let_def)

lemma even_step_push_or_pop:
  "even_step w (snd (gum_thumb_writer_put_push_or_pop_regs w narrow_opcode wide_opcode special regs))"
  by (simp add: gum_thumb_writer_put_push_or_pop_regs_def Let_def even_step_refl
      even_step_put_instruction even_step_put2)

lemma even_step_ldr_reg_u32: "even_step w (snd (gum_thumb_writer_put_ldr_reg_u32 w reg val))"
proof -
  let ?r = "snd (gum_thumb_writer_add_literal_reference_here w val)"
  have a: "even_step w ?r" by (rule even_step_add_literal_reference)
  have b: "even_step w (gum_thumb_writer_put_instruction ?r x)" for x
    by (rule even_step_trans [OF a even_step_put_instruction])
  have c: "even_step w (gum_thumb_writer_put_instruction (gum_thumb_writer_put_instruction ?r x) y)" for x y
    by (rule even_step_trans [OF a even_step_put2])
  show ?thesis
    using a b c by (simp add: gum_thumb_writer_put_ldr_reg_u32_def split_beta Let_def)
qed

lemma even_step_transfer:
  "even_step w (snd (gum_thumb_writer_put_transfer_reg_reg_offset w operation l r off))"
  by (simp add: gum_thumb_writer_put_transfer_reg_reg_offset_def Let_def even_step_refl
      even_step_put_instruction even_step_put2)

lemma even_step_mov_reg_reg: "even_step w (gum_thumb_writer_put_mov_reg_reg w d s)"
  by (simp add: gum_thumb_writer_put_mov_reg_reg_def Let_def even_step_put_instruction)

lemma even_step_mov_reg_u8: "even_step w (gum_thumb_writer_put_mov_reg_u8 w d i)"
  by (simp add: gum_thumb_writer_put_mov_reg_u8_def Let_def even_step_put_instruction)

lemma even_step_add_reg_imm: "even_step w (snd (gum_thumb_writer_put_add_reg_imm w d i))"
  by (simp add: gum_thumb_writer_put_add_reg_imm_def Let_def even_step_refl even_step_put_instruction)

lemma even_step_add_reg_reg_reg: "even_step w (gum_thumb_writer_put_add_reg_reg_reg w d l r)"
  by (simp add: gum_thumb_writer_put_add_reg_reg_reg_def Let_def even_step_put_instruction)

lemma even_step_add_reg_reg_imm: "even_step w (snd (gum_thumb_writer_put_add_reg_reg_imm w d l i))"
  by (simp add: gum_thumb_writer_put_add_reg_reg_imm_def Let_def even_step_refl
      even_step_put_instruction even_step_add_reg_imm)

lemma even_step_sub_reg_reg_reg: "even_step w (gum_thumb_writer_put_sub_reg_reg_reg w d l r)"
  by (simp add: gum_thumb_writer_put_sub_reg_reg_reg_def Let_def even_step_put_instruction)

lemma even_step_breakpoint: "even_step w (gum_thumb_writer_put_breakpoint w)"
  by (cases "target_os w")
    (simp_all add: gum_thumb_writer_put_breakpoint_def gum_thumb_writer_put_bkpt_imm_def
      gum_thumb_writer_put_bx_reg_def Let_def even_step_put_instruction even_step_put2)

lemma even_step_argument_setup: "even_step w (put_argument_setup w arg arg_index)"
proof -
  have push: "even_step v (snd (gum_thumb_writer_put_push_regs v r rs))" for v r rs
    by (simp add: gum_thumb_writer_put_push_regs_def even_step_push_or_pop)
  have ldr: "even_step v (snd (gum_thumb_writer_put_ldr_reg_address v r a))" for v r a
    by (simp add: gum_thumb_writer_put_ldr_reg_address_def even_step_ldr_reg_u32)
  show ?thesis
    by (cases arg)
      (auto simp add: put_argument_setup_def Let_def even_step_refl even_step_mov_reg_reg
        intro: ldr push even_step_trans [OF ldr push])
qed

lemma even_step_argument_loop: "even_step w (argument_list_setup_loop w args n)"
proof (induction n arbitrary: w)
  case 0
  show ?case by (simp add: even_step_refl)
next
  case (Suc n)
  show ?case
    using even_step_trans [OF even_step_argument_setup Suc.IH] by simp
qed

lemma even_step_call_address:
  "even_step w (gum_thumb_writer_put_call_address_with_arguments_array w func args)"
proof -
  let ?a = "gum_thumb_writer_put_argument_list_setup w args"
  let ?b = "snd (gum_thumb_writer_put_ldr_reg_address ?a ARM_REG_LR func)"
  have 1: "even_step w ?a"
    by (simp add: gum_thumb_writer_put_argument_list_setup_def even_step_argument_loop)
  have 2: "even_step ?a ?b"
    by (simp add: gum_thumb_writer_put_ldr_reg_address_def even_step_ldr_reg_u32)
  have 3: "even_step ?b (gum_thumb_writer_put_blx_reg ?b ARM_REG_LR)"
    by (rule even_step_blx_reg)
  from even_step_trans [OF 1 even_step_trans [OF 2 3]] show ?thesis
    by (simp add: gum_thumb_writer_put_call_address_with_arguments_array_def Let_def
        gum_thumb_writer_put_argument_list_teardown_def)
qed

lemma even_step_call_reg:
  "even_step w (gum_thumb_writer_put_call_reg_with_arguments_array w reg args)"
proof -
  let ?a = "gum_thumb_writer_put_argument_list_setup w args"
  have 1: "even_step w ?a"
    by (simp add: gum_thumb_writer_put_argument_list_setup_def even_step_argument_loop)
  from even_step_trans [OF 1 even_step_blx_reg] show ?thesis
    by (simp add: gum_thumb_writer_put_call_reg_with_arguments_array_def Let_def
        gum_thumb_writer_put_argument_list_teardown_def)
qed

lemma even_step_literal_ref_step:
  "even_step (snd st) (snd (literal_ref_step first_slot r st))"
  by (cases st) (simp add: literal_ref_step_def Let_def even_step_def split_beta)

lemma even_step_literal_refs_loop:
  "even_step (snd st) (snd (literal_refs_loop first_slot rs st))"
proof (induction rs arbitrary: st)
  case Nil
  show ?case by (simp add: even_step_refl)
next
  case (Cons r rs)
  show ?case
    using even_step_trans [OF even_step_literal_ref_step Cons.IH] by simp
qed

lemma even_step_flush_literal_refs: "even_step w (flush_literal_refs w)"
proof -
  let ?w1 = "if need_aligned_slots_loop (heap w) (literal_refs w) False \<and> pc w AND 3 \<noteq> 0
             then gum_thumb_writer_put_nop w else w"
  have 1: "even_step w ?w1"
    by (simp add: gum_thumb_writer_put_nop_def even_step_put_instruction even_step_refl)
  have 2: "even_step ?w1 (snd (literal_refs_loop (code ?w1) (literal_refs ?w1) (0, ?w1)))"
    using even_step_literal_refs_loop [of "(0, ?w1)"] by simp
  have 3: "even_step w (snd (literal_refs_loop (code ?w1) (literal_refs ?w1) (0, ?w1)))"
    by (rule even_step_trans [OF 1 2])
  have eq: "flush_literal_refs w =
      (snd (literal_refs_loop (code ?w1) (literal_refs ?w1) (0, ?w1)))\<lparr> literal_refs := [] \<rparr>"
    by (simp add: flush_literal_refs_def Let_def split_beta)
  have upd: "even_step w (x\<lparr> literal_refs := [] \<rparr>) = even_step w x" for x
    by (simp add: even_step_def)
  show ?thesis
    unfolding eq upd by (rule 3)
qed

lemma even_step_flush: "even_step w (snd (gum_thumb_writer_flush w))"
proof -
  have a: "even_step w (flush_literal_refs (w\<lparr> heap := m, label_refs := [] \<rparr>))" for m
    by (rule even_step_trans [OF _ even_step_flush_literal_refs]) (simp add: even_step_def)
  show ?thesis
    using a even_step_flush_literal_refs [of w]
    by (auto simp add: gum_thumb_writer_flush_def Let_def split_beta even_step_def)
qed

lemma even_step_apply_op: "skip_is_even op \<Longrightarrow> even_step s (apply_op op s)"
  by (cases op)
    (simp_all add: skip_is_even_def even_step_set_target_os even_step_skip even_step_flush even_step_put_label
      even_step_call_address even_step_call_reg even_step_branch_imm even_step_bx_reg
      even_step_blx_reg even_step_cmp_reg_imm even_step_b_label even_step_b_cond_label
      even_step_cbz even_step_cbnz even_step_push_or_pop even_step_ldr_reg_u32 even_step_transfer
      even_step_mov_reg_reg even_step_mov_reg_u8 even_step_add_reg_imm even_step_add_reg_reg_reg
      even_step_add_reg_reg_imm even_step_sub_reg_reg_reg even_step_breakpoint
      even_step_put_instruction even_step_put_bytes
      gum_thumb_writer_put_b_imm_def gum_thumb_writer_put_bl_imm_def
      gum_thumb_writer_put_blx_imm_def gum_thumb_writer_put_beq_label_def
      gum_thumb_writer_put_bne_label_def gum_thumb_writer_put_push_regs_array_def
      gum_thumb_writer_put_pop_regs_array_def gum_thumb_writer_put_ldr_reg_address_def
      gum_thumb_writer_put_ldr_reg_reg_def gum_thumb_writer_put_ldr_reg_reg_offset_def
      gum_thumb_writer_put_str_reg_reg_def gum_thumb_writer_put_str_reg_reg_offset_def
      gum_thumb_writer_put_add_reg_reg_def gum_thumb_writer_put_sub_reg_imm_def
      gum_thumb_writer_put_sub_reg_reg_def gum_thumb_writer_put_sub_reg_reg_imm_def
      gum_thumb_writer_put_nop_def gum_thumb_writer_put_bkpt_imm_def)

lemma even_step_apply_ops:
  "\<forall>op\<in>set ops. skip_is_even op \<Longrightarrow> even_step s (apply_ops ops s)"
proof (induction ops arbitrary: s)
  case Nil
  show ?case by (simp add: even_step_refl)
next
  case (Cons op ops)
  then have 1: "even_step s (apply_op op s)" by (simp add: even_step_apply_op)
  from Cons have 2: "even_step (apply_op op s) (apply_ops ops (apply_op op s))" by simp
  show ?case
    using even_step_trans [OF 1 2] by simp
qed

subsection \<open>Lockstep of cursor and program counter\<close>

text \<open>
  C9, as the code has it. After \<^verbatim>\<open>gum_thumb_writer_reset\<close> to \<open>address\<close> and any sequence
  of writer operations, the base is \<open>address\<close>, the cursor is at or after it, and the
  program counter is ahead of \<open>address\<close> by the byte offset of the cursor from the base
  (modulo \<open>2 ^ 64\<close>, the width of \<^verbatim>\<open>GumAddress\<close>). When every skip of the sequence has
  an even number of bytes, there is a number \<open>k\<close> of halfwords with the cursor at
  \<open>base + 2 * k\<close> and the program counter at \<open>address + 2 * k\<close>; without that condition
  the offset is a number of bytes that need not be even. Every single operation moves
  the cursor and the program counter forward by the same number of bytes:
  \<^verbatim>\<open>gum_thumb_writer_put_instruction\<close> moves both by 2, \<^verbatim>\<open>gum_thumb_writer_skip\<close> moves
  both by \<open>n_bytes\<close>, \<^verbatim>\<open>gum_thumb_writer_put_bytes\<close> moves both by the even length of the
  data.
\<close>

theorem cursor_and_pc_advance_in_lockstep:
  "(let w' = apply_ops ops (gum_thumb_writer_reset native_os w address)
    in base w' = address \<and> address \<le> code w' \<and>
       pc w' - of_nat address = of_nat (code w' - address) \<and>
       ((\<forall>op\<in>set ops. skip_is_even op) \<longrightarrow>
          (\<exists>k. code w' = base w' + 2 * k \<and> pc w' = of_nat address + 2 * of_nat k))) \<and>
   advances s (apply_op op s) \<and>
   code (gum_thumb_writer_put_instruction s insn) = code s + 2 \<and>
   pc (gum_thumb_writer_put_instruction s insn) = pc s + 2 \<and>
   code (gum_thumb_writer_skip s n_bytes) = code s + unat n_bytes \<and>
   pc (gum_thumb_writer_skip s n_bytes) = pc s + ucast n_bytes \<and>
   code (snd (gum_thumb_writer_put_bytes s data)) =
     code s + (if even (length data) then length data else 0) \<and>
   pc (snd (gum_thumb_writer_put_bytes s data)) =
     pc s + (if even (length data) then of_nat (length data) else 0)"
proof -
  let ?r = "gum_thumb_writer_reset native_os w address"
  let ?w' = "apply_ops ops ?r"
  have r: "base ?r = address" "code ?r = address" "pc ?r = of_nat address"
    by (simp_all add: gum_thumb_writer_reset_def)
  from advances_apply_ops [of ?r ops] r
  have main: "base ?w' = address \<and> address \<le> code ?w' \<and>
       pc ?w' - of_nat address = of_nat (code ?w' - address)"
    by (simp add: advances_def)
  have halfwords: "\<exists>k. code ?w' = base ?w' + 2 * k \<and> pc ?w' = of_nat address + 2 * of_nat k"
    if ev: "\<forall>op\<in>set ops. skip_is_even op"
  proof -
    from even_step_apply_ops [OF ev, of ?r]
    have "even (code ?w' - code ?r)" unfolding even_step_def by (rule conjunct2)
    then have "even (code ?w' - address)" by (simp only: r)
    then obtain k where k: "code ?w' - address = 2 * k" by (elim evenE)
    from main have le: "address \<le> code ?w'" and b: "base ?w' = address"
      and p: "pc ?w' - of_nat address = of_nat (code ?w' - address)" by blast+
    from le k have "code ?w' = address + 2 * k" by linarith
    with b have c: "code ?w' = base ?w' + 2 * k" by (simp only:)
    from p have "pc ?w' - of_nat address = of_nat (2 * k)" by (simp only: k)
    then have "pc ?w' = of_nat (2 * k) + of_nat address" by (simp only: diff_eq_eq)
    then have "pc ?w' = of_nat address + 2 * of_nat k" by (simp add: add.commute)
    with c show ?thesis by blast
  qed
  have bytes: "code (snd (gum_thumb_writer_put_bytes s data)) =
     code s + (if even (length data) then length data else 0)"
    "pc (snd (gum_thumb_writer_put_bytes s data)) =
     pc s + (if even (length data) then of_nat (length data) else 0)"
    by (auto simp add: gum_thumb_writer_put_bytes_def Let_def even_iff_mod_2_eq_zero)
  have rest: "advances s (apply_op op s) \<and>
   code (gum_thumb_writer_put_instruction s insn) = code s + 2 \<and>
   pc (gum_thumb_writer_put_instruction s insn) = pc s + 2 \<and>
   code (gum_thumb_writer_skip s n_bytes) = code s + unat n_bytes \<and>
   pc (gum_thumb_writer_skip s n_bytes) = pc s + ucast n_bytes"
    by (simp add: advances_apply_op gum_thumb_writer_put_instruction_def gum_thumb_writer_skip_def)
  from main halfwords bytes rest show ?thesis
    unfolding Let_def by blast
qed

text \<open>
  An instance of C9: a literal load, a skip of 2 bytes, a nop and a flush (alignment
  nop and one pool slot) from \<open>0x1000\<close> leave the cursor and the program counter at
  \<open>0x100C\<close>, 6 halfwords after the base.
\<close>

theorem cursor_and_pc_advance_in_lockstep_witness:
  "skip_is_even (Op_put_ldr_reg_u32 ARM_REG_R0 0xDEADBEEF) \<and> skip_is_even (Op_skip 2) \<and>
   skip_is_even Op_put_nop \<and> skip_is_even Op_flush \<and>
   (let w' = apply_ops [Op_put_ldr_reg_u32 ARM_REG_R0 0xDEADBEEF, Op_skip 2, Op_put_nop, Op_flush]
               (gum_thumb_writer_reset GUM_OS_LINUX blank_writer 0x1000)
    in base w' = 0x1000 \<and> code w' = 0x1000 + 2 * 6 \<and> pc w' = 0x1000 + 2 * 6 \<and>
       pc w' - of_nat 0x1000 = of_nat (code w' - 0x1000))"
proof -
  let ?ops = "[Op_put_ldr_reg_u32 ARM_REG_R0 0xDEADBEEF, Op_skip 2, Op_put_nop, Op_flush]"
  have ev: "code (apply_ops ?ops (gum_thumb_writer_reset GUM_OS_LINUX blank_writer 0x1000)) = 0x100c"
    by (simp add: eval_defs gum_thumb_writer_skip_def gum_thumb_writer_put_nop_def
        gum_thumb_writer_flush_def flush_literal_refs_def literal_ref_step_def)
  have sk: "skip_is_even (Op_put_ldr_reg_u32 ARM_REG_R0 0xDEADBEEF)" "skip_is_even (Op_skip 2)"
    "skip_is_even Op_put_nop" "skip_is_even Op_flush"
    by (simp_all add: skip_is_even_def)
  then have all: "\<forall>op\<in>set ?ops. skip_is_even op" by simp
  from cursor_and_pc_advance_in_lockstep [of ?ops GUM_OS_LINUX blank_writer "0x1000"] all
  have "base (apply_ops ?ops (gum_thumb_writer_reset GUM_OS_LINUX blank_writer 0x1000)) = 0x1000"
    "pc (apply_ops ?ops (gum_thumb_writer_reset GUM_OS_LINUX blank_writer 0x1000)) - of_nat 0x1000 =
       of_nat (code (apply_ops ?ops (gum_thumb_writer_reset GUM_OS_LINUX blank_writer 0x1000)) - 0x1000)"
    "\<exists>k. code (apply_ops ?ops (gum_thumb_writer_reset GUM_OS_LINUX blank_writer 0x1000)) =
           base (apply_ops ?ops (gum_thumb_writer_reset GUM_OS_LINUX blank_writer 0x1000)) + 2 * k \<and>
         pc (apply_ops ?ops (gum_thumb_writer_reset GUM_OS_LINUX blank_writer 0x1000)) =
           of_nat 0x1000 + 2 * of_nat k"
    unfolding Let_def by blast+
  with ev sk show ?thesis
    unfolding Let_def by auto
qed

text \<open>
  C9 as stated fails after a skip of an odd number of bytes: from \<open>0x1000\<close>, a skip of
  1 byte leaves the cursor at \<open>0x1001\<close>, an odd offset from the base, which is
  \<open>base + 2 * k\<close> for no number \<open>k\<close> of halfwords. The program counter is at \<open>0x1001\<close> as
  well: the lockstep holds in bytes.
\<close>

theorem odd_skip_leaves_odd_offset_counterexample:
  "base (apply_ops [Op_skip 1] (gum_thumb_writer_reset GUM_OS_LINUX blank_writer 0x1000)) = 0x1000 \<and>
   code (apply_ops [Op_skip 1] (gum_thumb_writer_reset GUM_OS_LINUX blank_writer 0x1000)) = 0x1001 \<and>
   pc (apply_ops [Op_skip 1] (gum_thumb_writer_reset GUM_OS_LINUX blank_writer 0x1000)) = 0x1001 \<and>
   (code (apply_ops [Op_skip 1] (gum_thumb_writer_reset GUM_OS_LINUX blank_writer 0x1000)) -
    base (apply_ops [Op_skip 1] (gum_thumb_writer_reset GUM_OS_LINUX blank_writer 0x1000))) mod 2 = 1"
  by (simp add: gum_thumb_writer_reset_def gum_thumb_writer_skip_def blank_writer_def)

subsection \<open>Helper lemmas: the literal pool\<close>

lemma first_occurrences_snoc:
  "first_occurrences (vs @ [v]) =
     (if v \<in> set vs then first_occurrences vs else first_occurrences vs @ [v])"
  by (simp add: first_occurrences_def)

lemma set_first_occurrences: "set (first_occurrences vs) = set vs"
  by (simp add: first_occurrences_def)

lemma distinct_first_occurrences: "distinct (first_occurrences vs)"
  by (simp add: first_occurrences_def)

lemma length_first_occurrences: "length (first_occurrences vs) = card (set vs)"
  using distinct_card [OF distinct_first_occurrences, of vs]
  by (simp add: set_first_occurrences)

lemma first_occurrences_prefix:
  "\<exists>tl_part. first_occurrences (vs @ ws) = first_occurrences vs @ tl_part"
proof (induction ws rule: rev_induct)
  case Nil
  show ?case by simp
next
  case (snoc w ws)
  then obtain tl_part where m: "first_occurrences (vs @ ws) = first_occurrences vs @ tl_part" by blast
  have "first_occurrences (vs @ ws @ [w]) = first_occurrences ((vs @ ws) @ [w])" by simp
  also have "\<dots> = (if w \<in> set (vs @ ws) then first_occurrences (vs @ ws)
                    else first_occurrences (vs @ ws) @ [w])"
    by (rule first_occurrences_snoc)
  finally show ?case using m by auto
qed

lemma slot_index_of_in:
  "v \<in> set ds \<Longrightarrow> slot_index_of ds v < length ds \<and> ds ! slot_index_of ds v = v"
  by (induction ds) (auto simp add: slot_index_of_def)

lemma slot_index_of_notin: "v \<notin> set ds \<Longrightarrow> slot_index_of ds v = length ds"
  by (induction ds) (auto simp add: slot_index_of_def)

lemma slot_index_of_append: "v \<in> set ds \<Longrightarrow> slot_index_of (ds @ tl_part) v = slot_index_of ds v"
  by (simp add: slot_index_of_def takeWhile_append1)

lemma slot_index_of_snoc_new: "v \<notin> set ds \<Longrightarrow> slot_index_of (ds @ [v]) v = length ds"
  by (induction ds) (auto simp add: slot_index_of_def)

lemma find_slot_index:
  "\<forall>j<length ds. read_u32 m (slot + 4 * j) = ds ! j \<Longrightarrow>
   find_slot m slot (length ds) v = slot_index_of ds v"
proof (induction ds arbitrary: slot)
  case Nil
  show ?case by (simp add: slot_index_of_def)
next
  case (Cons d ds)
  from Cons.prems have hd: "read_u32 m slot = d" by force
  have tl: "\<forall>j<length ds. read_u32 m ((slot + 4) + 4 * j) = ds ! j"
  proof (intro allI impI)
    fix j assume "j < length ds"
    with Cons.prems have "read_u32 m (slot + 4 * Suc j) = (d # ds) ! Suc j" by (simp del: nth_Cons_Suc mult_Suc_right)
    then show "read_u32 m ((slot + 4) + 4 * j) = ds ! j" by (simp add: add.assoc)
  qed
  from Cons.IH [OF tl] hd show ?case
    by (simp add: slot_index_of_def)
qed

lemma pool_holds_snoc:
  assumes "pool_holds m first_slot ds"
  shows "pool_holds (write_u32 m (first_slot + 4 * length ds) v) first_slot (ds @ [v])"
  unfolding pool_holds_def
proof (intro allI impI)
  fix j assume "j < length (ds @ [v])"
  then consider "j < length ds" | "j = length ds" by fastforce
  then show "read_u32 (write_u32 m (first_slot + 4 * length ds) v) (first_slot + 4 * j) = (ds @ [v]) ! j"
  proof cases
    case 1
    then have "first_slot + 4 * j + 4 \<le> first_slot + 4 * length ds" by simp
    then have "read_u32 (write_u32 m (first_slot + 4 * length ds) v) (first_slot + 4 * j) =
               read_u32 m (first_slot + 4 * j)"
      by (simp add: read_u32_write_u32_other)
    with 1 assms show ?thesis by (simp add: pool_holds_def nth_append)
  next
    case 2
    then show ?thesis by (simp add: read_u32_write_u32_same)
  qed
qed

lemma pool_holds_write_u16:
  assumes "pool_holds m first_slot ds" and "a + 2 \<le> first_slot"
  shows "pool_holds (write_u16 m a v) first_slot ds"
  using assms by (simp add: pool_holds_def read_u32_write_u16_other)

text \<open>The step when the value is already in the pool.\<close>

lemma literal_ref_step_old:
  assumes pool: "pool_holds (heap s) first_slot ds"
    and old: "lit_val r \<in> set ds"
  shows "literal_ref_step first_slot r (length ds, s) =
     (let insn = read_u16 (heap s) (lit_insn r);
          distance_in_bytes = pc s - of_nat (4 * length ds) +
                                of_nat (4 * slot_index_of ds (lit_val r)) - (lit_pc r AND NOT 3)
      in (length ds,
          s\<lparr> heap := (if gum_instruction_is_t1_load insn
                       then write_u16 (heap s) (lit_insn r)
                              (ucast (ucast insn OR distance_in_bytes div 4))
                       else write_u16 (heap s) (lit_insn r + 2)
                              (ucast (ucast (read_u16 (heap s) (lit_insn r + 2)) OR
                                      distance_in_bytes))) \<rparr>))"
proof -
  from pool have idx: "find_slot (heap s) first_slot (length ds) (lit_val r) = slot_index_of ds (lit_val r)"
    by (simp add: pool_holds_def find_slot_index)
  from slot_index_of_in [OF old] have "slot_index_of ds (lit_val r) \<noteq> length ds" by simp
  then show ?thesis
    by (simp add: literal_ref_step_def idx Let_def)
qed

text \<open>The step when the value is new.\<close>

lemma literal_ref_step_new:
  assumes pool: "pool_holds (heap s) first_slot ds"
    and new: "lit_val r \<notin> set ds"
  shows "literal_ref_step first_slot r (length ds, s) =
     (let insn = read_u16 (heap s) (lit_insn r);
          m1 = write_u32 (heap s) (first_slot + 4 * length ds) (lit_val r);
          distance_in_bytes = pc s - of_nat (4 * length ds) +
                                of_nat (4 * length ds) - (lit_pc r AND NOT 3)
      in (length ds + 1,
          s\<lparr> heap := (if gum_instruction_is_t1_load insn
                       then write_u16 m1 (lit_insn r)
                              (ucast (ucast insn OR distance_in_bytes div 4))
                       else write_u16 m1 (lit_insn r + 2)
                              (ucast (ucast (read_u16 m1 (lit_insn r + 2)) OR
                                      distance_in_bytes))),
              code := code s + 4, pc := pc s + 4 \<rparr>))"
proof -
  from pool have idx: "find_slot (heap s) first_slot (length ds) (lit_val r) = slot_index_of ds (lit_val r)"
    by (simp add: pool_holds_def find_slot_index)
  have n: "slot_index_of ds (lit_val r) = length ds"
    by (rule slot_index_of_notin [OF new])
  show ?thesis
    by (simp add: literal_ref_step_def idx n Let_def algebra_simps)
qed

lemma literal_ref_step_facts:
  fixes s :: GumThumbWriter
  assumes pool: "pool_holds (heap s) first_slot ds"
    and below: "lit_insn r + literal_insn_size (heap s) r \<le> first_slot"
  defines "ds' \<equiv> (if lit_val r \<in> set ds then ds else ds @ [lit_val r])"
  defines "res \<equiv> literal_ref_step first_slot r (length ds, s)"
  shows "fst res = length ds'"
    and "code (snd res) = code s + 4 * (length ds' - length ds)"
    and "pc (snd res) = pc s + of_nat (4 * (length ds' - length ds))"
    and "pool_holds (heap (snd res)) first_slot ds'"
    and "literal_patched (heap s) (heap (snd res)) (pc s - of_nat (4 * length ds)) ds' r"
    and "\<And>a. a < lit_insn r \<or> lit_insn r + literal_insn_size (heap s) r \<le> a \<Longrightarrow>
             a < first_slot + 4 * length ds \<or> first_slot + 4 * length ds' \<le> a \<Longrightarrow>
             heap (snd res) a = heap s a"
proof -
  let ?t1 = "gum_instruction_is_t1_load (read_u16 (heap s) (lit_insn r))"
  have b2: "lit_insn r + 2 \<le> first_slot"
    using below by (simp add: literal_insn_size_def split: if_splits)
  have b4: "\<not> ?t1 \<Longrightarrow> lit_insn r + 4 \<le> first_slot"
    using below by (simp add: literal_insn_size_def split: if_splits)
  show "fst res = length ds'"
    using pool by (cases "lit_val r \<in> set ds")
      (simp_all add: res_def ds'_def literal_ref_step_old literal_ref_step_new Let_def)
  show "code (snd res) = code s + 4 * (length ds' - length ds)"
    using pool by (cases "lit_val r \<in> set ds")
      (simp_all add: res_def ds'_def literal_ref_step_old literal_ref_step_new Let_def)
  show "pc (snd res) = pc s + of_nat (4 * (length ds' - length ds))"
    using pool by (cases "lit_val r \<in> set ds")
      (simp_all add: res_def ds'_def literal_ref_step_old literal_ref_step_new Let_def)
  show "pool_holds (heap (snd res)) first_slot ds'"
  proof (cases "lit_val r \<in> set ds")
    case True
    with pool b2 b4 show ?thesis
      by (cases ?t1)
        (simp_all add: res_def ds'_def literal_ref_step_old Let_def pool_holds_write_u16)
  next
    case False
    with pool_holds_snoc [OF pool, of "lit_val r"] pool b2 b4 show ?thesis
      by (cases ?t1)
        (simp_all add: res_def ds'_def literal_ref_step_new Let_def pool_holds_write_u16)
  qed
  show "literal_patched (heap s) (heap (snd res)) (pc s - of_nat (4 * length ds)) ds' r"
  proof (cases "lit_val r \<in> set ds")
    case True
    with pool show ?thesis
      by (cases ?t1)
        (simp_all add: res_def ds'_def literal_ref_step_old Let_def literal_patched_def
          read_u16_write_u16_same read_u16_write_u16_other)
  next
    case False
    have idx: "slot_index_of (ds @ [lit_val r]) (lit_val r) = length ds"
      by (rule slot_index_of_snoc_new [OF False])
    show ?thesis
    proof (cases ?t1)
      case True
      with pool False show ?thesis
        by (simp add: res_def ds'_def literal_ref_step_new Let_def literal_patched_def idx
            read_u16_write_u16_same)
    next
      case nt: False
      from b4 [OF nt] have far: "lit_insn r + 2 + 2 \<le> first_slot + 4 * length ds"
        "lit_insn r + 2 \<le> first_slot + 4 * length ds" by simp_all
      with pool False nt show ?thesis
        by (simp add: res_def ds'_def literal_ref_step_new Let_def literal_patched_def idx
            read_u16_write_u16_same read_u16_write_u16_other read_u16_write_u32_other)
    qed
  qed
  show "heap (snd res) a = heap s a"
    if out: "a < lit_insn r \<or> lit_insn r + literal_insn_size (heap s) r \<le> a"
      and pl: "a < first_slot + 4 * length ds \<or> first_slot + 4 * length ds' \<le> a" for a
  proof (cases "lit_val r \<in> set ds")
    case True
    with pool out show ?thesis
      by (cases ?t1)
        (auto simp add: res_def ds'_def literal_ref_step_old Let_def literal_insn_size_def
          write_u16_def)
  next
    case False
    with pl have pl': "a < first_slot + 4 * length ds \<or> first_slot + 4 * length ds + 4 \<le> a"
      by (auto simp add: ds'_def)
    from False pool out pl' show ?thesis
      by (cases ?t1)
        (auto simp add: res_def ds'_def literal_ref_step_new Let_def literal_insn_size_def
          write_u16_def write_u32_def)
  qed
qed

lemma literal_insn_size_cong:
  "read_u16 m' (lit_insn r) = read_u16 m (lit_insn r) \<Longrightarrow>
   literal_insn_size m' r = literal_insn_size m r"
  by (simp add: literal_insn_size_def)

lemma literal_insn_size_bounds: "2 \<le> literal_insn_size m r \<and> literal_insn_size m r \<le> 4"
  by (simp add: literal_insn_size_def)

lemma literal_refs_separate_cong:
  "\<forall>r\<in>set rs. literal_insn_size m' r = literal_insn_size m r \<Longrightarrow>
   literal_refs_separate m' limit rs = literal_refs_separate m limit rs"
  by (induction rs) (auto simp add: literal_disjoint_def)

lemma literal_refs_separate_below:
  "literal_refs_separate m limit rs \<Longrightarrow> r \<in> set rs \<Longrightarrow>
   lit_insn r + literal_insn_size m r \<le> limit"
  by (induction rs) auto

lemma first_occurrences_length_mono:
  "length (first_occurrences vs) \<le> length (first_occurrences (vs @ ws))"
  using first_occurrences_prefix [of vs ws] by auto

lemma slot_index_of_first_occurrences:
  assumes "v \<in> set vs"
  shows "slot_index_of (first_occurrences (vs @ ws)) v = slot_index_of (first_occurrences vs) v"
proof -
  obtain tl_part where "first_occurrences (vs @ ws) = first_occurrences vs @ tl_part"
    using first_occurrences_prefix [of vs ws] by blast
  with assms show ?thesis
    by (simp add: slot_index_of_append set_first_occurrences)
qed

lemma literal_patched_cong:
  assumes "read_u16 m0' (lit_insn r) = read_u16 m0 (lit_insn r)"
    and "read_u16 m0' (lit_insn r + 2) = read_u16 m0 (lit_insn r + 2)"
    and "read_u16 m'' (lit_insn r) = read_u16 m' (lit_insn r)"
    and "read_u16 m'' (lit_insn r + 2) = read_u16 m' (lit_insn r + 2)"
    and "slot_index_of ds' (lit_val r) = slot_index_of ds (lit_val r)"
  shows "literal_patched m0' m'' pool_pc ds' r = literal_patched m0 m' pool_pc ds r"
  using assms by (simp add: literal_patched_def)

lemma literal_patched_cong_t1:
  assumes "gum_instruction_is_t1_load (read_u16 m0 (lit_insn r))"
    and "read_u16 m0' (lit_insn r) = read_u16 m0 (lit_insn r)"
    and "read_u16 m'' (lit_insn r) = read_u16 m' (lit_insn r)"
    and "slot_index_of ds' (lit_val r) = slot_index_of ds (lit_val r)"
  shows "literal_patched m0' m'' pool_pc ds' r = literal_patched m0 m' pool_pc ds r"
  using assms by (simp add: literal_patched_def)

lemma literal_refs_loop_facts:
  "pool_holds (heap s) first_slot (first_occurrences seen) \<Longrightarrow>
   literal_refs_separate (heap s) first_slot rs \<Longrightarrow>
   pool_built first_slot s (first_occurrences seen) rs
     (first_occurrences (seen @ map lit_val rs))
     (literal_refs_loop first_slot rs (length (first_occurrences seen), s))"
proof (induction rs arbitrary: s seen)
  case Nil
  then show ?case by (simp add: pool_built_def)
next
  case (Cons r rs)
  let ?v = "lit_val r"
  let ?ds = "first_occurrences seen"
  let ?ds1 = "first_occurrences (seen @ [?v])"
  let ?dsf = "first_occurrences (seen @ map lit_val (r # rs))"
  let ?st = "literal_ref_step first_slot r (length ?ds, s)"
  let ?s1 = "snd ?st"
  let ?res = "literal_refs_loop first_slot rs (length ?ds1, ?s1)"
  let ?pp = "pc s - of_nat (4 * length ?ds)"
  note pool = Cons.prems(1)
  from Cons.prems(2) have below: "lit_insn r + literal_insn_size (heap s) r \<le> first_slot"
    and disj: "\<forall>r'\<in>set rs. literal_disjoint (heap s) r r'"
    and sep: "literal_refs_separate (heap s) first_slot rs"
    by simp_all
  have ds1: "(if ?v \<in> set ?ds then ?ds else ?ds @ [?v]) = ?ds1"
    by (simp add: first_occurrences_snoc set_first_occurrences)
  have f1: "fst ?st = length ?ds1"
    using literal_ref_step_facts(1) [OF pool below] by (simp only: ds1)
  have f2: "code ?s1 = code s + 4 * (length ?ds1 - length ?ds)"
    using literal_ref_step_facts(2) [OF pool below] by (simp only: ds1)
  have f3: "pc ?s1 = pc s + of_nat (4 * (length ?ds1 - length ?ds))"
    using literal_ref_step_facts(3) [OF pool below] by (simp only: ds1)
  have f4: "pool_holds (heap ?s1) first_slot ?ds1"
    using literal_ref_step_facts(4) [OF pool below] by (simp only: ds1)
  have f5: "literal_patched (heap s) (heap ?s1) ?pp ?ds1 r"
    using literal_ref_step_facts(5) [OF pool below] by (simp only: ds1)
  have f6: "heap ?s1 a = heap s a"
    if "a < lit_insn r \<or> lit_insn r + literal_insn_size (heap s) r \<le> a"
      and "a < first_slot + 4 * length ?ds" for a
    using literal_ref_step_facts(6) [OF pool below, of a] that by blast
  have le1: "length ?ds \<le> length ?ds1"
    by (rule first_occurrences_length_mono)
  have dsf: "?dsf = first_occurrences ((seen @ [?v]) @ map lit_val rs)" by simp
  have le2: "length ?ds1 \<le> length ?dsf"
    unfolding dsf by (rule first_occurrences_length_mono)
  have pp1: "pc ?s1 - of_nat (4 * length ?ds1) = ?pp"
    using le1 by (simp add: f3 of_nat_diff algebra_simps)
  \<comment> \<open>the instructions of the later references are untouched by the step\<close>
  have in_fp: "heap ?s1 a = heap s a"
    if r': "r' \<in> set rs" and a: "lit_insn r' \<le> a" "a < lit_insn r' + literal_insn_size (heap s) r'"
    for r' a
  proof (rule f6)
    from disj r' have "literal_disjoint (heap s) r r'" by blast
    with a show "a < lit_insn r \<or> lit_insn r + literal_insn_size (heap s) r \<le> a"
      by (auto simp add: literal_disjoint_def)
    from literal_refs_separate_below [OF sep r'] a
    show "a < first_slot + 4 * length ?ds" by simp
  qed
  have same16: "read_u16 (heap ?s1) (lit_insn r') = read_u16 (heap s) (lit_insn r')"
    if r': "r' \<in> set rs" for r'
    using literal_insn_size_bounds [of "heap s" r']
    by (intro read_u16_cong in_fp [OF r']) simp_all
  have same16b: "read_u16 (heap ?s1) (lit_insn r' + 2) = read_u16 (heap s) (lit_insn r' + 2)"
    if r': "r' \<in> set rs" and nt: "\<not> gum_instruction_is_t1_load (read_u16 (heap s) (lit_insn r'))"
    for r'
  proof -
    from nt have "literal_insn_size (heap s) r' = 4" by (simp add: literal_insn_size_def)
    then show ?thesis
      by (intro read_u16_cong in_fp [OF r']) simp_all
  qed
  have size_same: "\<forall>r'\<in>set rs. literal_insn_size (heap ?s1) r' = literal_insn_size (heap s) r'"
    by (auto intro: literal_insn_size_cong same16)
  have sep1: "literal_refs_separate (heap ?s1) first_slot rs"
    using literal_refs_separate_cong [OF size_same] sep by simp
  have ih: "pool_built first_slot ?s1 ?ds1 rs ?dsf ?res"
    using Cons.IH [OF f4 sep1] by simp
  have loop: "literal_refs_loop first_slot (r # rs) (length ?ds, s) = ?res"
  proof -
    have "?st = (length ?ds1, ?s1)" using f1 by (simp add: prod_eq_iff)
    then show ?thesis by simp
  qed
  from ih have i1: "fst ?res = length ?dsf"
    and i2: "code (snd ?res) = code ?s1 + 4 * (length ?dsf - length ?ds1)"
    and i3: "pc (snd ?res) = pc ?s1 + of_nat (4 * (length ?dsf - length ?ds1))"
    and i4: "pool_holds (heap (snd ?res)) first_slot ?dsf"
    and i5: "\<forall>r'\<in>set rs. literal_patched (heap ?s1) (heap (snd ?res))
                       (pc ?s1 - of_nat (4 * length ?ds1)) ?dsf r'"
    and i6: "\<forall>a. a < first_slot + 4 * length ?ds1 \<longrightarrow>
           (\<forall>r'\<in>set rs. a < lit_insn r' \<or> lit_insn r' + literal_insn_size (heap ?s1) r' \<le> a) \<longrightarrow>
           heap (snd ?res) a = heap ?s1 a"
    by (simp_all add: pool_built_def)
  \<comment> \<open>the later steps leave the instruction of \<open>r\<close> alone\<close>
  have keep: "heap (snd ?res) a = heap ?s1 a"
    if a: "lit_insn r \<le> a" "a < lit_insn r + literal_insn_size (heap s) r" for a
  proof -
    have "a < first_slot + 4 * length ?ds1" using a below by simp
    moreover have "\<forall>r'\<in>set rs. a < lit_insn r' \<or> lit_insn r' + literal_insn_size (heap ?s1) r' \<le> a"
    proof
      fix r' assume r': "r' \<in> set rs"
      with disj have "literal_disjoint (heap s) r r'" by blast
      with a size_same r' show "a < lit_insn r' \<or> lit_insn r' + literal_insn_size (heap ?s1) r' \<le> a"
        by (auto simp add: literal_disjoint_def)
    qed
    ultimately show ?thesis using i6 by blast
  qed
  have c1: "fst ?res = length ?dsf" by (rule i1)
  have c2: "code (snd ?res) = code s + 4 * (length ?dsf - length ?ds)"
    using le1 le2 by (simp add: i2 f2)
  have c3: "pc (snd ?res) = pc s + of_nat (4 * (length ?dsf - length ?ds))"
  proof -
    have "length ?dsf - length ?ds = (length ?ds1 - length ?ds) + (length ?dsf - length ?ds1)"
      using le1 le2 by simp
    then have "(of_nat (4 * (length ?dsf - length ?ds)) :: 64 word) =
               of_nat (4 * (length ?ds1 - length ?ds)) + of_nat (4 * (length ?dsf - length ?ds1))"
      by (simp only: of_nat_add [symmetric] distrib_left)
    then show ?thesis by (simp add: i3 f3)
  qed
  have c5: "\<forall>r'\<in>set (r # rs). literal_patched (heap s) (heap (snd ?res)) ?pp ?dsf r'"
  proof
    fix r' assume "r' \<in> set (r # rs)"
    then consider "r' = r" | "r' \<in> set rs" by auto
    then show "literal_patched (heap s) (heap (snd ?res)) ?pp ?dsf r'"
    proof cases
      case 1
      have v1: "?v \<in> set (seen @ [?v])" by simp
      have idx: "slot_index_of ?dsf ?v = slot_index_of ?ds1 ?v"
        unfolding dsf by (rule slot_index_of_first_occurrences [OF v1])
      show ?thesis
      proof (cases "gum_instruction_is_t1_load (read_u16 (heap s) (lit_insn r))")
        case True
        then have sz: "literal_insn_size (heap s) r = 2" by (simp add: literal_insn_size_def)
        have rd: "read_u16 (heap (snd ?res)) (lit_insn r) = read_u16 (heap ?s1) (lit_insn r)"
          by (intro read_u16_cong keep) (simp_all add: sz)
        have "literal_patched (heap s) (heap (snd ?res)) ?pp ?dsf r =
              literal_patched (heap s) (heap ?s1) ?pp ?ds1 r"
          by (rule literal_patched_cong_t1 [OF True refl rd idx])
        with f5 1 show ?thesis by simp
      next
        case False
        then have sz: "literal_insn_size (heap s) r = 4" by (simp add: literal_insn_size_def)
        have rd: "read_u16 (heap (snd ?res)) (lit_insn r) = read_u16 (heap ?s1) (lit_insn r)"
          by (intro read_u16_cong keep) (simp_all add: sz)
        have rd2: "read_u16 (heap (snd ?res)) (lit_insn r + 2) = read_u16 (heap ?s1) (lit_insn r + 2)"
          by (intro read_u16_cong keep) (simp_all add: sz)
        have "literal_patched (heap s) (heap (snd ?res)) ?pp ?dsf r =
              literal_patched (heap s) (heap ?s1) ?pp ?ds1 r"
          by (rule literal_patched_cong [OF refl refl rd rd2 idx])
        with f5 1 show ?thesis by simp
      qed
    next
      case 2
      from i5 2 have "literal_patched (heap ?s1) (heap (snd ?res))
                       (pc ?s1 - of_nat (4 * length ?ds1)) ?dsf r'"
        by blast
      then have p: "literal_patched (heap ?s1) (heap (snd ?res)) ?pp ?dsf r'"
        by (simp only: pp1)
      show ?thesis
      proof (cases "gum_instruction_is_t1_load (read_u16 (heap s) (lit_insn r'))")
        case True
        have "literal_patched (heap ?s1) (heap (snd ?res)) ?pp ?dsf r' =
              literal_patched (heap s) (heap (snd ?res)) ?pp ?dsf r'"
          by (rule literal_patched_cong_t1 [OF True same16 [OF 2] refl refl])
        with p show ?thesis by simp
      next
        case False
        have "literal_patched (heap ?s1) (heap (snd ?res)) ?pp ?dsf r' =
              literal_patched (heap s) (heap (snd ?res)) ?pp ?dsf r'"
          by (rule literal_patched_cong [OF same16 [OF 2] same16b [OF 2 False] refl refl refl])
        with p show ?thesis by simp
      qed
    qed
  qed
  have c6: "\<forall>a. a < first_slot + 4 * length ?ds \<longrightarrow>
           (\<forall>r'\<in>set (r # rs). a < lit_insn r' \<or> lit_insn r' + literal_insn_size (heap s) r' \<le> a) \<longrightarrow>
           heap (snd ?res) a = heap s a"
  proof (intro allI impI)
    fix a
    assume lt: "a < first_slot + 4 * length ?ds"
      and out: "\<forall>r'\<in>set (r # rs). a < lit_insn r' \<or> lit_insn r' + literal_insn_size (heap s) r' \<le> a"
    from lt le1 have lt1: "a < first_slot + 4 * length ?ds1" by simp
    from out size_same
    have out1: "\<forall>r'\<in>set rs. a < lit_insn r' \<or> lit_insn r' + literal_insn_size (heap ?s1) r' \<le> a"
      by simp
    from i6 lt1 out1 have "heap (snd ?res) a = heap ?s1 a" by blast
    also from out lt have "\<dots> = heap s a" by (intro f6) simp_all
    finally show "heap (snd ?res) a = heap s a" .
  qed
  show ?case
    unfolding loop pool_built_def
    using c1 c2 c3 i4 c5 c6 by blast
qed

lemma flush_from_pool_entry:
  assumes ok: "fst (gum_thumb_writer_flush self)" and lits: "literal_refs self \<noteq> []"
  shows "snd (gum_thumb_writer_flush self) =
           (snd (literal_refs_loop (code (literal_pool_entry self)) (literal_refs self)
                   (0, literal_pool_entry self)))\<lparr> literal_refs := [] \<rparr>"
proof -
  have lr: "literal_refs (literal_block_entry self) = literal_refs self"
    by (simp add: literal_block_entry_def)
  have lp: "literal_refs (literal_pool_entry self) = literal_refs self"
    by (simp add: literal_pool_entry_def Let_def lr gum_thumb_writer_put_nop_def
        gum_thumb_writer_put_instruction_def)
  have "snd (gum_thumb_writer_flush self) = flush_literal_refs (literal_block_entry self)"
    using lits by (simp add: flush_success_state [OF ok] Let_def literal_block_entry_def)
  also have "\<dots> = (snd (literal_refs_loop (code (literal_pool_entry self)) (literal_refs self)
                   (0, literal_pool_entry self)))\<lparr> literal_refs := [] \<rparr>"
    unfolding flush_literal_refs_def Let_def split_beta
    by (simp only: literal_pool_entry_def [unfolded Let_def, symmetric] lp)
  finally show ?thesis .
qed

lemma first_occurrences_order:
  "i < j \<Longrightarrow> j < length (first_occurrences vs) \<Longrightarrow>
   length (takeWhile (\<lambda>x. x \<noteq> first_occurrences vs ! i) vs) <
   length (takeWhile (\<lambda>x. x \<noteq> first_occurrences vs ! j) vs)"
proof (induction vs arbitrary: i j rule: rev_induct)
  case Nil
  then show ?case by (simp add: first_occurrences_def)
next
  case (snoc v vs)
  let ?ds = "first_occurrences vs"
  have pos: "length (takeWhile (\<lambda>x. x \<noteq> d) (vs @ [v])) = length (takeWhile (\<lambda>x. x \<noteq> d) vs) \<and>
             length (takeWhile (\<lambda>x. x \<noteq> d) vs) < length vs" if "d \<in> set vs" for d
  proof -
    from that have "takeWhile (\<lambda>x. x \<noteq> d) (vs @ [v]) = takeWhile (\<lambda>x. x \<noteq> d) vs"
      by (simp add: takeWhile_append1)
    moreover from that have "length (takeWhile (\<lambda>x. x \<noteq> d) vs) < length vs"
      by (induction vs) auto
    ultimately show ?thesis by simp
  qed
  show ?case
  proof (cases "j < length ?ds")
    case True
    with snoc.prems have ij: "i < length ?ds" by simp
    have eqi: "first_occurrences (vs @ [v]) ! i = ?ds ! i"
      using ij by (simp add: first_occurrences_snoc nth_append)
    have eqj: "first_occurrences (vs @ [v]) ! j = ?ds ! j"
      using True by (simp add: first_occurrences_snoc nth_append)
    have "?ds ! i \<in> set vs" "?ds ! j \<in> set vs"
      using ij True set_first_occurrences [of vs] nth_mem by blast+
    with snoc.IH [OF snoc.prems(1) True] show ?thesis
      by (simp add: eqi eqj pos)
  next
    case False
    with snoc.prems have new: "v \<notin> set vs" and j: "j = length ?ds"
      by (auto simp add: first_occurrences_snoc split: if_splits)
    from snoc.prems j have ij: "i < length ?ds" by simp
    have eqi: "first_occurrences (vs @ [v]) ! i = ?ds ! i"
      using ij by (simp add: first_occurrences_snoc nth_append)
    have eqj: "first_occurrences (vs @ [v]) ! j = v"
      using j new by (simp add: first_occurrences_snoc)
    have mem: "?ds ! i \<in> set vs"
      using ij set_first_occurrences [of vs] nth_mem by blast
    from new have "takeWhile (\<lambda>x. x \<noteq> v) (vs @ [v]) = vs"
      by (induction vs) auto
    with pos [OF mem] show ?thesis
      by (simp add: eqi eqj)
  qed
qed

text \<open>
  The pool of a successful flush whose literal loads lie below the first slot and do
  not overlap one another.
\<close>

lemma literal_pool_of_separate_loads:
  assumes ok: "fst (gum_thumb_writer_flush self)"
    and lits: "literal_refs self \<noteq> []"
    and sep: "literal_refs_separate (heap (literal_pool_entry self)) (code (literal_pool_entry self))
                (literal_refs self)"
  shows "(let p = literal_pool_entry self;
              first_slot = code p;
              vals = map lit_val (literal_refs self);
              ds = first_occurrences vals;
              self' = snd (gum_thumb_writer_flush self)
          in length ds = card (set vals) \<and> set ds = set vals \<and>
             code self' = first_slot + 4 * card (set vals) \<and>
             pc self' = pc p + of_nat (4 * card (set vals)) \<and>
             literal_refs self' = [] \<and>
             (\<forall>j<length ds. read_u32 (heap self') (first_slot + 4 * j) = ds ! j) \<and>
             (\<forall>i j. i < j \<and> j < length ds \<longrightarrow>
                length (takeWhile (\<lambda>x. x \<noteq> ds ! i) vals) <
                length (takeWhile (\<lambda>x. x \<noteq> ds ! j) vals)) \<and>
             (\<forall>r\<in>set (literal_refs self).
                slot_index_of ds (lit_val r) < length ds \<and>
                ds ! slot_index_of ds (lit_val r) = lit_val r \<and>
                literal_patched (heap p) (heap self') (pc p) ds r))"
proof -
  let ?p = "literal_pool_entry self"
  let ?vals = "map lit_val (literal_refs self)"
  let ?ds = "first_occurrences ?vals"
  let ?res = "literal_refs_loop (code ?p) (literal_refs self) (0, ?p)"
  let ?nil = "[] :: guint32 list"
  have pool0: "pool_holds (heap ?p) (code ?p) (first_occurrences ?nil)"
    by (simp add: pool_holds_def first_occurrences_def)
  have "pool_built (code ?p) ?p (first_occurrences ?nil) (literal_refs self)
          (first_occurrences (?nil @ ?vals))
          (literal_refs_loop (code ?p) (literal_refs self) (length (first_occurrences ?nil), ?p))"
    by (rule literal_refs_loop_facts [OF pool0 sep])
  then have built: "pool_built (code ?p) ?p [] (literal_refs self) ?ds ?res"
    by (simp add: first_occurrences_def)
  have fl: "snd (gum_thumb_writer_flush self) = (snd ?res)\<lparr> literal_refs := [] \<rparr>"
    by (rule flush_from_pool_entry [OF ok lits])
  have len: "length ?ds = card (set ?vals)"
    by (rule length_first_occurrences)
  have idx: "slot_index_of ?ds (lit_val r) < length ?ds \<and> ?ds ! slot_index_of ?ds (lit_val r) = lit_val r"
    if "r \<in> set (literal_refs self)" for r
    using that by (intro slot_index_of_in) (simp add: set_first_occurrences)
  from built have b: "code (snd ?res) = code ?p + 4 * length ?ds"
    "pc (snd ?res) = pc ?p + of_nat (4 * length ?ds)"
    "pool_holds (heap (snd ?res)) (code ?p) ?ds"
    "\<forall>r\<in>set (literal_refs self). literal_patched (heap ?p) (heap (snd ?res)) (pc ?p) ?ds r"
    by (simp_all add: pool_built_def)
  let ?self' = "snd (gum_thumb_writer_flush self)"
  have t1: "length ?ds = card (set ?vals)" by (rule len)
  have t2: "set ?ds = set ?vals" by (rule set_first_occurrences)
  have t3: "code ?self' = code ?p + 4 * card (set ?vals)"
    by (simp add: fl b(1) len)
  have t4: "pc ?self' = pc ?p + of_nat (4 * card (set ?vals))"
    by (simp only: fl len [symmetric]) (simp add: b(2))
  have t5: "literal_refs ?self' = []"
    by (simp add: fl)
  have t6: "\<forall>j<length ?ds. read_u32 (heap ?self') (code ?p + 4 * j) = ?ds ! j"
    using b(3) by (simp add: fl pool_holds_def)
  have t7: "\<forall>i j. i < j \<and> j < length ?ds \<longrightarrow>
                length (takeWhile (\<lambda>x. x \<noteq> ?ds ! i) ?vals) <
                length (takeWhile (\<lambda>x. x \<noteq> ?ds ! j) ?vals)"
    using first_occurrences_order [of _ _ ?vals] by blast
  have t8: "\<forall>r\<in>set (literal_refs self).
                slot_index_of ?ds (lit_val r) < length ?ds \<and>
                ?ds ! slot_index_of ?ds (lit_val r) = lit_val r \<and>
                literal_patched (heap ?p) (heap ?self') (pc ?p) ?ds r"
    using b(4) idx by (simp add: fl)
  show ?thesis
    unfolding Let_def
    using t1 t2 t3 t4 t5 t6 t7 t8 by blast
qed

subsection \<open>Helper lemmas: recorded references stay in place\<close>

lemma literal_refs_separate_mono:
  "literal_refs_separate m limit rs \<Longrightarrow> limit \<le> limit' \<Longrightarrow> literal_refs_separate m limit' rs"
  by (induction rs) auto

lemma literal_refs_separate_snoc:
  "literal_refs_separate m limit (rs @ [r]) \<longleftrightarrow>
     literal_refs_separate m limit rs \<and> lit_insn r + literal_insn_size m r \<le> limit \<and>
     (\<forall>r'\<in>set rs. literal_disjoint m r' r)"
  by (induction rs) auto

text \<open>Memory that agrees below a limit gives the same sizes to loads below the limit.\<close>

lemma literal_insn_size_agree:
  assumes agree: "\<forall>a<limit. m' a = m a"
    and below: "lit_insn r + literal_insn_size m r \<le> limit"
  shows "literal_insn_size m' r = literal_insn_size m r"
proof (rule literal_insn_size_cong, rule read_u16_cong)
  from below literal_insn_size_bounds [of m r] have "lit_insn r + 2 \<le> limit" by simp
  then show "m' (lit_insn r) = m (lit_insn r)" "m' (lit_insn r + 1) = m (lit_insn r + 1)"
    using agree by simp_all
qed

lemma refs_in_place_grow:
  assumes inv: "refs_in_place w"
    and agree: "\<forall>a<code w. heap w' a = heap w a"
    and grow: "code w \<le> code w'"
    and tabs: "literal_refs w' = literal_refs w" "label_refs w' = label_refs w"
  shows "refs_in_place w'"
proof -
  from inv have sep: "literal_refs_separate (heap w) (code w) (literal_refs w)"
    by (simp add: refs_in_place_def)
  have sz: "\<forall>r\<in>set (literal_refs w). literal_insn_size (heap w') r = literal_insn_size (heap w) r"
    using literal_insn_size_agree [OF agree literal_refs_separate_below [OF sep]] by blast
  have "literal_refs_separate (heap w') (code w) (literal_refs w)"
    using literal_refs_separate_cong [OF sz] sep by simp
  then have "literal_refs_separate (heap w') (code w') (literal_refs w)"
    using grow by (rule literal_refs_separate_mono)
  with inv sz grow show ?thesis
    by (fastforce simp add: refs_in_place_def tabs)
qed

lemma refs_in_place_put_instruction:
  "refs_in_place w \<Longrightarrow> refs_in_place (gum_thumb_writer_put_instruction w insn)"
  by (erule refs_in_place_grow)
    (simp_all add: gum_thumb_writer_put_instruction_def write_u16_def)

lemma refs_in_place_skip: "refs_in_place w \<Longrightarrow> refs_in_place (gum_thumb_writer_skip w n)"
  by (erule refs_in_place_grow) (simp_all add: gum_thumb_writer_skip_def)

lemma gum_memcpy_below: "a < dst \<Longrightarrow> gum_memcpy m dst bs a = m a"
  by (induction bs arbitrary: m dst) auto

lemma refs_in_place_put_bytes:
  "refs_in_place w \<Longrightarrow> refs_in_place (snd (gum_thumb_writer_put_bytes w data))"
  by (cases "length data mod 2 = 0")
    (auto simp add: gum_thumb_writer_put_bytes_def Let_def gum_memcpy_below
      elim!: refs_in_place_grow)

lemma refs_in_place_set_target_os:
  "refs_in_place w \<Longrightarrow> refs_in_place (gum_thumb_writer_set_target_os w os)"
  by (simp add: refs_in_place_def gum_thumb_writer_set_target_os_def)

lemma refs_in_place_put_label:
  "refs_in_place w \<Longrightarrow> refs_in_place (snd (gum_thumb_writer_put_label w ident))"
  by (simp add: refs_in_place_def gum_thumb_writer_put_label_def
      gum_thumb_writer_add_address_for_label_id_def)

lemma refs_in_place_empty:
  "literal_refs w = [] \<Longrightarrow> label_refs w = [] \<Longrightarrow> refs_in_place w"
  by (simp add: refs_in_place_def)


lemma refs_in_place_put2:
  "refs_in_place w \<Longrightarrow>
   refs_in_place (gum_thumb_writer_put_instruction (gum_thumb_writer_put_instruction w a) b)"
  by (intro refs_in_place_put_instruction)

lemma refs_in_place_label_emit:
  assumes inv: "refs_in_place w"
  shows "refs_in_place
           (gum_thumb_writer_put_instruction
              (snd (gum_thumb_writer_add_label_reference_here w ident)) insn)"
proof (cases "length (label_refs w) = GUM_MAX_LREF_COUNT")
  case True
  with inv show ?thesis
    by (simp add: gum_thumb_writer_add_label_reference_here_def refs_in_place_put_instruction)
next
  case False
  let ?w' = "gum_thumb_writer_put_instruction w insn"
  from inv have sep: "literal_refs_separate (heap w) (code w) (literal_refs w)"
    by (simp add: refs_in_place_def)
  have agree: "\<forall>a<code w. heap ?w' a = heap w a"
    by (simp add: gum_thumb_writer_put_instruction_def write_u16_def)
  have sz: "\<forall>r\<in>set (literal_refs w). literal_insn_size (heap ?w') r = literal_insn_size (heap w) r"
    using literal_insn_size_agree [OF agree literal_refs_separate_below [OF sep]] by blast
  have below: "\<forall>r\<in>set (literal_refs w). lit_insn r + literal_insn_size (heap ?w') r \<le> code w"
    using sz literal_refs_separate_below [OF sep] by simp
  from refs_in_place_put_instruction [OF inv, of insn]
  have inv': "refs_in_place ?w'" .
  have eq: "gum_thumb_writer_put_instruction
              (snd (gum_thumb_writer_add_label_reference_here w ident)) insn =
            ?w'\<lparr> label_refs := label_refs w @
                    [\<lparr> lr_id = ident, lr_insn = code w, lr_pc = pc w + 4 \<rparr>] \<rparr>"
    using False
    by (simp add: gum_thumb_writer_add_label_reference_here_def gum_thumb_writer_put_instruction_def)
  have sel: "literal_refs ?w' = literal_refs w" "label_refs ?w' = label_refs w"
    "code ?w' = code w + 2"
    by (simp_all add: gum_thumb_writer_put_instruction_def)
  show ?thesis
    unfolding eq using inv' below
    by (auto simp add: refs_in_place_def sel)
qed

lemma refs_in_place_literal_emit:
  assumes inv: "refs_in_place w"
    and agree: "\<forall>a<code w. heap w' a = heap w a"
    and tabs: "literal_refs w' = literal_refs w" "label_refs w' = label_refs w"
    and r: "lit_insn r = code w"
    and size: "code w + literal_insn_size (heap w') r \<le> code w'"
  shows "refs_in_place (w'\<lparr> literal_refs := literal_refs w @ [r] \<rparr>)"
proof -
  from literal_insn_size_bounds [of "heap w'" r] size have grow: "code w \<le> code w'" by simp
  from inv have sep: "literal_refs_separate (heap w) (code w) (literal_refs w)"
    by (simp add: refs_in_place_def)
  have inv': "refs_in_place w'"
    by (rule refs_in_place_grow [OF inv agree grow tabs])
  have sz: "\<forall>r'\<in>set (literal_refs w). literal_insn_size (heap w') r' = literal_insn_size (heap w) r'"
    using literal_insn_size_agree [OF agree literal_refs_separate_below [OF sep]] by blast
  have below: "\<forall>r'\<in>set (literal_refs w). lit_insn r' + literal_insn_size (heap w') r' \<le> code w"
    using sz literal_refs_separate_below [OF sep] by simp
  from inv have labs: "\<forall>l\<in>set (label_refs w). lr_insn l + 2 \<le> code w"
    by (simp add: refs_in_place_def)
  from inv' have sep': "literal_refs_separate (heap w') (code w') (literal_refs w)"
    and lab': "\<forall>l\<in>set (label_refs w).
          lr_insn l + 2 \<le> code w' \<and>
          (\<forall>r\<in>set (literal_refs w).
              lr_insn l + 2 \<le> lit_insn r \<or>
              lit_insn r + literal_insn_size (heap w') r \<le> lr_insn l)"
    by (simp_all add: refs_in_place_def tabs)
  have "literal_refs_separate (heap w') (code w') (literal_refs w @ [r])"
    unfolding literal_refs_separate_snoc
    using sep' size below by (auto simp add: r literal_disjoint_def)
  moreover have "\<forall>l\<in>set (label_refs w).
          lr_insn l + 2 \<le> code w' \<and>
          (\<forall>r'\<in>set (literal_refs w @ [r]).
              lr_insn l + 2 \<le> lit_insn r' \<or>
              lit_insn r' + literal_insn_size (heap w') r' \<le> lr_insn l)"
    using lab' labs by (auto simp add: r)
  ultimately show ?thesis
    by (simp add: refs_in_place_def tabs)
qed

lemma t1_load_opcode:
  "meta (gum_arm_reg_describe reg) \<le> GUM_ARM_MREG_R7 \<Longrightarrow>
   gum_instruction_is_t1_load (ucast (0x4800 OR push_bit 8 (index (gum_arm_reg_describe reg))))"
  by (cases reg)
    (simp_all add: gum_arm_reg_describe_def GUM_ARM_MREG_R7_def gum_instruction_is_t1_load_def)

lemma refs_in_place_ldr_reg_u32:
  assumes inv: "refs_in_place w"
  shows "refs_in_place (snd (gum_thumb_writer_put_ldr_reg_u32 w reg val))"
proof (cases "length (literal_refs w) = GUM_MAX_LITERAL_REF_COUNT")
  case True
  with inv show ?thesis
    by (simp add: gum_thumb_writer_put_ldr_reg_u32_def Let_def
        gum_thumb_writer_add_literal_reference_here_def)
next
  case False
  let ?r = "\<lparr> lit_val = val, lit_insn = code w, lit_pc = pc w + 4 \<rparr>"
  show ?thesis
  proof (cases "meta (gum_arm_reg_describe reg) \<le> GUM_ARM_MREG_R7")
    case True
    let ?insn = "ucast (0x4800 OR push_bit 8 (index (gum_arm_reg_describe reg))) :: guint16"
    let ?w' = "gum_thumb_writer_put_instruction w ?insn"
    have t1: "literal_insn_size (heap ?w') ?r = 2"
      using t1_load_opcode [OF True]
      by (simp add: literal_insn_size_def gum_thumb_writer_put_instruction_def
          read_u16_write_u16_same)
    have "refs_in_place (?w'\<lparr> literal_refs := literal_refs w @ [?r] \<rparr>)"
      by (rule refs_in_place_literal_emit [OF inv])
        (simp_all add: t1, simp_all add: gum_thumb_writer_put_instruction_def write_u16_def)
    moreover have "snd (gum_thumb_writer_put_ldr_reg_u32 w reg val) =
                   ?w'\<lparr> literal_refs := literal_refs w @ [?r] \<rparr>"
      using True False
      by (simp add: gum_thumb_writer_put_ldr_reg_u32_def Let_def
          gum_thumb_writer_add_literal_reference_here_def gum_thumb_writer_put_instruction_def)
    ultimately show ?thesis by simp
  next
    case nl: False
    let ?w' = "gum_thumb_writer_put_instruction
                 (gum_thumb_writer_put_instruction w (ucast (0xf85f OR push_bit 7 (of_bool True) :: 32 word)))
                 (ucast (push_bit 12 (index (gum_arm_reg_describe reg))))"
    have "refs_in_place (?w'\<lparr> literal_refs := literal_refs w @ [?r] \<rparr>)"
    proof (rule refs_in_place_literal_emit [OF inv])
      show "code w + literal_insn_size (heap ?w') ?r \<le> code ?w'"
        using literal_insn_size_bounds [of "heap ?w'" ?r]
        by (simp add: gum_thumb_writer_put_instruction_def)
    qed (simp_all add: gum_thumb_writer_put_instruction_def write_u16_def)
    moreover have "snd (gum_thumb_writer_put_ldr_reg_u32 w reg val) =
                   ?w'\<lparr> literal_refs := literal_refs w @ [?r] \<rparr>"
      using nl False
      by (simp add: gum_thumb_writer_put_ldr_reg_u32_def Let_def
          gum_thumb_writer_add_literal_reference_here_def gum_thumb_writer_put_instruction_def)
    ultimately show ?thesis by simp
  qed
qed


lemma refs_in_place_bx_reg: "refs_in_place w \<Longrightarrow> refs_in_place (gum_thumb_writer_put_bx_reg w reg)"
  by (simp add: gum_thumb_writer_put_bx_reg_def Let_def refs_in_place_put_instruction)

lemma refs_in_place_blx_reg: "refs_in_place w \<Longrightarrow> refs_in_place (gum_thumb_writer_put_blx_reg w reg)"
  by (simp add: gum_thumb_writer_put_blx_reg_def Let_def refs_in_place_put_instruction)

lemma refs_in_place_branch_imm:
  "refs_in_place w \<Longrightarrow> refs_in_place (gum_thumb_writer_put_branch_imm w target link thumb)"
  by (simp add: gum_thumb_writer_put_branch_imm_def put_branch_imm_distance_def Let_def
      refs_in_place_put2)

lemma refs_in_place_cmp_reg_imm:
  "refs_in_place w \<Longrightarrow> refs_in_place (gum_thumb_writer_put_cmp_reg_imm w reg imm)"
  by (simp add: gum_thumb_writer_put_cmp_reg_imm_def Let_def refs_in_place_put_instruction)

lemma add_label_reference_failed:
  "\<not> fst (gum_thumb_writer_add_label_reference_here w ident) \<Longrightarrow>
   snd (gum_thumb_writer_add_label_reference_here w ident) = w"
  by (simp add: gum_thumb_writer_add_label_reference_here_def split: if_splits)

lemma refs_in_place_b_label:
  "refs_in_place w \<Longrightarrow> refs_in_place (snd (gum_thumb_writer_put_b_label w label_id))"
  using refs_in_place_label_emit [of w label_id] add_label_reference_failed [of w label_id]
  by (simp add: gum_thumb_writer_put_b_label_def split_beta)

lemma refs_in_place_b_cond_label:
  "refs_in_place w \<Longrightarrow> refs_in_place (snd (gum_thumb_writer_put_b_cond_label w cc label_id))"
  using refs_in_place_label_emit [of w label_id] add_label_reference_failed [of w label_id]
  by (simp add: gum_thumb_writer_put_b_cond_label_def split_beta)

lemma refs_in_place_cbz:
  "refs_in_place w \<Longrightarrow> refs_in_place (snd (gum_thumb_writer_put_cbz_reg_label w reg label_id))"
  using refs_in_place_label_emit [of w label_id] add_label_reference_failed [of w label_id]
  by (simp add: gum_thumb_writer_put_cbz_reg_label_def split_beta Let_def)

lemma refs_in_place_cbnz:
  "refs_in_place w \<Longrightarrow> refs_in_place (snd (gum_thumb_writer_put_cbnz_reg_label w reg label_id))"
  using refs_in_place_label_emit [of w label_id] add_label_reference_failed [of w label_id]
  by (simp add: gum_thumb_writer_put_cbnz_reg_label_def split_beta Let_def)

lemma refs_in_place_push_or_pop:
  "refs_in_place w \<Longrightarrow>
   refs_in_place (snd (gum_thumb_writer_put_push_or_pop_regs w narrow_opcode wide_opcode special regs))"
  by (simp add: gum_thumb_writer_put_push_or_pop_regs_def Let_def
      refs_in_place_put_instruction refs_in_place_put2)

lemma refs_in_place_transfer:
  "refs_in_place w \<Longrightarrow>
   refs_in_place (snd (gum_thumb_writer_put_transfer_reg_reg_offset w operation l r off))"
  by (simp add: gum_thumb_writer_put_transfer_reg_reg_offset_def Let_def
      refs_in_place_put_instruction refs_in_place_put2)

lemma refs_in_place_mov_reg_reg:
  "refs_in_place w \<Longrightarrow> refs_in_place (gum_thumb_writer_put_mov_reg_reg w d s)"
  by (simp add: gum_thumb_writer_put_mov_reg_reg_def Let_def refs_in_place_put_instruction)

lemma refs_in_place_mov_reg_u8:
  "refs_in_place w \<Longrightarrow> refs_in_place (gum_thumb_writer_put_mov_reg_u8 w d i)"
  by (simp add: gum_thumb_writer_put_mov_reg_u8_def Let_def refs_in_place_put_instruction)

lemma refs_in_place_add_reg_imm:
  "refs_in_place w \<Longrightarrow> refs_in_place (snd (gum_thumb_writer_put_add_reg_imm w d i))"
  by (simp add: gum_thumb_writer_put_add_reg_imm_def Let_def refs_in_place_put_instruction)

lemma refs_in_place_add_reg_reg_reg:
  "refs_in_place w \<Longrightarrow> refs_in_place (gum_thumb_writer_put_add_reg_reg_reg w d l r)"
  by (simp add: gum_thumb_writer_put_add_reg_reg_reg_def Let_def refs_in_place_put_instruction)

lemma refs_in_place_add_reg_reg_imm:
  "refs_in_place w \<Longrightarrow> refs_in_place (snd (gum_thumb_writer_put_add_reg_reg_imm w d l i))"
  by (simp add: gum_thumb_writer_put_add_reg_reg_imm_def Let_def
      refs_in_place_put_instruction refs_in_place_add_reg_imm)

lemma refs_in_place_sub_reg_reg_reg:
  "refs_in_place w \<Longrightarrow> refs_in_place (gum_thumb_writer_put_sub_reg_reg_reg w d l r)"
  by (simp add: gum_thumb_writer_put_sub_reg_reg_reg_def Let_def refs_in_place_put_instruction)

lemma refs_in_place_breakpoint:
  "refs_in_place w \<Longrightarrow> refs_in_place (gum_thumb_writer_put_breakpoint w)"
  by (cases "target_os w")
    (simp_all add: gum_thumb_writer_put_breakpoint_def gum_thumb_writer_put_bkpt_imm_def
      gum_thumb_writer_put_bx_reg_def Let_def refs_in_place_put_instruction refs_in_place_put2)

lemma refs_in_place_argument_setup:
  assumes "refs_in_place w"
  shows "refs_in_place (put_argument_setup w arg arg_index)"
proof -
  have push: "refs_in_place v \<Longrightarrow> refs_in_place (snd (gum_thumb_writer_put_push_regs v r rs))"
    for v r rs
    by (simp add: gum_thumb_writer_put_push_regs_def refs_in_place_push_or_pop)
  have ldr: "refs_in_place v \<Longrightarrow> refs_in_place (snd (gum_thumb_writer_put_ldr_reg_address v r a))"
    for v r a
    by (simp add: gum_thumb_writer_put_ldr_reg_address_def refs_in_place_ldr_reg_u32)
  from assms show ?thesis
    by (cases arg)
      (auto simp add: put_argument_setup_def Let_def refs_in_place_mov_reg_reg
        intro: ldr push)
qed

lemma refs_in_place_argument_loop:
  "refs_in_place w \<Longrightarrow> refs_in_place (argument_list_setup_loop w args n)"
  by (induction n arbitrary: w) (simp_all add: refs_in_place_argument_setup)

lemma refs_in_place_call_address:
  "refs_in_place w \<Longrightarrow>
   refs_in_place (gum_thumb_writer_put_call_address_with_arguments_array w func args)"
  by (simp add: gum_thumb_writer_put_call_address_with_arguments_array_def Let_def
      gum_thumb_writer_put_argument_list_teardown_def gum_thumb_writer_put_argument_list_setup_def
      gum_thumb_writer_put_ldr_reg_address_def
      refs_in_place_argument_loop refs_in_place_ldr_reg_u32 refs_in_place_blx_reg)

lemma refs_in_place_call_reg:
  "refs_in_place w \<Longrightarrow>
   refs_in_place (gum_thumb_writer_put_call_reg_with_arguments_array w reg args)"
  by (simp add: gum_thumb_writer_put_call_reg_with_arguments_array_def Let_def
      gum_thumb_writer_put_argument_list_teardown_def gum_thumb_writer_put_argument_list_setup_def
      refs_in_place_argument_loop refs_in_place_blx_reg)

lemma label_refs_literal_ref_step:
  "label_refs (snd (literal_ref_step first_slot r st)) = label_refs (snd st)"
  by (cases st) (simp add: literal_ref_step_def Let_def split_beta)

lemma label_refs_literal_refs_loop:
  "label_refs (snd (literal_refs_loop first_slot rs st)) = label_refs (snd st)"
  by (induction rs arbitrary: st) (simp_all add: label_refs_literal_ref_step)

lemma flush_tables_empty:
  "label_refs (snd (gum_thumb_writer_flush w)) = [] \<and>
   literal_refs (snd (gum_thumb_writer_flush w)) = []"
  by (auto simp add: gum_thumb_writer_flush_def flush_literal_refs_def Let_def split_beta
      label_refs_literal_refs_loop gum_thumb_writer_put_nop_def gum_thumb_writer_put_instruction_def)

lemma refs_in_place_flush: "refs_in_place (snd (gum_thumb_writer_flush w))"
  using flush_tables_empty [of w] by (simp add: refs_in_place_empty)

text \<open>At the first slot of a flush, the literal loads of a writer in place are separate.\<close>

lemma refs_in_place_pool_entry:
  assumes inv: "refs_in_place w"
  shows "literal_refs_separate (heap (literal_pool_entry w)) (code (literal_pool_entry w))
           (literal_refs w)"
proof -
  let ?e = "literal_block_entry w"
  let ?p = "literal_pool_entry w"
  from inv have sep: "literal_refs_separate (heap w) (code w) (literal_refs w)"
    by (simp add: refs_in_place_def)
  have e_same: "heap ?e a = heap w a"
    if r: "r \<in> set (literal_refs w)" and a: "lit_insn r \<le> a" "a < lit_insn r + literal_insn_size (heap w) r"
    for r a
  proof -
    have "a \<notin> (\<Union>l\<in>set (label_refs w). {lr_insn l, lr_insn l + 1})"
    proof
      assume "a \<in> (\<Union>l\<in>set (label_refs w). {lr_insn l, lr_insn l + 1})"
      then obtain l where l: "l \<in> set (label_refs w)" and al: "a = lr_insn l \<or> a = lr_insn l + 1"
        by auto
      from inv l r have "lr_insn l + 2 \<le> lit_insn r \<or>
                         lit_insn r + literal_insn_size (heap w) r \<le> lr_insn l"
        by (simp add: refs_in_place_def)
      with a al show False by auto
    qed
    then show ?thesis
      by (simp add: literal_block_entry_def label_refs_loop_frame)
  qed
  have sz_e: "\<forall>r\<in>set (literal_refs w). literal_insn_size (heap ?e) r = literal_insn_size (heap w) r"
  proof
    fix r assume r: "r \<in> set (literal_refs w)"
    show "literal_insn_size (heap ?e) r = literal_insn_size (heap w) r"
      using literal_insn_size_bounds [of "heap w" r]
      by (intro literal_insn_size_cong read_u16_cong e_same [OF r]) simp_all
  qed
  have sep_e: "literal_refs_separate (heap ?e) (code w) (literal_refs w)"
    using literal_refs_separate_cong [OF sz_e] sep by simp
  have code_e: "code ?e = code w" by (simp add: literal_block_entry_def)
  have agree: "\<forall>a<code w. heap ?p a = heap ?e a"
    by (simp add: literal_pool_entry_def Let_def gum_thumb_writer_put_nop_def
        gum_thumb_writer_put_instruction_def write_u16_def code_e)
  have sz_p: "\<forall>r\<in>set (literal_refs w). literal_insn_size (heap ?p) r = literal_insn_size (heap ?e) r"
    using literal_insn_size_agree [OF agree literal_refs_separate_below [OF sep_e]] by blast
  have "literal_refs_separate (heap ?p) (code w) (literal_refs w)"
    using literal_refs_separate_cong [OF sz_p] sep_e by simp
  moreover have "code w \<le> code ?p"
    by (simp add: literal_pool_entry_def Let_def gum_thumb_writer_put_nop_def
        gum_thumb_writer_put_instruction_def code_e)
  ultimately show ?thesis by (rule literal_refs_separate_mono)
qed

lemma refs_in_place_apply_op: "refs_in_place s \<Longrightarrow> refs_in_place (apply_op op s)"
  by (cases op)
    (simp_all add: refs_in_place_set_target_os refs_in_place_skip refs_in_place_flush
      refs_in_place_put_label refs_in_place_call_address refs_in_place_call_reg
      refs_in_place_branch_imm refs_in_place_bx_reg refs_in_place_blx_reg
      refs_in_place_cmp_reg_imm refs_in_place_b_label refs_in_place_b_cond_label
      refs_in_place_cbz refs_in_place_cbnz refs_in_place_push_or_pop refs_in_place_ldr_reg_u32
      refs_in_place_transfer refs_in_place_mov_reg_reg refs_in_place_mov_reg_u8
      refs_in_place_add_reg_imm refs_in_place_add_reg_reg_reg refs_in_place_add_reg_reg_imm
      refs_in_place_sub_reg_reg_reg refs_in_place_breakpoint refs_in_place_put_instruction
      refs_in_place_put_bytes
      gum_thumb_writer_put_b_imm_def gum_thumb_writer_put_bl_imm_def
      gum_thumb_writer_put_blx_imm_def gum_thumb_writer_put_beq_label_def
      gum_thumb_writer_put_bne_label_def gum_thumb_writer_put_push_regs_array_def
      gum_thumb_writer_put_pop_regs_array_def gum_thumb_writer_put_ldr_reg_address_def
      gum_thumb_writer_put_ldr_reg_reg_def gum_thumb_writer_put_ldr_reg_reg_offset_def
      gum_thumb_writer_put_str_reg_reg_def gum_thumb_writer_put_str_reg_reg_offset_def
      gum_thumb_writer_put_add_reg_reg_def gum_thumb_writer_put_sub_reg_imm_def
      gum_thumb_writer_put_sub_reg_reg_def gum_thumb_writer_put_sub_reg_reg_imm_def
      gum_thumb_writer_put_nop_def gum_thumb_writer_put_bkpt_imm_def)

lemma refs_in_place_apply_ops: "refs_in_place s \<Longrightarrow> refs_in_place (apply_ops ops s)"
  by (induction ops arbitrary: s) (simp_all add: refs_in_place_apply_op)

lemma refs_in_place_reset: "refs_in_place (gum_thumb_writer_reset native_os w address)"
  by (simp add: refs_in_place_empty gum_thumb_writer_reset_def)

subsection \<open>The literal pool\<close>

text \<open>
  C5. Take a writer reached from \<^verbatim>\<open>gum_thumb_writer_reset\<close> by any sequence of
  operations, with a non-empty literal-reference table, and a successful flush of it.
  Then the number of 32-bit slots emitted is the number of distinct values among the
  literal references: the cursor ends that many slots after the first slot, and the
  program counter likewise. The slots hold the distinct values in the order of their
  first occurrence in the table. Every reference is patched with the distance to the
  one slot that holds its value, so a reference whose value is already in the pool
  addresses the existing slot and no slot is added for it. The literal-reference table
  is empty afterwards.
\<close>

theorem literal_pool_holds_distinct_values:
  assumes reach: "self = apply_ops ops (gum_thumb_writer_reset native_os w address)"
    and ok: "fst (gum_thumb_writer_flush self)"
    and lits: "literal_refs self \<noteq> []"
  shows "(let p = literal_pool_entry self;
              first_slot = code p;
              vals = map lit_val (literal_refs self);
              ds = first_occurrences vals;
              self' = snd (gum_thumb_writer_flush self)
          in length ds = card (set vals) \<and> set ds = set vals \<and>
             code self' = first_slot + 4 * card (set vals) \<and>
             pc self' = pc p + of_nat (4 * card (set vals)) \<and>
             literal_refs self' = [] \<and>
             (\<forall>j<length ds. read_u32 (heap self') (first_slot + 4 * j) = ds ! j) \<and>
             (\<forall>i j. i < j \<and> j < length ds \<longrightarrow>
                length (takeWhile (\<lambda>x. x \<noteq> ds ! i) vals) <
                length (takeWhile (\<lambda>x. x \<noteq> ds ! j) vals)) \<and>
             (\<forall>r\<in>set (literal_refs self).
                slot_index_of ds (lit_val r) < length ds \<and>
                ds ! slot_index_of ds (lit_val r) = lit_val r \<and>
                literal_patched (heap p) (heap self') (pc p) ds r))"
proof -
  have "refs_in_place self"
    unfolding reach by (rule refs_in_place_apply_ops [OF refs_in_place_reset])
  then have sep: "literal_refs_separate (heap (literal_pool_entry self))
                    (code (literal_pool_entry self)) (literal_refs self)"
    by (rule refs_in_place_pool_entry)
  show ?thesis
    by (rule literal_pool_of_separate_loads [OF ok lits sep])
qed

text \<open>
  An instance of C5: \<open>ldr r0, =0x11111111; ldr.w r8, =0x22222222; ldr r1, =0x11111111;
  bx lr\<close> from \<open>0x1000\<close>. After the alignment nop the pool starts at \<open>0x100C\<close> and has
  two slots; the first and the third load address the slot at \<open>0x100C\<close>, the second the
  slot at \<open>0x1010\<close>.
\<close>

theorem literal_pool_holds_distinct_values_witness:
  "example_pool_writer =
     apply_ops [Op_put_ldr_reg_u32 ARM_REG_R0 0x11111111, Op_put_ldr_reg_u32 ARM_REG_R8 0x22222222,
                Op_put_ldr_reg_u32 ARM_REG_R1 0x11111111, Op_put_bx_reg ARM_REG_LR]
       (gum_thumb_writer_reset GUM_OS_LINUX blank_writer 0x1000) \<and>
   fst (gum_thumb_writer_flush example_pool_writer) \<and>
   literal_refs example_pool_writer =
     [\<lparr> lit_val = 0x11111111, lit_insn = 0x1000, lit_pc = 0x1004 \<rparr>,
      \<lparr> lit_val = 0x22222222, lit_insn = 0x1002, lit_pc = 0x1006 \<rparr>,
      \<lparr> lit_val = 0x11111111, lit_insn = 0x1006, lit_pc = 0x100a \<rparr>] \<and>
   code (literal_pool_entry example_pool_writer) = 0x100c \<and>
   code (snd (gum_thumb_writer_flush example_pool_writer)) = 0x1014 \<and>
   read_u32 (heap (snd (gum_thumb_writer_flush example_pool_writer))) 0x100c = 0x11111111 \<and>
   read_u32 (heap (snd (gum_thumb_writer_flush example_pool_writer))) 0x1010 = 0x22222222 \<and>
   read_u16 (heap (snd (gum_thumb_writer_flush example_pool_writer))) 0x1000 = 0x4802 \<and>
   read_u16 (heap (snd (gum_thumb_writer_flush example_pool_writer))) 0x1004 = 0x800c \<and>
   read_u16 (heap (snd (gum_thumb_writer_flush example_pool_writer))) 0x1006 = 0x4901"
proof -
  let ?w = example_pool_writer
  let ?p = "literal_pool_entry ?w"
  let ?w' = "snd (gum_thumb_writer_flush ?w)"
  have refs: "literal_refs ?w =
     [\<lparr> lit_val = 0x11111111, lit_insn = 0x1000, lit_pc = 0x1004 \<rparr>,
      \<lparr> lit_val = 0x22222222, lit_insn = 0x1002, lit_pc = 0x1006 \<rparr>,
      \<lparr> lit_val = 0x11111111, lit_insn = 0x1006, lit_pc = 0x100a \<rparr>]"
    and nolab: "label_refs ?w = []"
    by (simp_all add: example_pool_writer_def eval_defs)
  have p: "code ?p = 0x100c" "pc ?p = 0x100c"
    "read_u16 (heap ?p) 0x1000 = 0x4800" "read_u16 (heap ?p) 0x1002 = 0xf8df"
    "read_u16 (heap ?p) 0x1004 = 0x8000" "read_u16 (heap ?p) 0x1006 = 0x4900"
    by (simp_all add: example_pool_writer_def literal_pool_entry_def literal_block_entry_def
        gum_thumb_writer_put_nop_def eval_defs)
  have ok: "fst (gum_thumb_writer_flush ?w)"
    by (rule flush_without_label_refs_succeeds [OF nolab])
  have lits: "literal_refs ?w \<noteq> []" by (simp add: refs)
  have reach: "?w =
     apply_ops [Op_put_ldr_reg_u32 ARM_REG_R0 0x11111111, Op_put_ldr_reg_u32 ARM_REG_R8 0x22222222,
                Op_put_ldr_reg_u32 ARM_REG_R1 0x11111111, Op_put_bx_reg ARM_REG_LR]
       (gum_thumb_writer_reset GUM_OS_LINUX blank_writer 0x1000)"
    by (simp add: example_pool_writer_def)
  have fo: "first_occurrences (map lit_val (literal_refs ?w)) = [0x11111111, 0x22222222]"
    by (simp add: refs first_occurrences_def)
  have cd: "card (set (map lit_val (literal_refs ?w))) = 2"
    unfolding List.card_set by (simp add: refs)
  note t = literal_pool_holds_distinct_values [OF reach ok lits, unfolded Let_def fo cd]
  from t have code': "code ?w' = 0x1014" by (simp add: p)
  from t have slots: "\<forall>j<2. read_u32 (heap ?w') (code ?p + 4 * j) = [0x11111111, 0x22222222] ! j"
    by simp
  from slots [rule_format, of 0] slots [rule_format, of 1]
  have s0: "read_u32 (heap ?w') 0x100c = 0x11111111" and s1: "read_u32 (heap ?w') 0x1010 = 0x22222222"
    by (simp_all add: p)
  from t have pat: "\<forall>r\<in>set (literal_refs ?w).
      literal_patched (heap ?p) (heap ?w') (pc ?p) [0x11111111, 0x22222222] r"
    by blast
  from pat have i0: "read_u16 (heap ?w') 0x1000 = 0x4802"
    and i1: "read_u16 (heap ?w') 0x1004 = 0x800c"
    and i2: "read_u16 (heap ?w') 0x1006 = 0x4901"
    by (simp_all add: refs literal_patched_def p slot_index_of_def gum_instruction_is_t1_load_def)
  from reach ok refs p(1) code' s0 s1 i0 i1 i2 show ?thesis by blast
qed

end
